(* ===== verification/Prelude.thy ===== *)
theory Prelude
  imports Complex_Main "HOL-Library.Word" "HOL-Library.Sublist"
begin

text \<open>
  Shared vocabulary of the development.

  \<^item> Text. A Rust \<^verbatim>\<open>char\<close> is a Unicode scalar value and a \<^verbatim>\<open>String\<close> is a sequence of
    them, so \<open>str\<close> is a list of code points. \<open>lit\<close> turns an Isabelle string literal into
    one. The character classes of the standard library that the source uses are spelled
    out: White_Space, the control characters (Cc), and the ASCII classes.
  \<^item> Text operations of the standard library: \<open>trim\<close>, \<open>split_once\<close>, \<open>split_on\<close>,
    prefix and suffix tests, decimal formatting.
  \<^item> Results. A fallible function returns \<open>'e + 'a\<close>, \<open>Inl\<close> for \<^verbatim>\<open>Err\<close>.
  \<^item> \<open>prog\<close>: a computation over an explicit state that may fail; what it did to the state
    before it failed stays done, which is how \<^verbatim>\<open>?\<close> behaves on \<^verbatim>\<open>&mut self\<close>.
  \<^item> Machine integers: the bounds of \<^verbatim>\<open>i64\<close> and saturating operations on \<open>int\<close>.
\<close>

named_theorems text_simps \<open>evaluation of text operations on closed arguments\<close>
named_theorems prog_simps \<open>unfolding of the error-and-state computations\<close>

section \<open>Text\<close>

type_synonym rchar = nat
type_synonym str = "rchar list"

definition lit :: "string \<Rightarrow> str" where
  "lit s = map of_char s"

lemma lit_eq_iff [simp]: "lit s = lit t \<longleftrightarrow> s = t"
  unfolding lit_def by (rule inj_map_eq_map) (simp add: inj_def)

lemma lit_Nil_iff [simp]: "lit s = [] \<longleftrightarrow> s = []" "[] = lit s \<longleftrightarrow> s = []"
  by (auto simp: lit_def)

lemma lit_append: "lit (s @ t) = lit s @ lit t"
  by (simp add: lit_def)

lemma length_lit [simp]: "length (lit s) = length s"
  by (simp add: lit_def)

definition is_ascii_digit :: "rchar \<Rightarrow> bool" where
  "is_ascii_digit c \<longleftrightarrow> 48 \<le> c \<and> c \<le> 57"

definition is_ascii_upper :: "rchar \<Rightarrow> bool" where
  "is_ascii_upper c \<longleftrightarrow> 65 \<le> c \<and> c \<le> 90"

definition is_ascii_lower :: "rchar \<Rightarrow> bool" where
  "is_ascii_lower c \<longleftrightarrow> 97 \<le> c \<and> c \<le> 122"

definition is_ascii_alnum :: "rchar \<Rightarrow> bool" where
  "is_ascii_alnum c \<longleftrightarrow> is_ascii_digit c \<or> is_ascii_upper c \<or> is_ascii_lower c"

text \<open>\<^verbatim>\<open>char::is_control\<close>: the general category Cc.\<close>

definition is_control :: "rchar \<Rightarrow> bool" where
  "is_control c \<longleftrightarrow> c \<le> 31 \<or> (127 \<le> c \<and> c \<le> 159)"

text \<open>\<^verbatim>\<open>char::is_whitespace\<close>: the White_Space property.\<close>

definition is_whitespace :: "rchar \<Rightarrow> bool" where
  "is_whitespace c \<longleftrightarrow> (9 \<le> c \<and> c \<le> 13) \<or> c = 32 \<or> c = 133 \<or> c = 160 \<or> c = 5760 \<or>
     (8192 \<le> c \<and> c \<le> 8202) \<or> c = 8232 \<or> c = 8233 \<or> c = 8239 \<or> c = 8287 \<or> c = 12288"

definition to_ascii_lower :: "rchar \<Rightarrow> rchar" where
  "to_ascii_lower c = (if is_ascii_upper c then c + 32 else c)"

definition eq_ignore_ascii_case :: "str \<Rightarrow> str \<Rightarrow> bool" where
  "eq_ignore_ascii_case s t \<longleftrightarrow> map to_ascii_lower s = map to_ascii_lower t"

lemma eq_ignore_ascii_case_refl [simp]: "eq_ignore_ascii_case s s"
  by (simp add: eq_ignore_ascii_case_def)

lemma eq_ignore_ascii_case_sym: "eq_ignore_ascii_case s t \<longleftrightarrow> eq_ignore_ascii_case t s"
  by (auto simp: eq_ignore_ascii_case_def)

text \<open>\<^verbatim>\<open>str::len\<close> counts the bytes of the UTF-8 form.\<close>

definition utf8_len :: "str \<Rightarrow> nat" where
  "utf8_len s = sum_list (map (\<lambda>c. if c < 128 then 1 else if c < 2048 then 2
                                   else if c < 65536 then 3 else 4) s)"

lemma length_le_utf8_len: "length s \<le> utf8_len s"
  by (induction s) (auto simp: utf8_len_def)

subsection \<open>Trimming\<close>

definition trim_start :: "str \<Rightarrow> str" where
  "trim_start s = dropWhile is_whitespace s"

definition trim_end :: "str \<Rightarrow> str" where
  "trim_end s = rev (dropWhile is_whitespace (rev s))"

definition trim :: "str \<Rightarrow> str" where
  "trim s = trim_end (trim_start s)"

definition trimmed :: "str \<Rightarrow> bool" where
  "trimmed s \<longleftrightarrow> s = [] \<or> (\<not> is_whitespace (hd s) \<and> \<not> is_whitespace (last s))"

lemma trim_end_snoc: "trim_end (s @ [c]) = (if is_whitespace c then trim_end s else s @ [c])"
  by (simp add: trim_end_def)

lemma trimmed_trim_id: "trimmed s \<Longrightarrow> trim s = s"
proof (cases s)
  case (Cons c cs)
  moreover assume "trimmed s"
  ultimately have "trim_start s = s" "\<not> is_whitespace (last s)" "s \<noteq> []"
    by (auto simp: trimmed_def trim_start_def)
  then show ?thesis
    by (cases s rule: rev_cases) (auto simp: trim_def trim_end_snoc)
qed (simp add: trim_def trim_start_def trim_end_def)

lemma trim_end_id_if_last: "s \<noteq> [] \<Longrightarrow> \<not> is_whitespace (last s) \<Longrightarrow> trim_end s = s"
  by (cases s rule: rev_cases) (auto simp: trim_end_snoc)

lemma last_trim_end: "trim_end s \<noteq> [] \<Longrightarrow> \<not> is_whitespace (last (trim_end s))"
  by (induction s rule: rev_induct) (auto simp: trim_end_snoc trim_end_def)

lemma trim_end_prefix: "\<exists>t. s = trim_end s @ t \<and> list_all is_whitespace t"
proof (induction s rule: rev_induct)
  case Nil
  then show ?case by (simp add: trim_end_def)
next
  case (snoc x xs)
  then show ?case
    by (auto simp: trim_end_snoc intro: exI[of _ "_ @ [_]"])
qed

lemma trimmed_trim: "trimmed (trim s)"
proof (cases "trim s = []")
  case False
  then have start: "trim_start s \<noteq> []" by (auto simp: trim_def trim_end_def)
  then have "\<not> is_whitespace (hd (trim_start s))"
    by (simp add: trim_start_def hd_dropWhile)
  moreover obtain t where t: "trim_start s = trim s @ t"
    using trim_end_prefix[of "trim_start s"] by (auto simp: trim_def)
  have "hd (trim_start s) = hd (trim s)"
    by (subst t) (simp add: False)
  moreover have "\<not> is_whitespace (last (trim s))"
    using last_trim_end[of "trim_start s"] False by (simp add: trim_def)
  ultimately show ?thesis by (simp add: trimmed_def)
qed (simp add: trimmed_def)

lemma set_dropWhile_subset: "set (dropWhile P s) \<subseteq> set s"
  by (auto dest: set_dropWhileD)

lemma set_trim: "set (trim s) \<subseteq> set s"
  using set_dropWhile_subset[of is_whitespace "rev (trim_start s)"]
    set_dropWhile_subset[of is_whitespace s]
  by (auto simp: trim_def trim_end_def trim_start_def)

lemma length_trim_le: "length (trim s) \<le> length s"
  using length_dropWhile_le[of is_whitespace "rev (trim_start s)"]
    length_dropWhile_le[of is_whitespace s]
  by (simp add: trim_def trim_end_def trim_start_def)

subsection \<open>Searching and splitting\<close>

definition starts_with :: "str \<Rightarrow> str \<Rightarrow> bool" where
  "starts_with s p \<longleftrightarrow> take (length p) s = p"

lemma starts_with_prefix: "starts_with s p \<longleftrightarrow> prefix p s"
  by (metis append_eq_conv_conj prefix_def starts_with_def take_is_prefix)

fun contains_str :: "str \<Rightarrow> str \<Rightarrow> bool" where
  "contains_str [] p \<longleftrightarrow> p = []"
| "contains_str (c # cs) p \<longleftrightarrow> starts_with (c # cs) p \<or> contains_str cs p"

lemma contains_str_sublist: "contains_str s p \<longleftrightarrow> sublist p s"
  by (induction s) (auto simp: starts_with_prefix sublist_Cons_right)

text \<open>\<^verbatim>\<open>str::split_once\<close> on one character, at its first occurrence.\<close>

fun split_once :: "rchar \<Rightarrow> str \<Rightarrow> (str \<times> str) option" where
  "split_once d [] = None"
| "split_once d (c # cs) =
     (if c = d then Some ([], cs) else map_option (\<lambda>(a, b). (c # a, b)) (split_once d cs))"

lemma split_once_append: "d \<notin> set a \<Longrightarrow> split_once d (a @ d # b) = Some (a, b)"
  by (induction a) auto

lemma split_once_None_iff: "split_once d s = None \<longleftrightarrow> d \<notin> set s"
  by (induction s) auto

text \<open>\<^verbatim>\<open>str::rsplit_once\<close> on one character, at its last occurrence.\<close>

definition rsplit_once :: "rchar \<Rightarrow> str \<Rightarrow> (str \<times> str) option" where
  "rsplit_once c s = map_option (\<lambda>(a, b). (rev b, rev a)) (split_once c (rev s))"

lemma rsplit_once_append: "c \<notin> set b \<Longrightarrow> rsplit_once c (a @ c # b) = Some (a, b)"
  by (simp add: rsplit_once_def split_once_append)

lemma rsplit_once_None: "c \<notin> set s \<Longrightarrow> rsplit_once c s = None"
  using split_once_None_iff[of c "rev s"] by (simp add: rsplit_once_def)

text \<open>\<^verbatim>\<open>str::split\<close> on one character: always at least one part.\<close>

fun split_on :: "rchar \<Rightarrow> str \<Rightarrow> str list" where
  "split_on d [] = [[]]"
| "split_on d (c # cs) =
     (if c = d then [] # split_on d cs
      else case split_on d cs of [] \<Rightarrow> [[c]] | p # ps \<Rightarrow> (c # p) # ps)"

lemma split_on_not_Nil [simp]: "split_on d s \<noteq> []"
  by (induction s) (auto split: list.splits)

lemma split_on_free: "d \<notin> set s \<Longrightarrow> split_on d s = [s]"
  by (induction s) auto

lemma split_on_append: "d \<notin> set a \<Longrightarrow> split_on d (a @ d # b) = a # split_on d b"
  by (induction a) auto

text \<open>\<^verbatim>\<open>[String]::join\<close> with a one-character separator.\<close>

fun join_with :: "rchar \<Rightarrow> str list \<Rightarrow> str" where
  "join_with d [] = []"
| "join_with d [p] = p"
| "join_with d (p # ps) = p @ d # join_with d ps"

lemma split_on_join:
  "ps \<noteq> [] \<Longrightarrow> \<forall>p \<in> set ps. d \<notin> set p \<Longrightarrow> split_on d (join_with d ps) = ps"
  by (induction d ps rule: join_with.induct) (auto simp: split_on_free split_on_append)

lemma set_join_with: "set (join_with d ps) \<subseteq> insert d (\<Union> (set ` set ps))"
  by (induction d ps rule: join_with.induct) auto

subsection \<open>Decimal text\<close>

fun dec_nat :: "nat \<Rightarrow> str" where
  "dec_nat n = (if n < 10 then [48 + n] else dec_nat (n div 10) @ [48 + n mod 10])"

declare dec_nat.simps [simp del]

lemma dec_nat_digits: "c \<in> set (dec_nat n) \<Longrightarrow> is_ascii_digit c"
proof (induction n rule: dec_nat.induct)
  case (1 n)
  have "n mod 10 < 10" by simp
  with 1 show ?case
    by (subst (asm) (2) dec_nat.simps) (auto simp: is_ascii_digit_def split: if_splits)
qed

lemma dec_nat_not_Nil [simp]: "dec_nat n \<noteq> []" "[] \<noteq> dec_nat n"
  by (subst dec_nat.simps, simp)+

lemma dec_nat_inj: "dec_nat m = dec_nat n \<Longrightarrow> m = n"
proof (induction m arbitrary: n rule: dec_nat.induct)
  case (1 m)
  show ?case
  proof (cases "m < 10 \<or> n < 10")
    case True
    with "1.prems" show ?thesis
      by (auto simp: dec_nat.simps[of m] dec_nat.simps[of n] split: if_splits)
  next
    case False
    with "1.prems" have eqs: "dec_nat (m div 10) = dec_nat (n div 10)" "m mod 10 = n mod 10"
      by (auto simp: dec_nat.simps[of m] dec_nat.simps[of n])
    with 1 False have "m div 10 = n div 10" by simp
    with eqs show ?thesis by (metis div_mult_mod_eq)
  qed
qed

definition dec_int :: "int \<Rightarrow> str" where
  "dec_int i = (if i < 0 then 45 # dec_nat (nat (- i)) else dec_nat (nat i))"

section \<open>Machine integers\<close>

abbreviation i64_max :: int where "i64_max \<equiv> 9223372036854775807"
abbreviation i64_min :: int where "i64_min \<equiv> - 9223372036854775808"

definition sat_i64 :: "int \<Rightarrow> int" where
  "sat_i64 x = max i64_min (min i64_max x)"

lemma sat_i64_id: "i64_min \<le> x \<Longrightarrow> x \<le> i64_max \<Longrightarrow> sat_i64 x = x"
  by (simp add: sat_i64_def)

lemma sat_i64_bounds: "i64_min \<le> sat_i64 x" "sat_i64 x \<le> i64_max"
  by (auto simp: sat_i64_def)

section \<open>Results\<close>

text \<open>\<^verbatim>\<open>?\<close> on a \<^verbatim>\<open>Result\<close> in a function without state.\<close>

definition sbind :: "'e + 'a \<Rightarrow> ('a \<Rightarrow> 'e + 'b) \<Rightarrow> 'e + 'b" where
  "sbind m f = (case m of Inl e \<Rightarrow> Inl e | Inr x \<Rightarrow> f x)"

lemma sbind_simps [simp]: "sbind (Inl e) f = Inl e" "sbind (Inr x) f = f x"
  by (simp_all add: sbind_def)

lemma sbind_Inr_iff: "sbind m f = Inr y \<longleftrightarrow> (\<exists>x. m = Inr x \<and> f x = Inr y)"
  by (cases m) auto

section \<open>Computations with a state and an error\<close>

type_synonym ('s, 'e, 'a) prog = "'s \<Rightarrow> ('e + 'a) \<times> 's"

definition ret :: "'a \<Rightarrow> ('s, 'e, 'a) prog" where
  "ret x = (\<lambda>s. (Inr x, s))"

definition throw :: "'e \<Rightarrow> ('s, 'e, 'a) prog" where
  "throw e = (\<lambda>s. (Inl e, s))"

definition bnd :: "('s, 'e, 'a) prog \<Rightarrow> ('a \<Rightarrow> ('s, 'e, 'b) prog) \<Rightarrow> ('s, 'e, 'b) prog" where
  "bnd m f = (\<lambda>s. case m s of (Inl e, s') \<Rightarrow> (Inl e, s') | (Inr x, s') \<Rightarrow> f x s')"

definition andthen :: "('s, 'e, 'a) prog \<Rightarrow> ('s, 'e, 'b) prog \<Rightarrow> ('s, 'e, 'b) prog" where
  "andthen m n = bnd m (\<lambda>_. n)"

definition gets :: "('s \<Rightarrow> 'a) \<Rightarrow> ('s, 'e, 'a) prog" where
  "gets f = (\<lambda>s. (Inr (f s), s))"

definition modify :: "('s \<Rightarrow> 's) \<Rightarrow> ('s, 'e, unit) prog" where
  "modify f = (\<lambda>s. (Inr (), f s))"

text \<open>A \<^verbatim>\<open>Result\<close> looked at instead of propagated with \<^verbatim>\<open>?\<close>.\<close>

definition caught :: "('s, 'e, 'a) prog \<Rightarrow> ('s, 'f, 'e + 'a) prog" where
  "caught m = (\<lambda>s. case m s of (r, s') \<Rightarrow> (Inr r, s'))"

lemma ret_apply [prog_simps]: "ret x s = (Inr x, s)"
  by (simp add: ret_def)

lemma throw_apply [prog_simps]: "throw e s = (Inl e, s)"
  by (simp add: throw_def)

lemma bnd_apply [prog_simps]:
  "bnd m f s = (case m s of (Inl e, s') \<Rightarrow> (Inl e, s') | (Inr x, s') \<Rightarrow> f x s')"
  by (simp add: bnd_def)

lemma andthen_apply [prog_simps]:
  "andthen m n s = (case m s of (Inl e, s') \<Rightarrow> (Inl e, s') | (Inr x, s') \<Rightarrow> n s')"
  by (simp add: andthen_def bnd_def)

lemma gets_apply [prog_simps]: "gets f s = (Inr (f s), s)"
  by (simp add: gets_def)

lemma modify_apply [prog_simps]: "modify f s = (Inr (), f s)"
  by (simp add: modify_def)

lemma caught_apply [prog_simps]: "caught m s = (Inr (fst (m s)), snd (m s))"
  by (simp add: caught_def split: prod.split)

end
