(* ===== verification/Watch_Rule.thy ===== *)
theory Watch_Rule
  imports Prelude
begin

text \<open>
  Watch rules: \<^verbatim>\<open>crates/cli/src/watch/rule.rs\<close>, \<^verbatim>\<open>settings.rs\<close> and \<^verbatim>\<open>action.rs\<close>.

  A rule is data: the event it matches, its metadata filter, one built-in action, and how
  much freedom it has. \<open>stored_parse\<close> is \<^verbatim>\<open>Stored::parse\<close>; the two \<^verbatim>\<open>serde_json\<close> entry
  points it calls are its arguments \<open>from_str\<close> and \<open>from_value\<close>, and \<open>json\<close> is the
  documented shape of \<^verbatim>\<open>serde_json::Value\<close>. Dollars are rationals: the rounding of
  \<^verbatim>\<open>f64\<close> is not modelled.
\<close>

section \<open>The data of a rule\<close>

type_synonym usd = rat

datatype json = JNull | JBool bool | JNum str | JStr str | JArr "json list" | JObj "(str \<times> json) list"

datatype autonomy = Off | Propose | Auto

text \<open>The derived order of the enum: the lowest of two levels is \<open>min\<close>.\<close>

fun autonomy_rank :: "autonomy \<Rightarrow> nat" where
  "autonomy_rank Off = 0"
| "autonomy_rank Propose = 1"
| "autonomy_rank Auto = 2"

lemma autonomy_rank_inject [simp]: "autonomy_rank a = autonomy_rank b \<longleftrightarrow> a = b"
  by (cases a; cases b) auto

instantiation autonomy :: linorder
begin

definition less_eq_autonomy :: "autonomy \<Rightarrow> autonomy \<Rightarrow> bool" where
  "less_eq_autonomy a b \<longleftrightarrow> autonomy_rank a \<le> autonomy_rank b"

definition less_autonomy :: "autonomy \<Rightarrow> autonomy \<Rightarrow> bool" where
  "less_autonomy a b \<longleftrightarrow> autonomy_rank a < autonomy_rank b"

instance
proof
  fix x y z :: autonomy
  show "x < y \<longleftrightarrow> x \<le> y \<and> \<not> y \<le> x"
    by (auto simp: less_eq_autonomy_def less_autonomy_def)
  show "x \<le> x" by (simp add: less_eq_autonomy_def)
  show "x \<le> y \<Longrightarrow> y \<le> z \<Longrightarrow> x \<le> z" by (simp add: less_eq_autonomy_def)
  show "x \<le> y \<Longrightarrow> y \<le> x \<Longrightarrow> x = y" by (simp add: less_eq_autonomy_def)
  show "x \<le> y \<or> y \<le> x" by (auto simp: less_eq_autonomy_def)
qed

end

lemma autonomy_order [simp]: "Off \<le> a" "a \<le> Auto" "a \<le> Off \<longleftrightarrow> a = Off" "Auto \<le> a \<longleftrightarrow> a = Auto"
  by (cases a; simp add: less_eq_autonomy_def)+

lemma autonomy_not_le [simp]: "\<not> Auto \<le> Propose" "Propose \<le> Auto"
  by (auto simp: less_eq_autonomy_def)

datatype on_event = IssueOpened | IssueCommented | PrOpened | PrCommented

datatype do_action =
    Label | Comment | TriageIssue | AddressComment | UpdateBranch | ReviewPr | MergeWhenGreen

fun do_as_str :: "do_action \<Rightarrow> str" where
  "do_as_str Label = lit ''label''"
| "do_as_str Comment = lit ''comment''"
| "do_as_str TriageIssue = lit ''triage_issue''"
| "do_as_str AddressComment = lit ''address_comment''"
| "do_as_str UpdateBranch = lit ''update_branch''"
| "do_as_str ReviewPr = lit ''review_pr''"
| "do_as_str MergeWhenGreen = lit ''merge_when_green''"

fun highest :: "do_action \<Rightarrow> autonomy" where
  "highest AddressComment = Propose"
| "highest ReviewPr = Propose"
| "highest MergeWhenGreen = Propose"
| "highest _ = Auto"

fun runs_free :: "do_action \<Rightarrow> bool" where
  "runs_free Label = True"
| "runs_free Comment = True"
| "runs_free _ = False"

datatype decide = Rules | Model

record where_filter =
  f_labels_any :: "str list"
  f_authors :: "str list"
  f_paths :: "str list"
  f_base :: "str option"
  f_comment_prefix :: "str option"
  f_allow_forks :: bool

record with_args =
  with_labels :: "str list"
  with_text :: "str option"

record rule_limits =
  lim_actions_per_day :: int
  lim_usd_per_day :: usd
  lim_files :: "int option"
  lim_lines :: "int option"

definition default_limits :: rule_limits where
  "default_limits = \<lparr>lim_actions_per_day = 20, lim_usd_per_day = 0, lim_files = None, lim_lines = None\<rparr>"

record rule =
  rule_on :: on_event
  rule_filter :: where_filter
  rule_do :: do_action
  rule_with :: with_args
  rule_decide :: decide
  rule_autonomy :: autonomy
  rule_limits :: rule_limits

datatype stored = Tombstone | Rule rule

type_synonym rule_error = str

section \<open>Parsing a stored rule\<close>

abbreviation MAX_RULE_BYTES :: nat where "MAX_RULE_BYTES \<equiv> 8192"
abbreviation MAX_LABELS :: nat where "MAX_LABELS \<equiv> 20"
abbreviation MAX_LABEL_CHARS :: nat where "MAX_LABEL_CHARS \<equiv> 50"
abbreviation MAX_FILTER_ENTRIES :: nat where "MAX_FILTER_ENTRIES \<equiv> 50"
abbreviation MAX_FILTER_CHARS :: nat where "MAX_FILTER_CHARS \<equiv> 200"
abbreviation MAX_RULE_ID :: nat where "MAX_RULE_ID \<equiv> 64"

definition is_tombstone :: "json \<Rightarrow> bool" where
  "is_tombstone v \<longleftrightarrow> (case v of
     JObj members \<Rightarrow> length members = 1 \<and> map_of members (lit ''autonomy'') = Some (JStr (lit ''off''))
   | _ \<Rightarrow> False)"

definition bad_filter_text :: "str \<Rightarrow> bool" where
  "bad_filter_text t \<longleftrightarrow> t = [] \<or> length t > MAX_FILTER_CHARS"

text \<open>The loop over the labels: the first bad label decides the error.\<close>

fun check_labels :: "str list \<Rightarrow> rule_error + unit" where
  "check_labels [] = Inr ()"
| "check_labels (l # ls) =
     (if trim l = [] \<or> length l > MAX_LABEL_CHARS
      then Inl (lit ''a label must have 1 to 50 characters'')
      else if list_ex is_control l \<or> trim l \<noteq> l
      then Inl (lit ''a label cannot have control characters or edge spaces'')
      else check_labels ls)"

fun check_lists :: "(str \<times> str list) list \<Rightarrow> rule_error + unit" where
  "check_lists [] = Inr ()"
| "check_lists ((name, entries) # rest) =
     (if length entries > MAX_FILTER_ENTRIES
      then Inl (lit ''where.'' @ name @ lit '' holds more than 50 entries'')
      else if list_ex bad_filter_text entries
      then Inl (lit ''where.'' @ name @ lit '' has an empty or too long entry'')
      else check_lists rest)"

fun check_ones :: "(str \<times> str option) list \<Rightarrow> rule_error + unit" where
  "check_ones [] = Inr ()"
| "check_ones ((name, one) # rest) =
     (case one of
        Some t \<Rightarrow>
          if bad_filter_text t
          then Inl (lit ''where.'' @ name
                    @ lit '' is empty or too long, and an empty prefix would match every comment'')
          else check_ones rest
      | None \<Rightarrow> check_ones rest)"

definition check_text :: "rule \<Rightarrow> rule_error + unit" where
  "check_text r =
     (let labels = with_labels (rule_with r); f = rule_filter r in
      if length labels > MAX_LABELS then Inl (lit ''with.labels holds more than 20 entries'')
      else sbind (check_labels labels) (\<lambda>_.
           sbind (check_lists [(lit ''labels_any'', f_labels_any f), (lit ''authors'', f_authors f),
                               (lit ''paths'', f_paths f)]) (\<lambda>_.
           check_ones [(lit ''base'', f_base f), (lit ''comment_prefix'', f_comment_prefix f)])))"

text \<open>
  The \<^verbatim>\<open>match rule.action\<close> with its guards, in the order of the arms: an arm whose guard
  fails falls through to the later arms for the same action.
\<close>

definition check_action :: "rule \<Rightarrow> rule_error + unit" where
  "check_action r =
     (if rule_do r = TriageIssue \<and> rule_decide r \<noteq> Model
      then Inl (lit ''the triage_issue action needs decide set to model'')
      else if rule_do r \<in> {UpdateBranch, ReviewPr} \<and> rule_on r \<notin> {PrOpened, PrCommented}
      then Inl (lit ''the update_branch and review_pr actions need on set to pr.opened or pr.commented'')
      else if rule_do r = MergeWhenGreen
              \<and> (rule_on r \<noteq> PrCommented \<or> f_comment_prefix (rule_filter r) = None)
      then Inl (lit ''the merge_when_green action needs on set to pr.commented and a where.comment_prefix'')
      else if rule_do r = ReviewPr \<and> lim_usd_per_day (rule_limits r) \<le> 0
      then Inl (lit ''the review_pr action calls a model and needs limits.usd_per_day above 0'')
      else if rule_do r = AddressComment
              \<and> (rule_on r \<noteq> PrCommented \<or> f_comment_prefix (rule_filter r) = None)
      then Inl (lit ''the address_comment action needs on set to pr.commented and a where.comment_prefix'')
      else if rule_do r = AddressComment \<and> lim_usd_per_day (rule_limits r) \<le> 0
      then Inl (lit ''the address_comment action calls a model and needs limits.usd_per_day above 0'')
      else if rule_do r \<in> {Label, TriageIssue} \<and> with_labels (rule_with r) = []
      then Inl (lit ''the label and triage_issue actions need at least one entry in with.labels'')
      else if rule_do r = Comment
              \<and> (case with_text (rule_with r) of None \<Rightarrow> True | Some t \<Rightarrow> trim t = [])
      then Inl (lit ''the comment action needs the text to post in with.text'')
      else Inr ())"

definition stored_parse ::
  "(str \<Rightarrow> str + json) \<Rightarrow> (json \<Rightarrow> str + rule) \<Rightarrow> str \<Rightarrow> rule_error + stored" where
  "stored_parse from_str from_value text =
     (if utf8_len text > MAX_RULE_BYTES
      then Inl (lit ''the rule is longer than 8192 bytes'')
      else case from_str text of
        Inl e \<Rightarrow> Inl (lit ''the rule is not valid JSON: '' @ e)
      | Inr value \<Rightarrow>
          if is_tombstone value then Inr Tombstone
          else case from_value value of
            Inl e \<Rightarrow> Inl (lit ''invalid rule: '' @ e)
          | Inr r \<Rightarrow>
              sbind (check_action r) (\<lambda>_. sbind (check_text r) (\<lambda>_. Inr (Rule r))))"

definition is_rule_id :: "str \<Rightarrow> bool" where
  "is_rule_id t \<longleftrightarrow> t \<noteq> [] \<and> utf8_len t \<le> MAX_RULE_ID \<and> \<not> starts_with t (lit ''-'')
     \<and> list_all (\<lambda>b. is_ascii_lower b \<or> is_ascii_digit b \<or> b = 45) t"

section \<open>How settings combine across the tiers\<close>

definition ceiling_of :: "autonomy list \<Rightarrow> autonomy" where
  "ceiling_of tiers = (case tiers of [] \<Rightarrow> Propose | t # ts \<Rightarrow> fold min ts t)"

definition effective :: "autonomy \<Rightarrow> autonomy \<Rightarrow> autonomy" where
  "effective r c = min r c"

fun first_set :: "'a option list \<Rightarrow> 'a option" where
  "first_set [] = None"
| "first_set (Some x # _) = Some x"
| "first_set (None # xs) = first_set xs"

definition resolve_rule ::
  "(str \<Rightarrow> str + json) \<Rightarrow> (json \<Rightarrow> str + rule) \<Rightarrow> str option list \<Rightarrow> rule_error + rule option" where
  "resolve_rule from_str from_value tiers =
     (case first_set tiers of
        None \<Rightarrow> Inr None
      | Some text \<Rightarrow>
          (case stored_parse from_str from_value text of
             Inl e \<Rightarrow> Inl e
           | Inr Tombstone \<Rightarrow> Inr None
           | Inr (Rule r) \<Rightarrow> Inr (Some r)))"

section \<open>The diff caps of an action that writes code\<close>

datatype limit_kind = LimitFiles | LimitLines

datatype action_error =
    Precondition str | LimitErr limit_kind | Killed | Unsupported | Failed bool str

datatype disposition = Skipped str | Proposed str | RolledBack | Retry | Dead str

fun disposition_of :: "action_error \<Rightarrow> disposition" where
  "disposition_of (Precondition why) = Skipped why"
| "disposition_of (LimitErr _) = Proposed (lit ''limit'')"
| "disposition_of Killed = RolledBack"
| "disposition_of Unsupported = Proposed (lit ''unsupported'')"
| "disposition_of (Failed True _) = Retry"
| "disposition_of (Failed False why) = Dead why"

record diff_caps =
  cap_files :: int
  cap_lines :: int

definition diff_caps_of :: "rule_limits \<Rightarrow> int \<Rightarrow> int \<Rightarrow> diff_caps" where
  "diff_caps_of l fix_max_files fix_max_lines =
     \<lparr>cap_files = (case lim_files l of None \<Rightarrow> fix_max_files | Some n \<Rightarrow> min n fix_max_files),
      cap_lines = (case lim_lines l of None \<Rightarrow> fix_max_lines | Some n \<Rightarrow> min n fix_max_lines)\<rparr>"

definition check_diff :: "int \<Rightarrow> int \<Rightarrow> diff_caps \<Rightarrow> action_error + unit" where
  "check_diff files lines caps =
     (if files > cap_files caps then Inl (LimitErr LimitFiles)
      else if lines > cap_lines caps then Inl (LimitErr LimitLines)
      else Inr ())"

section \<open>What an accepted rule satisfies\<close>

definition good_label :: "str \<Rightarrow> bool" where
  "good_label l \<longleftrightarrow> l \<noteq> [] \<and> trimmed l \<and> length l \<le> MAX_LABEL_CHARS \<and> list_all (\<lambda>c. \<not> is_control c) l"

definition good_filter_text :: "str \<Rightarrow> bool" where
  "good_filter_text t \<longleftrightarrow> t \<noteq> [] \<and> length t \<le> MAX_FILTER_CHARS"

text \<open>
  The contract of a rule the engine may run, stated without reference to the order of the
  checks: enough arguments for its action, a comment command and a budget for the actions
  that need them, and filters that can match.
\<close>

definition wf_rule :: "rule \<Rightarrow> bool" where
  "wf_rule r \<longleftrightarrow>
     length (with_labels (rule_with r)) \<le> MAX_LABELS \<and> list_all good_label (with_labels (rule_with r))
   \<and> (\<forall>es \<in> {f_labels_any (rule_filter r), f_authors (rule_filter r), f_paths (rule_filter r)}.
        length es \<le> MAX_FILTER_ENTRIES \<and> list_all good_filter_text es)
   \<and> pred_option good_filter_text (f_base (rule_filter r))
   \<and> pred_option good_filter_text (f_comment_prefix (rule_filter r))
   \<and> (case rule_do r of
        Label \<Rightarrow> with_labels (rule_with r) \<noteq> []
      | TriageIssue \<Rightarrow> with_labels (rule_with r) \<noteq> [] \<and> rule_decide r = Model
      | Comment \<Rightarrow> (\<exists>t. with_text (rule_with r) = Some t \<and> trim t \<noteq> [])
      | AddressComment \<Rightarrow> rule_on r = PrCommented \<and> f_comment_prefix (rule_filter r) \<noteq> None
                          \<and> 0 < lim_usd_per_day (rule_limits r)
      | UpdateBranch \<Rightarrow> rule_on r \<in> {PrOpened, PrCommented}
      | ReviewPr \<Rightarrow> rule_on r \<in> {PrOpened, PrCommented} \<and> 0 < lim_usd_per_day (rule_limits r)
      | MergeWhenGreen \<Rightarrow> rule_on r = PrCommented \<and> f_comment_prefix (rule_filter r) \<noteq> None)"

lemma trim_neq_Nil: "trim l = l \<Longrightarrow> trim l = [] \<longleftrightarrow> l = []"
  by simp

lemma good_label_iff:
  "good_label l \<longleftrightarrow>
     \<not> (trim l = [] \<or> length l > MAX_LABEL_CHARS) \<and> \<not> (list_ex is_control l \<or> trim l \<noteq> l)"
  using trimmed_trim[of l] trimmed_trim_id[of l]
  by (auto simp: good_label_def list_ex_iff list_all_iff)

lemma check_labels_ok: "check_labels ls = Inr u \<longleftrightarrow> list_all good_label ls"
  by (induction ls) (auto simp: good_label_iff)

lemma bad_filter_text_iff: "bad_filter_text t \<longleftrightarrow> \<not> good_filter_text t"
  by (auto simp: bad_filter_text_def good_filter_text_def)

lemma check_lists_ok:
  "check_lists ps = Inr u \<longleftrightarrow>
     (\<forall>(n, es) \<in> set ps. length es \<le> MAX_FILTER_ENTRIES \<and> list_all good_filter_text es)"
  by (induction ps rule: check_lists.induct)
    (auto simp: bad_filter_text_iff list_ex_iff list_all_iff)

lemma check_ones_ok:
  "check_ones ps = Inr u \<longleftrightarrow> (\<forall>(n, one) \<in> set ps. pred_option good_filter_text one)"
  by (induction ps rule: check_ones.induct) (auto simp: bad_filter_text_iff split: option.splits)

lemma check_text_ok:
  "check_text r = Inr u \<longleftrightarrow>
     length (with_labels (rule_with r)) \<le> MAX_LABELS \<and> list_all good_label (with_labels (rule_with r))
   \<and> (\<forall>es \<in> {f_labels_any (rule_filter r), f_authors (rule_filter r), f_paths (rule_filter r)}.
        length es \<le> MAX_FILTER_ENTRIES \<and> list_all good_filter_text es)
   \<and> pred_option good_filter_text (f_base (rule_filter r))
   \<and> pred_option good_filter_text (f_comment_prefix (rule_filter r))"
  unfolding check_text_def Let_def
  by (auto simp: sbind_Inr_iff check_labels_ok check_lists_ok check_ones_ok
      simp del: check_labels.simps check_lists.simps check_ones.simps)

lemma check_action_ok:
  "check_action r = Inr u \<longleftrightarrow>
     (case rule_do r of
        Label \<Rightarrow> with_labels (rule_with r) \<noteq> []
      | TriageIssue \<Rightarrow> with_labels (rule_with r) \<noteq> [] \<and> rule_decide r = Model
      | Comment \<Rightarrow> (\<exists>t. with_text (rule_with r) = Some t \<and> trim t \<noteq> [])
      | AddressComment \<Rightarrow> rule_on r = PrCommented \<and> f_comment_prefix (rule_filter r) \<noteq> None
                          \<and> 0 < lim_usd_per_day (rule_limits r)
      | UpdateBranch \<Rightarrow> rule_on r \<in> {PrOpened, PrCommented}
      | ReviewPr \<Rightarrow> rule_on r \<in> {PrOpened, PrCommented} \<and> 0 < lim_usd_per_day (rule_limits r)
      | MergeWhenGreen \<Rightarrow> rule_on r = PrCommented \<and> f_comment_prefix (rule_filter r) \<noteq> None)"
  by (cases "rule_do r") (auto simp: check_action_def split: option.splits)

lemma wf_rule_checks: "wf_rule r \<longleftrightarrow> check_action r = Inr () \<and> check_text r = Inr ()"
  unfolding wf_rule_def check_action_ok check_text_ok by blast

text \<open>
  C32. A stored value is accepted as a rule exactly when it is short enough, is JSON that
  reads as a rule and not as a tombstone, and the rule meets the contract \<open>wf_rule\<close>: no
  accepted rule has an action without its arguments, an unattended code or merge action
  without a comment command, a model action without a budget, or a filter that matches
  everything by being empty.
\<close>

theorem stored_parse_rule_iff:
  "stored_parse from_str from_value text = Inr (Rule r) \<longleftrightarrow>
     utf8_len text \<le> MAX_RULE_BYTES \<and>
     (\<exists>v. from_str text = Inr v \<and> \<not> is_tombstone v \<and> from_value v = Inr r) \<and> wf_rule r"
  by (auto simp: stored_parse_def wf_rule_checks sbind_Inr_iff split: sum.splits)

section \<open>The ceiling\<close>

lemma fold_min_le: "fold min ts t \<le> (t :: 'a :: linorder)" "x \<in> set ts \<Longrightarrow> fold min ts t \<le> x"
proof (induction ts arbitrary: t)
  case (Cons y ys)
  { case 1 then show ?case using Cons.IH(1)[of "min y t"] by (simp add: order_trans) }
  { case 2 then show ?case
      using Cons.IH(1)[of "min y t"] Cons.IH(2)[of "min y t"] by (auto simp: order_trans) }
qed auto

lemma fold_min_mem: "fold min ts (t :: 'a :: linorder) \<in> insert t (set ts)"
proof (induction ts arbitrary: t)
  case (Cons y ys)
  from Cons.IH[of "min y t"] show ?case by (auto simp: min_def split: if_splits)
qed simp

lemma ceiling_of_le: "t \<in> set tiers \<Longrightarrow> ceiling_of tiers \<le> t"
  by (auto simp: ceiling_of_def fold_min_le split: list.splits)

lemma ceiling_of_mem: "tiers \<noteq> [] \<Longrightarrow> ceiling_of tiers \<in> set tiers"
  using fold_min_mem by (fastforce simp: ceiling_of_def split: list.splits)

text \<open>
  The level a rule runs at is the lowest of its own level and every value any tier sets,
  and proposing when no tier sets one: a nearer tier (a repo) can lower the freedom a farther
  one grants and never raise it.
\<close>

theorem ceiling_lowest_wins:
  "effective own (ceiling_of (nearer @ farther)) =
     (if nearer = [] \<and> farther = [] then min own Propose
      else Min (insert own (set nearer \<union> set farther)))"
proof (cases "nearer @ farther = []")
  case True
  then show ?thesis by (simp add: ceiling_of_def effective_def)
next
  case False
  then have "ceiling_of (nearer @ farther) = Min (set (nearer @ farther))"
    by (intro Min_eqI[symmetric]) (auto simp: ceiling_of_le ceiling_of_mem simp del: set_append)
  with False show ?thesis by (auto simp: effective_def)
qed

end
