(* ===== verification/Watch_Limits.thy ===== *)
theory Watch_Limits
  imports Watch_Rule
begin

text \<open>
  The pure decisions of watch mode: the day caps and the trust ladder (\<^verbatim>\<open>watch/limits.rs\<close>)
  and the retry delays (\<^verbatim>\<open>watch/backoff.rs\<close>).
\<close>

section \<open>Caps\<close>

abbreviation OBJECT_COOLDOWN :: int where "OBJECT_COOLDOWN \<equiv> 3600"
abbreviation LADDER_APPROVALS :: nat where "LADDER_APPROVALS \<equiv> 10"
abbreviation LADDER_SPAN :: int where "LADDER_SPAN \<equiv> 28 * 86400"

definition day_of :: "int \<Rightarrow> int" where
  "day_of now = now div 86400"

record usage =
  used_rule_actions :: int
  used_rule_usd :: usd
  used_global_actions :: int
  used_global_usd :: usd

record caps =
  max_rule_actions :: int
  max_rule_usd :: usd
  max_global_actions :: int
  max_global_usd :: usd

datatype limit = RuleActions | RuleUsd | GlobalActions | GlobalUsd | Object

fun limit_as_str :: "limit \<Rightarrow> str" where
  "limit_as_str RuleActions = lit ''rule_actions''"
| "limit_as_str RuleUsd = lit ''rule_usd''"
| "limit_as_str GlobalActions = lit ''global_actions''"
| "limit_as_str GlobalUsd = lit ''global_usd''"
| "limit_as_str Object = lit ''object''"

definition check_caps :: "usage \<Rightarrow> caps \<Rightarrow> usd \<Rightarrow> int option \<Rightarrow> int \<Rightarrow> limit + unit" where
  "check_caps u c cost last_acted now =
     (if used_rule_actions u \<ge> max_rule_actions c then Inl RuleActions
      else if used_global_actions u \<ge> max_global_actions c then Inl GlobalActions
      else if used_rule_usd u + cost > max_rule_usd c then Inl RuleUsd
      else if used_global_usd u + cost > max_global_usd c then Inl GlobalUsd
      else if (case last_acted of None \<Rightarrow> False | Some t \<Rightarrow> now - t < OBJECT_COOLDOWN)
      then Inl Object
      else Inr ())"

text \<open>The contract: the action fits every cap and the object is out of its cooldown.\<close>

definition within_caps :: "usage \<Rightarrow> caps \<Rightarrow> usd \<Rightarrow> int option \<Rightarrow> int \<Rightarrow> bool" where
  "within_caps u c cost last_acted now \<longleftrightarrow>
     used_rule_actions u + 1 \<le> max_rule_actions c \<and> used_global_actions u + 1 \<le> max_global_actions c
   \<and> used_rule_usd u + cost \<le> max_rule_usd c \<and> used_global_usd u + cost \<le> max_global_usd c
   \<and> (\<forall>t. last_acted = Some t \<longrightarrow> t + OBJECT_COOLDOWN \<le> now)"

lemma check_caps_ok_iff: "check_caps u c cost acted now = Inr x \<longleftrightarrow> within_caps u c cost acted now"
  by (auto simp: check_caps_def within_caps_def split: option.splits)

section \<open>The trust ladder\<close>

record approval =
  approval_at :: int
  approval_failed :: bool

definition ladder_allows :: "approval list \<Rightarrow> int \<Rightarrow> str + unit" where
  "ladder_allows history now =
     (if length history < LADDER_APPROVALS
      then Inl (dec_nat (length history) @ lit '' of 10 approved proposals'')
      else let oldest = (if history = [] then now else Min (set (map approval_at history))) in
        if now - oldest < LADDER_SPAN then Inl (lit ''approvals span less than 28 days'')
        else if list_ex approval_failed history then Inl (lit ''an approved proposal failed'')
        else Inr ())"

text \<open>
  A class of action climbs the ladder exactly when at least ten proposals were approved,
  the first of them at least 28 days ago, and none of them failed.
\<close>

theorem ladder_allows_iff:
  "ladder_allows history now = Inr () \<longleftrightarrow>
     10 \<le> length history \<and> (\<exists>a \<in> set history. approval_at a + 28 * 86400 \<le> now)
   \<and> (\<forall>a \<in> set history. \<not> approval_failed a)"
proof (cases "length history < 10")
  case False
  then have ne: "history \<noteq> []" by auto
  have "now - Min (approval_at ` set history) < LADDER_SPAN \<longleftrightarrow>
      \<not> (\<exists>a \<in> set history. approval_at a + 28 * 86400 \<le> now)"
  proof -
    have "now - Min (approval_at ` set history) < LADDER_SPAN \<longleftrightarrow>
        \<not> Min (approval_at ` set history) \<le> now - LADDER_SPAN"
      by linarith
    also have "\<dots> \<longleftrightarrow> \<not> (\<exists>a \<in> set history. approval_at a \<le> now - LADDER_SPAN)"
      using ne by (subst Min_le_iff) auto
    finally show ?thesis by (simp add: le_diff_eq)
  qed
  with False ne show ?thesis
    by (auto simp: ladder_allows_def Let_def list_ex_iff)
qed (simp add: ladder_allows_def)

theorem ladder_allows_iff_witness:
  "ladder_allows (replicate 10 \<lparr>approval_at = 0, approval_failed = False\<rparr>) (28 * 86400) = Inr ()"
  using ladder_allows_iff[of "replicate 10 \<lparr>approval_at = 0, approval_failed = False\<rparr>" "28 * 86400"]
  by simp

section \<open>Retry delays\<close>

abbreviation BASE :: int where "BASE \<equiv> 30"
abbreviation CAP :: int where "CAP \<equiv> 3600"
abbreviation MAX_ATTEMPTS :: nat where "MAX_ATTEMPTS \<equiv> 5"

text \<open>
  \<^verbatim>\<open>1_i64.checked_shl(n)\<close> refuses only a shift of 64 or more; within the width it is the
  plain 64-bit shift, sign bit included.
\<close>

definition checked_shl_one :: "nat \<Rightarrow> int option" where
  "checked_shl_one n = (if n < 64 then Some (sint (push_bit n (1 :: 64 word))) else None)"

definition backoff_ceiling :: "nat \<Rightarrow> int" where
  "backoff_ceiling attempt =
     (let doubled = (case checked_shl_one attempt of None \<Rightarrow> i64_max | Some d \<Rightarrow> d)
      in min (sat_i64 (BASE * doubled)) CAP)"

definition delay :: "nat \<Rightarrow> (int \<Rightarrow> int) \<Rightarrow> int" where
  "delay attempt pick = pick (backoff_ceiling attempt)"

text \<open>\<^verbatim>\<open>StdJitter::pick\<close>, with the value of the randomly keyed hasher as \<open>h\<close>.\<close>

definition std_pick :: "nat \<Rightarrow> int \<Rightarrow> int" where
  "std_pick h c = (let span = (if c < 0 then 0 else c) + 1 in int h mod span)"

lemma checked_shl_one_small: "n < 63 \<Longrightarrow> checked_shl_one n = Some (2 ^ n)"
proof -
  assume n: "n < 63"
  have "push_bit n (1 :: 64 word) = word_of_int (2 ^ n)"
    by (simp add: push_bit_eq_mult)
  then have "sint (push_bit n (1 :: 64 word)) = signed_take_bit 63 (2 ^ n)"
    by (simp only: sint_sbintrunc') simp
  also have "\<dots> = 2 ^ n"
    using n power_strict_increasing[of n 63 "2 :: int"]
    by (intro signed_take_bit_int_eq_self) (auto intro: order_trans[of _ 0])
  finally show ?thesis using n by (simp add: checked_shl_one_def)
qed

lemma checked_shl_one_63: "checked_shl_one 63 = Some i64_min"
  by (simp add: checked_shl_one_def)

lemma backoff_ceiling_eq: "n \<noteq> 63 \<Longrightarrow> backoff_ceiling n = min 3600 (30 * 2 ^ n)"
proof -
  assume n: "n \<noteq> 63"
  consider "n < 7" | "7 \<le> n" "n < 63" | "64 \<le> n" using n by linarith
  then show ?thesis
  proof cases
    case 1
    then have "n \<in> {0, 1, 2, 3, 4, 5, 6}" by auto
    then show ?thesis
      by (auto simp: backoff_ceiling_def checked_shl_one_small sat_i64_def)
  next
    case 2
    then have "(2 :: int) ^ 7 \<le> 2 ^ n" by (intro power_increasing) auto
    with 2 show ?thesis by (auto simp: backoff_ceiling_def checked_shl_one_small sat_i64_def)
  next
    case 3
    then have "(2 :: int) ^ 7 \<le> 2 ^ n" by (intro power_increasing) auto
    with 3 show ?thesis by (auto simp: backoff_ceiling_def checked_shl_one_def sat_i64_def)
  qed
qed

text \<open>
  Below 63 failed tries the longest wait is 30 seconds doubled per try, capped at an
  hour, and from 64 on it is the hour.
\<close>

theorem backoff_ceiling_spec: "n \<noteq> 63 \<Longrightarrow> backoff_ceiling n = min 3600 (30 * 2 ^ n)"
  by (rule backoff_ceiling_eq)

theorem backoff_ceiling_spec_witness: "backoff_ceiling 8 = 3600 \<and> backoff_ceiling 2 = 120"
  using backoff_ceiling_spec[of 8] backoff_ceiling_spec[of 2] by simp

text \<open>
  The one exception: after exactly 63 doublings the shift sets the sign bit of the
  \<^verbatim>\<open>i64\<close>, so the ceiling is negative and the standard jitter waits no time at all, where the
  documented wait is the hour.
\<close>

theorem backoff_ceiling_sign_bit:
  "backoff_ceiling 63 = - (2 ^ 63) \<and> delay 63 (std_pick h) = 0"
  by (simp add: backoff_ceiling_def checked_shl_one_63 sat_i64_def delay_def std_pick_def)

text \<open>The promise of \<^verbatim>\<open>Jitter::pick\<close>: a number from 0 to the ceiling, both included.\<close>

locale jitter =
  fixes pick :: "int \<Rightarrow> int"
  assumes pick_bounds: "0 \<le> c \<Longrightarrow> 0 \<le> pick c \<and> pick c \<le> c"
begin

lemma delay_bounds: "n \<noteq> 63 \<Longrightarrow> 0 \<le> delay n pick \<and> delay n pick \<le> min 3600 (30 * 2 ^ n)"
proof -
  assume "n \<noteq> 63"
  then have c: "backoff_ceiling n = min 3600 (30 * 2 ^ n)"
    by (rule backoff_ceiling_eq)
  have "0 \<le> backoff_ceiling n" by (simp add: c)
  from pick_bounds[OF this] show ?thesis by (simp add: delay_def c)
qed

lemma delay_first_tries: "n < MAX_ATTEMPTS \<Longrightarrow> 0 \<le> delay n pick \<and> delay n pick \<le> 480"
proof -
  assume n: "n < MAX_ATTEMPTS"
  then have "(2 :: int) ^ n \<le> 2 ^ 4" by (intro power_increasing) auto
  with n show ?thesis using delay_bounds[of n] by simp
qed

end

interpretation std_jitter: jitter "std_pick h" for h
proof unfold_locales
  fix c :: int
  assume "0 \<le> c"
  then show "0 \<le> std_pick h c \<and> std_pick h c \<le> c"
    using pos_mod_bound[of "c + 1" "int h"] by (simp add: std_pick_def)
qed

end
