(* ===== verification/Watch_Store.thy ===== *)
theory Watch_Store
  imports Watch_Limits
begin

text \<open>
  \<^verbatim>\<open>watch.db\<close>: \<^verbatim>\<open>crates/cli/src/watch/store.rs\<close>. Each SQL table is a partial map from its
  primary key, and each statement of \<^verbatim>\<open>Tx\<close> is an update of those maps; \<open>t_last_id\<close> is the
  \<^verbatim>\<open>AUTOINCREMENT\<close> sequence of the \<^verbatim>\<open>work\<close> table, from which no row is ever deleted. The one
  statement that can fail on a readable database is an \<^verbatim>\<open>INSERT\<close> into \<^verbatim>\<open>work\<close>, whose \<^verbatim>\<open>key\<close>
  column is \<^verbatim>\<open>UNIQUE\<close>; failures of the disk are not modelled.
\<close>

section \<open>The tables\<close>

type_synonym bytes = "8 word list"

abbreviation SCHEMA_VERSION :: int where "SCHEMA_VERSION \<equiv> 2"
definition QUEUE_LIMIT :: nat where "QUEUE_LIMIT = 500"

datatype store_error = Io | Sql | TooNew int

record cursor =
  c_since :: int
  c_etag_url :: "str option"
  c_etag :: "str option"
  c_next_poll_at :: int

record new_work =
  n_key :: str
  n_rule :: str
  n_class :: str
  n_repo :: str
  n_object :: nat
  n_body_hash :: bytes

datatype insert_outcome = Queued nat | DeadItem nat | Duplicate

record work_row =
  w_key :: str
  w_rule :: str
  w_repo :: str
  w_object :: nat
  w_body_hash :: bytes
  w_state :: str
  w_reason :: "str option"
  w_attempts :: nat
  w_not_before :: int

text \<open>The columns of \<^verbatim>\<open>work\<close> that \<^verbatim>\<open>WorkRow\<close> does not carry.\<close>

record work_rec = work_row +
  w_class :: str
  w_created_at :: int
  w_approved_at :: "int option"

record journal_row =
  j_step :: str
  j_worktree :: str
  j_branch :: str

record store =
  t_cursor :: "str \<rightharpoonup> cursor"
  t_seen :: "str \<rightharpoonup> int \<times> bytes"
  t_work :: "nat \<rightharpoonup> work_rec"
  t_last_id :: nat
  t_counter :: "int \<times> str \<rightharpoonup> int \<times> usd"
  t_control :: "str \<rightharpoonup> str"
  t_journal :: "nat \<rightharpoonup> journal_row"
  t_acted :: "str \<times> str \<times> int \<rightharpoonup> int"

definition empty_store :: store where
  "empty_store = \<lparr>t_cursor = Map.empty, t_seen = Map.empty, t_work = Map.empty, t_last_id = 0,
     t_counter = Map.empty, t_control = Map.empty, t_journal = Map.empty, t_acted = Map.empty\<rparr>"

text \<open>The version check of \<^verbatim>\<open>Store::open\<close>; the migration adds columns with their defaults.\<close>

definition open_store :: "int \<Rightarrow> store \<Rightarrow> store_error + store" where
  "open_store found s = (if found > SCHEMA_VERSION then Inl (TooNew found) else Inr s)"

section \<open>Queries\<close>

text \<open>\<^verbatim>\<open>i64::try_from(object).unwrap_or(i64::MAX)\<close> and its reading back as \<^verbatim>\<open>u64\<close>.\<close>

definition object_column :: "nat \<Rightarrow> int" where
  "object_column n = min (int n) i64_max"

definition cursor_of :: "store \<Rightarrow> str \<Rightarrow> cursor option" where
  "cursor_of s source = t_cursor s source"

definition ids_due :: "store \<Rightarrow> str \<Rightarrow> int \<Rightarrow> nat list" where
  "ids_due s state now = filter (\<lambda>i. case t_work s i of None \<Rightarrow> False
     | Some r \<Rightarrow> w_state r = state \<and> w_not_before r \<le> now) [1 ..< Suc (t_last_id s)]"

definition ids_in_state :: "store \<Rightarrow> str \<Rightarrow> nat list" where
  "ids_in_state s state = ids_due s state i64_max"

definition journal_of :: "store \<Rightarrow> nat \<Rightarrow> journal_row option" where
  "journal_of s i = t_journal s i"

definition control_of :: "store \<Rightarrow> str \<Rightarrow> str option" where
  "control_of s key = t_control s key"

definition counter_of :: "store \<Rightarrow> int \<Rightarrow> str \<Rightarrow> int \<times> usd" where
  "counter_of s day scope = (case t_counter s (day, scope) of None \<Rightarrow> (0, 0) | Some c \<Rightarrow> c)"

definition last_acted_of :: "store \<Rightarrow> str \<Rightarrow> str \<Rightarrow> nat \<Rightarrow> int option" where
  "last_acted_of s r repo obj = t_acted s (r, repo, object_column obj)"

definition approvals_of :: "store \<Rightarrow> str \<Rightarrow> approval list" where
  "approvals_of s class =
     List.map_filter (\<lambda>i. case t_work s i of None \<Rightarrow> None
       | Some r \<Rightarrow>
           if w_class r = class \<and> w_state r \<in> {lit ''done'', lit ''dead''}
           then map_option (\<lambda>t. \<lparr>approval_at = t, approval_failed = (w_state r = lit ''dead'')\<rparr>)
                  (w_approved_at r)
           else None) [1 ..< Suc (t_last_id s)]"

definition work_of :: "store \<Rightarrow> nat \<Rightarrow> work_row option" where
  "work_of s i = map_option work_row.truncate (t_work s i)"

section \<open>Transactions\<close>

text \<open>An error inside the body rolls every statement of it back.\<close>

definition transaction :: "(store, 'e, 'a) prog \<Rightarrow> (store, 'e, 'a) prog" where
  "transaction body = (\<lambda>s. case body s of (Inl e, _) \<Rightarrow> (Inl e, s) | (Inr x, s') \<Rightarrow> (Inr x, s'))"

definition set_cursor :: "str \<Rightarrow> cursor \<Rightarrow> store \<Rightarrow> store" where
  "set_cursor source c s = s\<lparr>t_cursor := (t_cursor s)(source \<mapsto> c)\<rparr>"

text \<open>\<^verbatim>\<open>UPDATE work ... WHERE id = ?1\<close>: nothing happens when the row is not there.\<close>

definition update_work :: "nat \<Rightarrow> (work_rec \<Rightarrow> work_rec) \<Rightarrow> store \<Rightarrow> store" where
  "update_work i f s = s\<lparr>t_work := (t_work s)(i := map_option f (t_work s i))\<rparr>"

definition set_state :: "nat \<Rightarrow> str \<Rightarrow> str option \<Rightarrow> store \<Rightarrow> store" where
  "set_state i state reason = update_work i (\<lambda>r. r\<lparr>w_state := state, w_reason := reason\<rparr>)"

definition set_journal :: "nat \<Rightarrow> str \<Rightarrow> str \<Rightarrow> str \<Rightarrow> store \<Rightarrow> store" where
  "set_journal i step worktree branch s =
     s\<lparr>t_journal := (t_journal s)(i \<mapsto> \<lparr>j_step = step, j_worktree = worktree, j_branch = branch\<rparr>)\<rparr>"

definition clear_journal :: "nat \<Rightarrow> store \<Rightarrow> store" where
  "clear_journal i s = s\<lparr>t_journal := (t_journal s)(i := None)\<rparr>"

definition set_control :: "str \<Rightarrow> str \<Rightarrow> store \<Rightarrow> store" where
  "set_control key v s = s\<lparr>t_control := (t_control s)(key \<mapsto> v)\<rparr>"

definition stamp_approved :: "nat \<Rightarrow> int \<Rightarrow> store \<Rightarrow> store" where
  "stamp_approved i now = update_work i (\<lambda>r. r\<lparr>w_approved_at := Some now\<rparr>)"

definition set_retry :: "nat \<Rightarrow> str \<Rightarrow> str option \<Rightarrow> nat \<Rightarrow> int \<Rightarrow> store \<Rightarrow> store" where
  "set_retry i state reason attempts not_before =
     update_work i (\<lambda>r. r\<lparr>w_state := state, w_reason := reason, w_attempts := attempts,
                          w_not_before := not_before\<rparr>)"

text \<open>The upsert into \<^verbatim>\<open>counter\<close>: a new row, or the amounts added to the old one.\<close>

definition bump_counter :: "int \<Rightarrow> str \<Rightarrow> int \<Rightarrow> usd \<Rightarrow> store \<Rightarrow> store" where
  "bump_counter day scope actions usd s =
     s\<lparr>t_counter := (t_counter s)((day, scope) \<mapsto>
        (fst (counter_of s day scope) + actions, snd (counter_of s day scope) + usd))\<rparr>"

definition count_action :: "int \<Rightarrow> work_row \<Rightarrow> usd \<Rightarrow> int \<Rightarrow> store \<Rightarrow> store" where
  "count_action day item usd now s =
     (let s1 = fold (\<lambda>scope. bump_counter day scope 1 usd) [lit ''*'', w_rule item] s
      in s1\<lparr>t_acted := (t_acted s1)((w_rule item, w_repo item, object_column (w_object item)) \<mapsto> now)\<rparr>)"

definition count_spend :: "int \<Rightarrow> str \<Rightarrow> usd \<Rightarrow> store \<Rightarrow> store" where
  "count_spend day r usd = fold (\<lambda>scope. bump_counter day scope 0 usd) [lit ''*'', r]"

definition pending_states :: "str list" where
  "pending_states = [lit ''queued'', lit ''proposed'', lit ''approved'', lit ''running'']"

definition pending :: "store \<Rightarrow> nat" where
  "pending s = length (filter (\<lambda>i. case t_work s i of None \<Rightarrow> False
     | Some r \<Rightarrow> w_state r \<in> set pending_states) [1 ..< Suc (t_last_id s)])"

definition insert_work :: "new_work \<Rightarrow> int \<Rightarrow> (store, store_error, insert_outcome) prog" where
  "insert_work item now s =
     (if t_seen s (n_key item) \<noteq> None then (Inr Duplicate, s)
      else
        let s1 = s\<lparr>t_seen := (t_seen s)(n_key item \<mapsto> (now, n_body_hash item))\<rparr>;
            full = pending s1 \<ge> QUEUE_LIMIT;
            state = (if full then lit ''dead'' else lit ''queued'');
            reason = (if full then Some (lit ''queue_full'') else None);
            row = \<lparr>w_key = n_key item, w_rule = n_rule item, w_repo = n_repo item,
                   w_object = nat (object_column (n_object item)), w_body_hash = n_body_hash item,
                   w_state = state, w_reason = reason, w_attempts = 0, w_not_before = 0,
                   w_class = n_class item, w_created_at = now, w_approved_at = None\<rparr>;
            i = Suc (t_last_id s1)
        in if \<exists>j \<in> set [1 ..< Suc (t_last_id s1)]. map_option w_key (t_work s1 j) = Some (n_key item)
           then (Inl Sql, s1)
           else (Inr (if full then DeadItem i else Queued i),
                 s1\<lparr>t_work := (t_work s1)(i \<mapsto> row), t_last_id := i\<rparr>))"

section \<open>The invariant of the tables\<close>

text \<open>
  Rows are numbered without gaps, every row's key is a seen key, and no two rows share a
  key, so an \<^verbatim>\<open>INSERT\<close> never hits the \<^verbatim>\<open>UNIQUE\<close> constraint.
\<close>

definition store_inv :: "store \<Rightarrow> bool" where
  "store_inv s \<longleftrightarrow>
     dom (t_work s) = {1 .. t_last_id s}
   \<and> (\<forall>i r. t_work s i = Some r \<longrightarrow> t_seen s (w_key r) \<noteq> None)
   \<and> (\<forall>i j r q. t_work s i = Some r \<longrightarrow> t_work s j = Some q \<longrightarrow> w_key r = w_key q \<longrightarrow> i = j)"

lemma store_inv_empty: "store_inv empty_store"
  by (auto simp: store_inv_def empty_store_def)

text \<open>The fields of a row that no statement changes.\<close>

definition row_identity :: "work_rec \<Rightarrow> str \<times> str \<times> str \<times> nat \<times> bytes \<times> str" where
  "row_identity r = (w_key r, w_rule r, w_repo r, w_object r, w_body_hash r, w_class r)"

lemma store_inv_update_work:
  assumes "\<And>r. w_key (f r) = w_key r" and "store_inv s"
  shows "store_inv (update_work i f s)"
proof -
  have dom: "dom (t_work (update_work i f s)) = dom (t_work s)"
    by (auto simp: update_work_def split: if_splits)
  have key: "map_option w_key (t_work (update_work i f s) j) = map_option w_key (t_work s j)" for j
    using assms(1) by (cases "t_work s j") (auto simp: update_work_def)
  have row: "\<exists>r'. t_work s j = Some r' \<and> w_key r' = w_key r"
    if "t_work (update_work i f s) j = Some r" for j r
    using key[of j] that by (cases "t_work s j") auto
  have rest: "t_seen (update_work i f s) = t_seen s" "t_last_id (update_work i f s) = t_last_id s"
    by (simp_all add: update_work_def)
  from assms(2) show ?thesis
    unfolding store_inv_def dom rest by (metis row)
qed

lemma store_inv_updates:
  "store_inv s \<Longrightarrow> store_inv (set_cursor src c s)"
  "store_inv s \<Longrightarrow> store_inv (set_state i state reason s)"
  "store_inv s \<Longrightarrow> store_inv (set_journal i step wt br s)"
  "store_inv s \<Longrightarrow> store_inv (clear_journal i s)"
  "store_inv s \<Longrightarrow> store_inv (set_control key v s)"
  "store_inv s \<Longrightarrow> store_inv (stamp_approved i now s)"
  "store_inv s \<Longrightarrow> store_inv (set_retry i state reason n nb s)"
  "store_inv s \<Longrightarrow> store_inv (count_action day item u now s)"
  "store_inv s \<Longrightarrow> store_inv (count_spend day r u s)"
  by (simp_all add: set_state_def stamp_approved_def set_retry_def store_inv_update_work)
    (simp_all add: store_inv_def set_cursor_def set_journal_def clear_journal_def set_control_def
      count_action_def count_spend_def bump_counter_def Let_def)

lemma store_inv_fresh_key:
  assumes "store_inv s" "t_seen s k = None"
  shows "t_work s j = Some r \<Longrightarrow> w_key r \<noteq> k"
  using assms unfolding store_inv_def by (metis option.distinct(1))

text \<open>What an \<^verbatim>\<open>INSERT\<close> leaves behind when the tables are well formed.\<close>

definition fresh_row :: "new_work \<Rightarrow> int \<Rightarrow> bool \<Rightarrow> work_rec" where
  "fresh_row item now full =
     \<lparr>w_key = n_key item, w_rule = n_rule item, w_repo = n_repo item,
      w_object = nat (object_column (n_object item)), w_body_hash = n_body_hash item,
      w_state = (if full then lit ''dead'' else lit ''queued''),
      w_reason = (if full then Some (lit ''queue_full'') else None), w_attempts = 0,
      w_not_before = 0, w_class = n_class item, w_created_at = now, w_approved_at = None\<rparr>"

lemma insert_work_fresh:
  assumes "store_inv s" "t_seen s (n_key item) = None"
  shows "insert_work item now s =
    (let full = pending s \<ge> QUEUE_LIMIT; i = Suc (t_last_id s) in
      (Inr (if full then DeadItem i else Queued i),
       s\<lparr>t_seen := (t_seen s)(n_key item \<mapsto> (now, n_body_hash item)),
         t_work := (t_work s)(i \<mapsto> fresh_row item now full), t_last_id := i\<rparr>))"
proof -
  have "\<not> (\<exists>j \<in> set [1 ..< Suc (t_last_id s)]. map_option w_key (t_work s j) = Some (n_key item))"
    using store_inv_fresh_key[OF assms] by auto
  then show ?thesis
    using assms(2) by (simp add: insert_work_def Let_def fresh_row_def pending_def)
qed

lemma insert_work_duplicate:
  "t_seen s (n_key item) \<noteq> None \<Longrightarrow> insert_work item now s = (Inr Duplicate, s)"
  by (simp add: insert_work_def)

lemma store_inv_insert_row:
  assumes "store_inv s" "t_seen s k = None" "w_key row = k"
  shows "store_inv (s\<lparr>t_seen := (t_seen s)(k \<mapsto> x), t_work := (t_work s)(Suc (t_last_id s) \<mapsto> row),
                     t_last_id := Suc (t_last_id s)\<rparr>)"
proof -
  have fresh: "k \<noteq> w_key r \<and> w_key r \<noteq> k" if "t_work s j = Some r" for j r
    using store_inv_fresh_key[OF assms(1,2) that] by auto
  have "Suc (t_last_id s) \<notin> dom (t_work s)"
    using assms(1) by (simp add: store_inv_def)
  then have "t_work s (Suc (t_last_id s)) = None" by (simp add: domIff)
  then show ?thesis
    using assms fresh by (auto simp: store_inv_def)
qed

lemma insert_work_inv:
  assumes "store_inv s" and "insert_work item now s = (r, s')"
  shows "store_inv s' \<and> r \<noteq> Inl e"
proof (cases "t_seen s (n_key item)")
  case None
  then show ?thesis
    using assms store_inv_insert_row[OF assms(1) None]
    by (auto simp: insert_work_fresh Let_def fresh_row_def)
qed (use assms in \<open>auto simp: insert_work_duplicate\<close>)

section \<open>The queue limit\<close>

definition is_pending :: "work_rec option \<Rightarrow> bool" where
  "is_pending r \<longleftrightarrow> (case r of None \<Rightarrow> False | Some w \<Rightarrow> w_state w \<in> set pending_states)"

lemma pending_is_pending:
  "pending s = length (filter (\<lambda>i. is_pending (t_work s i)) [1 ..< Suc (t_last_id s)])"
  unfolding pending_def is_pending_def ..

lemma pending_insert_row:
  "pending (s\<lparr>t_seen := seen, t_work := (t_work s)(Suc (t_last_id s) \<mapsto> row),
              t_last_id := Suc (t_last_id s)\<rparr>)
   = pending s + (if is_pending (Some row) then 1 else 0)"
proof -
  have "filter (\<lambda>i. is_pending (((t_work s)(Suc (t_last_id s) \<mapsto> row)) i)) [1 ..< Suc (t_last_id s)]
      = filter (\<lambda>i. is_pending (t_work s i)) [1 ..< Suc (t_last_id s)]"
    by (rule filter_cong) auto
  then show ?thesis
    by (simp add: pending_is_pending)
qed

lemma is_pending_fresh_row: "is_pending (Some (fresh_row item now full)) \<longleftrightarrow> \<not> full"
  by (simp add: is_pending_def fresh_row_def pending_states_def)

lemma insert_work_pending:
  assumes "store_inv s" and "insert_work item now s = (r, s')"
  shows "pending s' \<le> max QUEUE_LIMIT (pending s)"
proof (cases "t_seen s (n_key item)")
  case None
  then show ?thesis
    using assms
    by (auto simp: insert_work_fresh Let_def pending_insert_row is_pending_fresh_row simp del: upt_Suc)
qed (use assms in \<open>auto simp: insert_work_duplicate\<close>)

lemma insert_work_seen:
  assumes "store_inv s" and "insert_work item now s = (r, s')"
  shows "t_seen s' (n_key item) \<noteq> None"
    and "t_seen s' = (t_seen s)(n_key item := t_seen s' (n_key item))"
    and "t_last_id s \<le> t_last_id s'"
    and "i \<noteq> Suc (t_last_id s) \<Longrightarrow> t_work s' i = t_work s i"
  using assms by (cases "t_seen s (n_key item)";
    auto simp: insert_work_fresh insert_work_duplicate Let_def)+


definition sample_item :: new_work where
  "sample_item = \<lparr>n_key = lit ''issue:7:opened:triage'', n_rule = lit ''triage'', n_class = lit ''label'',
     n_repo = lit ''o/r'', n_object = 7, n_body_hash = [1, 2]\<rparr>"


end
