(* ===== verification/Watch_Trust.thy ===== *)
theory Watch_Trust
  imports Prelude
begin

text \<open>
  Who may be believed and how text from GitHub reaches a model: \<^verbatim>\<open>watch/trust.rs\<close>. The
  \<^verbatim>\<open>regex\<close> crate's leftmost, greedy replacement of the close tag is spelled out by
  \<open>match_close\<close> and \<open>defuse\<close>.
\<close>

section \<open>Who may be believed\<close>

datatype trust = Trusted | Untrusted | SelfAuthored

definition classify :: "str \<Rightarrow> str \<Rightarrow> str \<Rightarrow> str list \<Rightarrow> trust" where
  "classify author association me allowed =
     (if author = me then SelfAuthored
      else if association \<in> {lit ''OWNER'', lit ''MEMBER'', lit ''COLLABORATOR''} \<or> author \<in> set allowed
      then Trusted else Untrusted)"

definition require_trusted_thread :: "trust list \<Rightarrow> str + unit" where
  "require_trusted_thread authors =
     (if Untrusted \<in> set authors
      then Inl (lit ''untrusted context: the thread has a comment from an untrusted author'')
      else Inr ())"

section \<open>Untrusted text for a model\<close>

text \<open>
  The pattern \<^verbatim>\<open>(?i)<\s*/\s*untrusted_data\s*>\<close>. Under Unicode simple case folding the only
  letter of the name with a fold outside ASCII is \<open>s\<close> (the long s, U+017F). \<open>match_close\<close>
  returns what follows a match at the head of the text. White space and the next literal
  never overlap, so the greedy repetitions never give back a character.
\<close>

definition fold_matches :: "rchar \<Rightarrow> rchar \<Rightarrow> bool" where
  "fold_matches d c \<longleftrightarrow> to_ascii_lower c = d \<or> (d = 115 \<and> c = 383)"

fun match_name :: "str \<Rightarrow> str \<Rightarrow> str option" where
  "match_name [] s = Some s"
| "match_name (d # ds) [] = None"
| "match_name (d # ds) (c # cs) = (if fold_matches d c then match_name ds cs else None)"

definition match_char :: "rchar \<Rightarrow> str \<Rightarrow> str option" where
  "match_char d s = (case s of [] \<Rightarrow> None | c # cs \<Rightarrow> if c = d then Some cs else None)"

abbreviation TAG_NAME :: str where "TAG_NAME \<equiv> lit ''untrusted_data''"

definition match_close :: "str \<Rightarrow> str option" where
  "match_close s =
     Option.bind (match_char 60 s) (\<lambda>s1.
     Option.bind (match_char 47 (dropWhile is_whitespace s1)) (\<lambda>s2.
     Option.bind (match_name TAG_NAME (dropWhile is_whitespace s2)) (\<lambda>s3.
     match_char 62 (dropWhile is_whitespace s3))))"

abbreviation DEFUSED :: str where "DEFUSED \<equiv> lit ''</untrusted_data_>''"
abbreviation CLOSE_TAG :: str where "CLOSE_TAG \<equiv> lit ''</untrusted_data>''"

lemma match_char_Some: "match_char d s = Some r \<longleftrightarrow> s = d # r"
  by (auto simp: match_char_def split: list.splits)

lemma match_name_Some:
  "match_name ds s = Some r \<longleftrightarrow> (\<exists>m. s = m @ r \<and> list_all2 fold_matches ds m)"
  by (induction ds s rule: match_name.induct) (auto simp: list_all2_Cons1)

lemma match_close_Some:
  "match_close s = Some r \<longleftrightarrow>
     (\<exists>s2 s3. s \<noteq> [] \<and> hd s = 60 \<and> dropWhile is_whitespace (tl s) = 47 # s2
        \<and> match_name TAG_NAME (dropWhile is_whitespace s2) = Some s3
        \<and> dropWhile is_whitespace s3 = 62 # r)"
  by (cases s) (auto simp: match_close_def match_char_Some bind_eq_Some_conv)

lemma dropWhile_eq_ConsD: "dropWhile P s = c # r \<Longrightarrow> \<exists>w. s = w @ c # r \<and> list_all P w \<and> \<not> P c"
  by (metis Ball_set_list_all dropWhile_eq_Cons_conv set_takeWhileD takeWhile_dropWhile_id)

lemma match_close_shorter: "match_close s = Some r \<Longrightarrow> length r < length s"
proof -
  assume "match_close s = Some r"
  then obtain s2 s3 where s: "s \<noteq> []" "dropWhile is_whitespace (tl s) = 47 # s2"
    and n: "match_name TAG_NAME (dropWhile is_whitespace s2) = Some s3"
    and r: "dropWhile is_whitespace s3 = 62 # r"
    by (auto simp: match_close_Some)
  have "length r < length s3" using length_dropWhile_le[of is_whitespace s3] by (simp add: r)
  also from n have "length s3 \<le> length (dropWhile is_whitespace s2)" by (auto simp: match_name_Some)
  also have "\<dots> \<le> length s2" by (rule length_dropWhile_le)
  also have "\<dots> < length (tl s)" using length_dropWhile_le[of is_whitespace "tl s"] by (simp add: s(2))
  also have "\<dots> \<le> length s" by simp
  finally show ?thesis .
qed

function defuse :: "str \<Rightarrow> str" where
  "defuse s = (case match_close s of
     Some r \<Rightarrow> DEFUSED @ defuse r
   | None \<Rightarrow> (case s of [] \<Rightarrow> [] | c # cs \<Rightarrow> c # defuse cs))"
  by pat_completeness auto
termination
  by (relation "measure length") (auto dest: match_close_shorter)

declare defuse.simps [simp del]

definition wrap_untrusted :: "str \<Rightarrow> str" where
  "wrap_untrusted t = lit ''<untrusted_data>'' @ [10] @ defuse t @ [10] @ CLOSE_TAG @ [10]"

section \<open>Nothing in the data ends the block\<close>

definition no_close :: "str \<Rightarrow> bool" where
  "no_close s \<longleftrightarrow> (\<forall>p t. s = p @ t \<longrightarrow> match_close t = None)"

text \<open>The shape of a match: nothing before its last character opens a new tag.\<close>

definition tag_body :: "str \<Rightarrow> bool" where
  "tag_body m \<longleftrightarrow> (\<exists>w1 w2 n w3. m = w1 @ 47 # w2 @ n @ w3 @ [62] \<and> list_all is_whitespace w1
     \<and> list_all is_whitespace w2 \<and> list_all2 fold_matches TAG_NAME n \<and> list_all is_whitespace w3)"

lemma ws_not_special: "is_whitespace c \<Longrightarrow> c \<noteq> 47 \<and> c \<noteq> 60 \<and> c \<noteq> 62"
  unfolding is_whitespace_def by linarith

lemma fold_matches_chars: "fold_matches d c \<Longrightarrow> 95 \<le> d \<Longrightarrow> d \<le> 122 \<Longrightarrow> \<not> is_whitespace c \<and> c \<noteq> 60 \<and> c \<noteq> 62"
proof -
  assume "fold_matches d c" "95 \<le> d" "d \<le> 122"
  then have "65 \<le> c \<and> c \<le> 90 \<or> 95 \<le> c \<and> c \<le> 122 \<or> c = 383"
    by (auto simp: fold_matches_def to_ascii_lower_def is_ascii_upper_def split: if_splits)
  then show ?thesis by (auto simp: is_whitespace_def fold_matches_def to_ascii_lower_def)
qed

lemma fold_name_chars:
  "list_all2 fold_matches TAG_NAME n \<Longrightarrow> c \<in> set n \<Longrightarrow> \<not> is_whitespace c \<and> c \<noteq> 60 \<and> c \<noteq> 62"
proof -
  have "list_all2 fold_matches ds n \<Longrightarrow> \<forall>d \<in> set ds. 95 \<le> d \<and> d \<le> 122 \<Longrightarrow> c \<in> set n
      \<Longrightarrow> \<exists>d. 95 \<le> d \<and> d \<le> 122 \<and> fold_matches d c" for ds
    by (induction rule: list_all2_induct) auto
  moreover have "\<forall>d \<in> set TAG_NAME. 95 \<le> d \<and> d \<le> 122" by (simp add: lit_def)
  ultimately show "list_all2 fold_matches TAG_NAME n \<Longrightarrow> c \<in> set n \<Longrightarrow> ?thesis"
    using fold_matches_chars by blast
qed

lemma dropWhile_ws: "list_all is_whitespace w \<Longrightarrow> \<not> is_whitespace c \<Longrightarrow>
    dropWhile is_whitespace (w @ c # r) = c # r"
  by (induction w) auto

lemma match_close_iff: "match_close s = Some r \<longleftrightarrow> (\<exists>m. s = 60 # m @ r \<and> tag_body m)"
proof
  assume "match_close s = Some r"
  then obtain s2 s3 where s: "s \<noteq> []" "hd s = 60" "dropWhile is_whitespace (tl s) = 47 # s2"
    and n: "match_name TAG_NAME (dropWhile is_whitespace s2) = Some s3"
    and r: "dropWhile is_whitespace s3 = 62 # r"
    by (auto simp: match_close_Some)
  from s obtain w1 where w1: "tl s = w1 @ 47 # s2" "list_all is_whitespace w1"
    by (auto dest: dropWhile_eq_ConsD)
  from r obtain w3 where w3: "s3 = w3 @ 62 # r" "list_all is_whitespace w3"
    by (auto dest: dropWhile_eq_ConsD)
  from n obtain n' where n': "dropWhile is_whitespace s2 = n' @ s3" "list_all2 fold_matches TAG_NAME n'"
    by (auto simp: match_name_Some)
  obtain w2 where w2: "s2 = w2 @ dropWhile is_whitespace s2" "list_all is_whitespace w2"
    by (metis Ball_set_list_all set_takeWhileD takeWhile_dropWhile_id)
  have "s2 = w2 @ n' @ w3 @ 62 # r" using w2(1) n'(1) w3(1) by simp
  then have "s = 60 # (w1 @ 47 # w2 @ n' @ w3 @ [62]) @ r"
    using s(1,2) w1(1) by (cases s) auto
  then show "\<exists>m. s = 60 # m @ r \<and> tag_body m"
    unfolding tag_body_def using w1(2) w2(2) n'(2) w3(2) by blast
next
  assume "\<exists>m. s = 60 # m @ r \<and> tag_body m"
  then obtain w1 w2 n w3 where s: "s = 60 # (w1 @ 47 # w2 @ n @ w3 @ [62]) @ r"
    and w: "list_all is_whitespace w1" "list_all is_whitespace w2" "list_all is_whitespace w3"
    and n: "list_all2 fold_matches TAG_NAME n"
    by (auto simp: tag_body_def)
  from n have "n \<noteq> []" by auto
  then obtain c n' where c: "n = c # n'" by (cases n) auto
  with n have "\<not> is_whitespace c" using fold_name_chars[OF n] by auto
  then have d2: "dropWhile is_whitespace (w2 @ n @ w3 @ 62 # r) = n @ w3 @ 62 # r"
    using w(2) c by (simp add: dropWhile_ws)
  have "\<not> is_whitespace 47" "\<not> is_whitespace 62" by (auto simp: is_whitespace_def)
  then show "match_close s = Some r"
    using s w n d2 by (auto simp: match_close_Some dropWhile_ws match_name_Some)
qed

lemma tag_body_chars: "tag_body m \<Longrightarrow> 60 \<notin> set m"
  unfolding tag_body_def using fold_name_chars ws_not_special
  by (fastforce simp: list_all_iff)

text \<open>Up to the next opening bracket the defused text is the text.\<close>

lemma defuse_prefix:
  "defuse s = m @ r \<Longrightarrow> 60 \<notin> set m \<Longrightarrow> \<exists>r'. s = m @ r'"
proof (induction s arbitrary: m rule: defuse.induct)
  case (1 s)
  show ?case
  proof (cases "match_close s")
    case (Some x)
    then have "defuse s = DEFUSED @ defuse x" by (subst defuse.simps) simp
    then have "hd (defuse s) = 60" by (simp add: lit_def)
    with "1.prems" have "m = []" by (cases m) auto
    then show ?thesis by simp
  next
    case None
    show ?thesis
    proof (cases s)
      case Nil
      with None "1.prems" show ?thesis by (simp add: defuse.simps)
    next
      case (Cons c cs)
      with None have d: "defuse s = c # defuse cs" by (subst defuse.simps) simp
      show ?thesis
      proof (cases m)
        case (Cons c' m')
        with d "1.prems" have "defuse cs = m' @ r" "60 \<notin> set m'" "c' = c" by auto
        with "1.IH"(1)[OF None \<open>s = c # cs\<close>] Cons \<open>s = c # cs\<close> show ?thesis by fastforce
      qed simp
    qed
  qed
qed

lemma defused_head: "match_close (DEFUSED @ x) = None"
proof -
  have "match_close (DEFUSED @ x) \<noteq> Some r" for r
    by (simp add: match_close_Some lit_def is_whitespace_def fold_matches_def to_ascii_lower_def
        is_ascii_upper_def)
  then show ?thesis by (cases "match_close (DEFUSED @ x)") auto
qed

lemma no_close_defuse: "no_close (defuse s)"
proof (induction s rule: defuse.induct)
  case (1 s)
  show ?case
  proof (cases "match_close s")
    case (Some x)
    have "match_close t = None" if t: "DEFUSED @ defuse x = p @ t" for p t
    proof -
      consider q where "t = q @ defuse x" "DEFUSED = p @ q" | q where "defuse x = q @ t"
        using t by (auto simp: append_eq_append_conv2)
      then show ?thesis
      proof cases
        case 1
        show ?thesis
        proof (cases "p = [] \<or> t = []")
          case True
          then show ?thesis using 1 defused_head by (auto simp: match_close_def match_char_def)
        next
          case False
          have "60 \<notin> set (tl DEFUSED)" by (simp add: lit_def)
          with 1 False have "60 \<notin> set q"
            by (cases p) (auto simp: lit_def)
          show ?thesis
          proof (cases q)
            case Nil
            with 1 have "t = defuse x" by simp
            with "1.IH"(2)[OF Some] show ?thesis by (auto simp: no_close_def)
          next
            case (Cons c q')
            with \<open>60 \<notin> set q\<close> 1 show ?thesis by (auto simp: match_close_def match_char_def)
          qed
        qed
      next
        case 2
        with "1.IH"(2)[OF Some] show ?thesis by (auto simp: no_close_def)
      qed
    qed
    moreover have "defuse s = DEFUSED @ defuse x" using Some by (subst defuse.simps) simp
    ultimately show ?thesis by (simp add: no_close_def)
  next
    case None
    show ?thesis
    proof (cases s)
      case Nil
      with None show ?thesis by (simp add: no_close_def defuse.simps)
    next
      case (Cons c cs)
      with None have d: "defuse s = c # defuse cs" by (subst defuse.simps) simp
      have "match_close (c # defuse cs) \<noteq> Some r" for r
      proof
        assume "match_close (c # defuse cs) = Some r"
        then obtain m where m: "c = 60" "defuse cs = m @ r" "tag_body m"
          by (auto simp: match_close_iff)
        then obtain r' where "cs = m @ r'" using defuse_prefix tag_body_chars by blast
        with m Cons have "match_close s = Some r'" by (auto simp: match_close_iff)
        with None show False by simp
      qed
      then have "match_close (c # defuse cs) = None"
        by (cases "match_close (c # defuse cs)") auto
      with "1.IH"(1)[OF None Cons] show ?thesis
        unfolding d no_close_def by (metis append_eq_Cons_conv)
    qed
  qed
qed

lemma no_close_Nil: "no_close []"
  by (simp add: no_close_def match_close_def match_char_def)

lemma no_close_Cons: "no_close (c # s) \<longleftrightarrow> match_close (c # s) = None \<and> no_close s"
  by (auto simp: no_close_def Cons_eq_append_conv)

lemma match_close_no_open: "60 \<notin> set (take 1 s) \<Longrightarrow> match_close s = None"
  by (cases s) (auto simp: match_close_def match_char_def)

lemma no_close_prepend: "60 \<notin> set x \<Longrightarrow> no_close y \<Longrightarrow> no_close (x @ y)"
  by (induction x) (auto simp: no_close_Cons match_close_no_open)

lemma defuse_free: "no_close s \<Longrightarrow> defuse s = s"
proof (induction s rule: defuse.induct)
  case (1 s)
  then have none: "match_close s = None" by (auto simp: no_close_def)
  show ?case
  proof (cases s)
    case Nil
    with none show ?thesis by (simp add: defuse.simps)
  next
    case (Cons c cs)
    with "1.prems" "1.IH"(1)[OF none Cons] none show ?thesis
      by (subst defuse.simps) (simp add: no_close_Cons)
  qed
qed

lemma no_close_append_iff:
  "no_close a \<Longrightarrow> no_close (a @ [10])"
proof -
  assume a: "no_close a"
  have "match_close t = None" if t: "a @ [10] = p @ t" for p t
  proof (cases "match_close t")
    case (Some r)
    then obtain m where m: "t = 60 # m @ r" "tag_body m" by (auto simp: match_close_iff)
    then obtain m' where m': "m = m' @ [62]" by (auto simp: tag_body_def)
    have "r \<noteq> []"
    proof
      assume "r = []"
      with m m' t have "last (a @ [10]) = 62" by simp
      then show False by simp
    qed
    then obtain r' where r: "r = r' @ [10]"
      using t m(1) by (metis append_Cons append_butlast_last_id last_appendR last_snoc append_assoc
        append_is_Nil_conv list.discI)
    with t m(1) have "a = p @ 60 # m @ r'" by simp
    with a m(2) have "match_close (60 # m @ r') = None" by (simp add: no_close_def)
    moreover have "match_close (60 # m @ r') = Some r'" using m(2) by (auto simp: match_close_iff)
    ultimately show ?thesis by simp
  qed
  then show ?thesis by (simp add: no_close_def)
qed

text \<open>A match never spans an opening bracket.\<close>

lemma no_close_before_bracket:
  assumes "no_close a" "a @ 60 # b = p @ t" "t \<noteq> []" "length p < length a"
  shows "match_close t = None"
proof (cases "match_close t")
  case (Some r)
  then obtain m where m: "t = 60 # m @ r" "tag_body m" by (auto simp: match_close_iff)
  from assms(2,4) obtain q where q: "a = p @ q" "t = q @ 60 # b" "q \<noteq> []"
    by (auto simp: append_eq_append_conv2 append_eq_Cons_conv)
  then obtain q' where q': "q = 60 # q'" using m(1) by (cases q) auto
  with q m(1) have eq: "m @ r = q' @ 60 # b" by simp
  have "length m \<le> length q'"
  proof (rule ccontr)
    assume "\<not> ?thesis"
    with eq have "60 \<in> set m"
      by (auto simp: append_eq_append_conv2 append_eq_Cons_conv)
    with m(2) tag_body_chars show False by blast
  qed
  with eq obtain r' where "q' = m @ r'" by (auto simp: append_eq_append_conv2)
  with q q' m(2) have "match_close q = Some r'" by (auto simp: match_close_iff)
  with assms(1) q(1) show ?thesis by (auto simp: no_close_def)
qed simp

text \<open>
  C21. Text from GitHub cannot end the block it is wrapped in: the only place in the wrapped
  text where a close tag (in any case, with any white space) can be read is the one the
  code appends at the very end. Text that holds no such tag is passed through unchanged.
\<close>

theorem wrap_untrusted_sealed:
  "{q. (\<exists>p. wrap_untrusted t = p @ q) \<and> match_close q \<noteq> None} = {CLOSE_TAG @ [10]}
   \<and> (defuse t = t \<longleftrightarrow> no_close t)"
proof -
  define a where "a = lit ''<untrusted_data>'' @ [10] @ defuse t @ [10]"
  define b where "b = tl CLOSE_TAG @ [10]"
  have close: "CLOSE_TAG @ [10] = 60 # b" by (simp add: b_def lit_def)
  have wrap: "wrap_untrusted t = a @ 60 # b"
    by (simp add: wrap_untrusted_def a_def close[symmetric])
  have b_none: "match_close q = None" if "b = x @ q" for x q
  proof -
    have "60 \<notin> set b" by (simp add: b_def lit_def)
    with that have "60 \<notin> set (take 1 q)" by (auto dest: in_set_takeD)
    then show ?thesis by (rule match_close_no_open)
  qed
  have "no_close (defuse t @ [10])" by (rule no_close_append_iff[OF no_close_defuse])
  moreover have "60 \<notin> set (tl (lit ''<untrusted_data>'') @ [10])" by (simp add: lit_def)
  ultimately have "no_close ((tl (lit ''<untrusted_data>'') @ [10]) @ defuse t @ [10])"
    using no_close_prepend by blast
  moreover have "match_close (60 # tl (lit ''<untrusted_data>'') @ y) = None" for y
    by (simp add: lit_def match_close_def match_char_def is_whitespace_def)
  moreover have "a = 60 # tl (lit ''<untrusted_data>'') @ [10] @ defuse t @ [10]"
    by (simp add: a_def lit_def)
  ultimately have a_free: "no_close a" by (simp add: no_close_Cons)
  have "q = 60 # b" if "a @ 60 # b = p @ q" "match_close q \<noteq> None" for p q
  proof -
    have "q \<noteq> []" using that(2) by (auto simp: match_close_def match_char_def)
    then have "\<not> length p < length a"
      using no_close_before_bracket[OF a_free that(1)] that(2) by blast
    with that(1) obtain p' where p': "p = a @ p'" "60 # b = p' @ q"
      by (auto simp: append_eq_append_conv2)
    show ?thesis
      using p'(2) b_none that(2) by (cases p') auto
  qed
  moreover have "match_close (60 # b) \<noteq> None"
    by (simp add: b_def lit_def match_close_def match_char_def is_whitespace_def fold_matches_def
        to_ascii_lower_def is_ascii_upper_def)
  ultimately have "{q. (\<exists>p. wrap_untrusted t = p @ q) \<and> match_close q \<noteq> None} = {CLOSE_TAG @ [10]}"
    unfolding wrap close by auto
  moreover have "defuse t = t \<longleftrightarrow> no_close t"
    using no_close_defuse[of t] defuse_free[of t] by auto
  ultimately show ?thesis by blast
qed

end
