(* ===== verification/Calendar.thy ===== *)
theory Calendar
  imports Prelude
begin

text \<open>
  Calendar arithmetic without a date library: \<^verbatim>\<open>crates/common/src/time.rs\<close>,
  \<^verbatim>\<open>crates/cli/src/common/time.rs\<close> and the civil dates of
  \<^verbatim>\<open>crates/telemetry/src/aggregate.rs\<close>. Days are counted from 1970-01-01.
\<close>

section \<open>Numbers in text\<close>

text \<open>\<^verbatim>\<open>str::parse\<close> of an integer type: a sign, then at least one digit, within the range.\<close>

fun digits_value :: "int \<Rightarrow> str \<Rightarrow> int option" where
  "digits_value acc [] = Some acc"
| "digits_value acc (c # cs) =
     (if is_ascii_digit c then digits_value (10 * acc + (int c - 48)) cs else None)"

definition parse_digits :: "str \<Rightarrow> int option" where
  "parse_digits s = (if s = [] then None else digits_value 0 s)"

definition in_range :: "int \<Rightarrow> int \<Rightarrow> int option \<Rightarrow> int option" where
  "in_range lo hi v = Option.bind v (\<lambda>n. if lo \<le> n \<and> n \<le> hi then Some n else None)"

definition parse_i64 :: "str \<Rightarrow> int option" where
  "parse_i64 s = in_range i64_min i64_max (case s of
     [] \<Rightarrow> None
   | c # cs \<Rightarrow> if c = 43 then parse_digits cs
               else if c = 45 then map_option uminus (parse_digits cs)
               else parse_digits s)"

definition parse_u :: "int \<Rightarrow> str \<Rightarrow> int option" where
  "parse_u hi s = in_range 0 hi (case s of
     [] \<Rightarrow> None
   | c # cs \<Rightarrow> if c = 43 then parse_digits cs else parse_digits s)"

abbreviation parse_u32 :: "str \<Rightarrow> int option" where "parse_u32 \<equiv> parse_u 4294967295"
abbreviation parse_u64 :: "str \<Rightarrow> int option" where "parse_u64 \<equiv> parse_u 18446744073709551615"

text \<open>\<^verbatim>\<open>{:0w}\<close> of an integer: the sign counts as a column.\<close>

definition pad :: "nat \<Rightarrow> int \<Rightarrow> str" where
  "pad w i = (if i < 0 then let ds = dec_nat (nat (- i)) in 45 # replicate (w - 1 - length ds) 48 @ ds
              else let ds = dec_nat (nat i) in replicate (w - length ds) 48 @ ds)"

lemma digits_value_append:
  "digits_value acc (s @ t) = Option.bind (digits_value acc s) (\<lambda>a. digits_value a t)"
  by (induction s arbitrary: acc) auto

lemma digits_value_zeros: "digits_value 0 (replicate k 48) = Some 0"
  by (induction k) (auto simp: is_ascii_digit_def)

lemma digits_value_dec_nat: "digits_value 0 (dec_nat n) = Some (int n)"
proof (induction n rule: dec_nat.induct)
  case (1 n)
  show ?case
  proof (cases "n < 10")
    case True
    then show ?thesis by (simp add: dec_nat.simps[of n] is_ascii_digit_def)
  next
    case False
    with 1 have "digits_value 0 (dec_nat (n div 10)) = Some (int (n div 10))" by simp
    with False show ?thesis
      by (subst dec_nat.simps) (simp add: digits_value_append is_ascii_digit_def zdiv_int zmod_int)
  qed
qed

lemma parse_digits_pad: "0 \<le> i \<Longrightarrow> parse_digits (pad w i) = Some i"
  by (simp add: parse_digits_def pad_def Let_def digits_value_append digits_value_zeros digits_value_dec_nat)

lemma pad_chars: "0 \<le> i \<Longrightarrow> c \<in> set (pad w i) \<Longrightarrow> is_ascii_digit c"
  by (auto simp: pad_def Let_def dec_nat_digits) (simp add: is_ascii_digit_def)

lemma pad_not_Nil [simp]: "pad w i \<noteq> []"
  by (simp add: pad_def Let_def)

lemma pad_no_sign:
  assumes "0 \<le> i"
  obtains c cs where "pad w i = c # cs" "c \<noteq> 43" "c \<noteq> 45"
proof (cases "pad w i")
  case (Cons c cs)
  with pad_chars[OF assms, of c w] have "is_ascii_digit c" by simp
  with Cons that show thesis by (auto simp: is_ascii_digit_def)
qed simp

lemma parse_i64_pad: "0 \<le> i \<Longrightarrow> i \<le> i64_max \<Longrightarrow> parse_i64 (pad w i) = Some i"
  using parse_digits_pad[of i w] by (rule_tac pad_no_sign[of i w]) (auto simp: parse_i64_def in_range_def)

lemma parse_u_pad: "0 \<le> i \<Longrightarrow> i \<le> hi \<Longrightarrow> parse_u hi (pad w i) = Some i"
  using parse_digits_pad[of i w] by (rule_tac pad_no_sign[of i w]) (auto simp: parse_u_def in_range_def)

section \<open>Civil dates\<close>

text \<open>The era, the day of the era and the year of the era, in March-based years.\<close>

definition yoe_of :: "int \<Rightarrow> int" where
  "yoe_of doe = (doe - doe div 1460 + doe div 36524 - doe div 146096) div 365"

definition civil_from_days :: "int \<Rightarrow> int \<times> int \<times> int" where
  "civil_from_days days =
     (let z = days + 719468;
          era = z div 146097;
          doe = z - era * 146097;
          yoe = yoe_of doe;
          doy = doe - (365 * yoe + yoe div 4 - yoe div 100);
          mp = (5 * doy + 2) div 153;
          day = doy - (153 * mp + 2) div 5 + 1;
          month = (if mp < 10 then mp + 3 else mp - 9);
          year = yoe + era * 400 + (if month \<le> 2 then 1 else 0)
      in (year, month, day))"

text \<open>The division truncates towards zero in the source, after the shift by 399.\<close>

definition days_from_civil :: "int \<Rightarrow> int \<Rightarrow> int \<Rightarrow> int" where
  "days_from_civil year month day =
     (let y = (if month \<le> 2 then year - 1 else year);
          shifted = (if y \<ge> 0 then y else y - 399);
          era = sgn shifted * (\<bar>shifted\<bar> div 400);
          yoe = y - era * 400;
          mp = (month + 9) mod 12;
          doy = (153 * mp + 2) div 5 + day - 1;
          doe = yoe * 365 + yoe div 4 - yoe div 100 + doy
      in era * 146097 + doe - 719468)"

definition leap :: "int \<Rightarrow> bool" where
  "leap y \<longleftrightarrow> y mod 4 = 0 \<and> (y mod 100 \<noteq> 0 \<or> y mod 400 = 0)"

definition month_length :: "int \<Rightarrow> int \<Rightarrow> int" where
  "month_length y m = (if m = 2 then if leap y then 29 else 28
     else if m \<in> {4, 6, 9, 11} then 30 else 31)"

text \<open>The contract: a date of the proleptic Gregorian calendar.\<close>

definition valid_date :: "int \<Rightarrow> int \<Rightarrow> int \<Rightarrow> bool" where
  "valid_date y m d \<longleftrightarrow> 1 \<le> m \<and> m \<le> 12 \<and> 1 \<le> d \<and> d \<le> month_length y m"

definition date_key :: "int \<Rightarrow> str" where
  "date_key days = (case civil_from_days days of (y, m, d) \<Rightarrow> pad 4 y @ [45] @ pad 2 m @ [45] @ pad 2 d)"

text \<open>The first day of year \<open>q\<close> of an era.\<close>

definition year_start :: "int \<Rightarrow> int" where
  "year_start q = 365 * q + q div 4 - q div 100"

text \<open>
  The year of a day, by centuries \<open>b\<close> of 36524 days and cycles \<open>t\<close> of 1461 days: the
  correction terms of the formula cancel the leap days exactly.
\<close>

lemma yoe_of_parts:
  assumes "0 \<le> b" "b \<le> 3" "0 \<le> t" "t \<le> 24" "0 \<le> r" "r \<le> 1460" "t = 24 \<Longrightarrow> r \<le> 1459"
  shows "yoe_of (36524 * b + 1461 * t + r) = 100 * b + 4 * t + min 3 (r div 365)"
proof -
  define doe where "doe = 36524 * b + 1461 * t + r"
  define e where "e = (if 24 * b + t + r \<ge> 1460 then 1 else (0 :: int))"
  have "doe = 1460 * (25 * b + t + e) + (24 * b + t + r - 1460 * e)" by (simp add: doe_def)
  moreover have "0 \<le> 24 * b + t + r - 1460 * e" "24 * b + t + r - 1460 * e < 1460"
    using assms by (auto simp: e_def)
  ultimately have d1: "doe div 1460 = 25 * b + t + e" by (rule int_div_pos_eq)
  have "0 \<le> 1461 * t + r \<and> 1461 * t + r < 36524"
  proof (cases "t = 24")
    case False
    with assms have "t \<le> 23" by linarith
    with assms show ?thesis by linarith
  qed (use assms in linarith)
  then have d2: "doe div 36524 = b"
    by (intro int_div_pos_eq[of _ _ _ "1461 * t + r"]) (auto simp: doe_def)
  have d3: "doe div 146096 = 0"
    using \<open>0 \<le> 1461 * t + r \<and> 1461 * t + r < 36524\<close> assms
    by (intro div_pos_pos_trivial) (auto simp: doe_def)
  have "(r - e) div 365 = min 3 (r div 365)"
  proof (cases "r \<ge> 1364")
    case True
    then have "1095 \<le> r - e" "r - e < 1460" "1095 \<le> r" "r \<le> 1460"
      using assms by (auto simp: e_def)
    then show ?thesis by (auto simp: min_def)
  next
    case False
    then have "e = 0" using assms by (simp add: e_def)
    moreover have "r div 365 \<le> 3" using False by simp
    ultimately show ?thesis by (simp add: min_def)
  qed
  moreover have "doe - doe div 1460 + doe div 36524 - doe div 146096 = 365 * (100 * b + 4 * t) + (r - e)"
    unfolding d1 d2 d3 by (simp add: doe_def)
  ultimately show ?thesis
    unfolding yoe_of_def doe_def[symmetric] by (simp only: div_mult_self4)
qed

lemma leap_400: "leap (y + 400 * e) \<longleftrightarrow> leap y"
proof -
  have "(y + 400 * e) mod 4 = y mod 4" "(y + 400 * e) mod 100 = y mod 100"
    "(y + 400 * e) mod 400 = y mod 400"
    using mod_mult_self2[of y 4 "100 * e"] mod_mult_self2[of y 100 "4 * e"] by simp_all
  then show ?thesis by (simp only: leap_def)
qed

lemma doe_parts:
  assumes "0 \<le> doe" "doe < 146096"
  obtains b t r :: int where "doe = 36524 * b + 1461 * t + r" "0 \<le> b" "b \<le> 3" "0 \<le> t" "t \<le> 24"
    "0 \<le> r" "r \<le> 1460" "t = 24 \<longrightarrow> r \<le> 1459"
proof -
  define b where "b = doe div 36524"
  define u where "u = doe mod 36524"
  define t where "t = u div 1461"
  define r where "r = u mod 1461"
  have u: "0 \<le> u" "u < 36524" "doe = 36524 * b + u" by (simp_all add: u_def b_def)
  have r: "0 \<le> r" "r < 1461" "u = 1461 * t + r" by (simp_all add: r_def t_def)
  show thesis
    by (rule that[of b t r]; use assms u r in linarith)
qed

lemma year_start_parts:
  assumes "0 \<le> b" "0 \<le> t" "t \<le> 24" "0 \<le> k" "k \<le> 3"
  shows "year_start (100 * b + 4 * t + k) = 36524 * b + 1461 * t + 365 * k"
proof -
  have "(100 * b + 4 * t + k) div 4 = 25 * b + t"
    by (rule int_div_pos_eq[of _ _ _ k]) (use assms in auto)
  moreover have "(100 * b + 4 * t + k) div 100 = b"
    by (rule int_div_pos_eq[of _ _ _ "4 * t + k"]) (use assms in auto)
  ultimately show ?thesis by (simp add: year_start_def)
qed

lemma leap_parts:
  assumes "0 \<le> t" "t \<le> 23"
  shows "leap (100 * b + 4 * t + 4)"
proof -
  have "(100 * b + 4 * t + 4) mod 4 = 0" by presburger
  moreover have "(100 * b + 4 * t + 4) mod 100 = 4 * t + 4"
    using assms by (intro int_mod_pos_eq[of _ _ b]) auto
  ultimately show ?thesis using assms by (simp add: leap_def)
qed

lemma yoe_of_spec:
  assumes "0 \<le> doe" "doe < 146097"
  shows "0 \<le> yoe_of doe" "yoe_of doe \<le> 399" "year_start (yoe_of doe) \<le> doe"
    "doe - year_start (yoe_of doe) \<le> 365"
    "doe - year_start (yoe_of doe) = 365 \<Longrightarrow> leap (yoe_of doe + 1)"
proof -
  have "0 \<le> yoe_of doe \<and> yoe_of doe \<le> 399 \<and> year_start (yoe_of doe) \<le> doe
      \<and> doe - year_start (yoe_of doe) \<le> 365
      \<and> (doe - year_start (yoe_of doe) = 365 \<longrightarrow> leap (yoe_of doe + 1))"
  proof (cases "doe = 146096")
    case True
    then show ?thesis by (simp add: yoe_of_def year_start_def leap_def)
  next
    case False
    with assms have "doe < 146096" by simp
    with assms(1) obtain b t r where doe: "doe = 36524 * b + 1461 * t + r" and b: "0 \<le> b" "b \<le> 3"
      and t: "0 \<le> t" "t \<le> 24" and r: "0 \<le> r" "r \<le> 1460" "t = 24 \<longrightarrow> r \<le> 1459"
      by (rule doe_parts)
    define k where "k = min 3 (r div 365)"
    have k: "0 \<le> k" "k \<le> 3" "365 * k \<le> r" "r - 365 * k \<le> 365" "r - 365 * k = 365 \<Longrightarrow> k = 3 \<and> r = 1460"
      using r(1,2) by (auto simp: k_def min_def) presburger+
    have q: "yoe_of doe = 100 * b + 4 * t + k"
      unfolding doe k_def using b t r by (intro yoe_of_parts) auto
    have ys: "year_start (yoe_of doe) = 36524 * b + 1461 * t + 365 * k"
      unfolding q using b t k by (intro year_start_parts)
    have "leap (yoe_of doe + 1)" if "r - 365 * k = 365"
    proof -
      from k(5)[OF that] r(3) t have "k = 3" "t \<le> 23" by force+
      with leap_parts[of t b] t show ?thesis by (simp add: q add_ac)
    qed
    moreover have "0 \<le> yoe_of doe" "yoe_of doe \<le> 399" using b t k by (auto simp: q)
    moreover have "doe - year_start (yoe_of doe) = r - 365 * k" unfolding ys by (simp add: doe)
    ultimately show ?thesis using k by auto
  qed
  then show "0 \<le> yoe_of doe" "yoe_of doe \<le> 399" "year_start (yoe_of doe) \<le> doe"
    "doe - year_start (yoe_of doe) \<le> 365"
    "doe - year_start (yoe_of doe) = 365 \<Longrightarrow> leap (yoe_of doe + 1)" by auto
qed

text \<open>Months, counted from March.\<close>

definition march_length :: "int \<Rightarrow> int" where
  "march_length mp = (if mp \<in> {1, 3, 6, 8} then 30 else if mp = 11 then 29 else 31)"

lemma march_of_doy:
  assumes "0 \<le> doy" "doy \<le> 365"
  shows "0 \<le> (5 * doy + 2) div 153" "(5 * doy + 2) div 153 \<le> 11"
    "1 \<le> doy - (153 * ((5 * doy + 2) div 153) + 2) div 5 + 1"
    "doy - (153 * ((5 * doy + 2) div 153) + 2) div 5 + 1 \<le> march_length ((5 * doy + 2) div 153)"
    "(5 * doy + 2) div 153 = 11 \<Longrightarrow> doy - (153 * ((5 * doy + 2) div 153) + 2) div 5 + 1 = 29 \<Longrightarrow> doy = 365"
proof -
  have "\<forall>x \<in> set [0 .. 365]. 0 \<le> (5 * x + 2) div 153 \<and> (5 * x + 2) div 153 \<le> 11
     \<and> 1 \<le> x - (153 * ((5 * x + 2) div 153) + 2) div 5 + 1
     \<and> x - (153 * ((5 * x + 2) div 153) + 2) div 5 + 1 \<le> march_length ((5 * x + 2) div 153)
     \<and> ((5 * x + 2) div 153 = 11 \<longrightarrow> x - (153 * ((5 * x + 2) div 153) + 2) div 5 + 1 = 29 \<longrightarrow> x = 365)"
    by code_simp
  with assms show "0 \<le> (5 * doy + 2) div 153" "(5 * doy + 2) div 153 \<le> 11"
    "1 \<le> doy - (153 * ((5 * doy + 2) div 153) + 2) div 5 + 1"
    "doy - (153 * ((5 * doy + 2) div 153) + 2) div 5 + 1 \<le> march_length ((5 * doy + 2) div 153)"
    "(5 * doy + 2) div 153 = 11 \<Longrightarrow> doy - (153 * ((5 * doy + 2) div 153) + 2) div 5 + 1 = 29 \<Longrightarrow> doy = 365"
    by auto
qed

lemma doy_of_march:
  assumes "0 \<le> mp" "mp \<le> 11" "1 \<le> d" "d \<le> march_length mp"
  defines "doy \<equiv> (153 * mp + 2) div 5 + d - 1"
  shows "0 \<le> doy" "doy \<le> 365" "(5 * doy + 2) div 153 = mp" "doy = 365 \<Longrightarrow> mp = 11 \<and> d = 29"
proof -
  have "\<forall>m \<in> set [0 .. 11]. \<forall>x \<in> set [1 .. march_length m].
      0 \<le> (153 * m + 2) div 5 + x - 1 \<and> (153 * m + 2) div 5 + x - 1 \<le> 365
    \<and> (5 * ((153 * m + 2) div 5 + x - 1) + 2) div 153 = m
    \<and> ((153 * m + 2) div 5 + x - 1 = 365 \<longrightarrow> m = 11 \<and> x = 29)"
    by code_simp
  with assms show "0 \<le> doy" "doy \<le> 365" "(5 * doy + 2) div 153 = mp" "doy = 365 \<Longrightarrow> mp = 11 \<and> d = 29"
    by (auto simp: doy_def)
qed

lemma year_start_step:
  assumes "0 \<le> q" "q \<le> 398"
  shows "year_start (q + 1) = year_start q + 365 + (if leap (q + 1) then 1 else 0)"
proof -
  have "\<forall>x \<in> set [0 .. 398]. year_start (x + 1) = year_start x + 365 + (if leap (x + 1) then 1 else 0)"
    by code_simp
  from bspec[OF this, of q] show ?thesis using assms by (simp only: set_upto atLeastAtMost_iff)
qed

lemma year_start_mono: "p \<le> q \<Longrightarrow> year_start p \<le> year_start q"
proof -
  assume "p \<le> q"
  then have "q div 100 \<le> (p + (q - p) * 100) div 100" "p div 4 \<le> q div 4"
    by (auto intro!: zdiv_mono1)
  then have "q div 100 \<le> p div 100 + (q - p)" "p div 4 \<le> q div 4" by simp_all
  with \<open>p \<le> q\<close> show ?thesis unfolding year_start_def by linarith
qed

lemma yoe_of_unique:
  assumes "0 \<le> p" "p \<le> 399" "0 \<le> doy" "doy \<le> 365" "doy = 365 \<Longrightarrow> leap (p + 1)"
  defines "doe \<equiv> year_start p + doy"
  shows "0 \<le> doe" "doe < 146097" "yoe_of doe = p"
proof -
  have ends: "year_start 0 = 0" "year_start 399 = 145731" by (simp_all add: year_start_def)
  show range: "0 \<le> doe" "doe < 146097"
    using year_start_mono[of 0 p] year_start_mono[of p 399] assms by (auto simp: ends)
  define q where "q = yoe_of doe"
  note spec = yoe_of_spec[OF range, folded q_def]
  show "q = p"
  proof (rule ccontr)
    assume "q \<noteq> p"
    then consider "q < p" | "p < q" by linarith
    then show False
    proof cases
      case 1
      then have "year_start (q + 1) \<le> year_start p" by (intro year_start_mono) simp
      then show False
        using 1 assms(1-4) spec year_start_step[of q] by (auto simp: doe_def split: if_splits)
    next
      case 2
      then have "year_start (p + 1) \<le> year_start q" by (intro year_start_mono) simp
      then show False
        using 2 assms(1-5) spec year_start_step[of p] by (auto simp: doe_def split: if_splits)
    qed
  qed
qed

lemma floor_era:
  fixes y :: int
  shows "(let shifted = (if y \<ge> 0 then y else y - 399) in sgn shifted * (\<bar>shifted\<bar> div 400)) = y div 400"
proof (cases "y \<ge> 0")
  case False
  have "399 - y = 400 * - (y div 400) + (399 - y mod 400)"
    using div_mult_mod_eq[of y 400] by linarith
  then have "(399 - y) div 400 = - (y div 400)"
    by (rule int_div_pos_eq) (use pos_mod_bound[of 400 y] pos_mod_sign[of 400 y] in linarith)+
  with False show ?thesis by (simp add: Let_def)
next
  case True
  then show ?thesis by (cases "y = 0") (simp_all add: Let_def)
qed

lemma days_from_civil_eq:
  "days_from_civil year month day =
     (let y = (if month \<le> 2 then year - 1 else year); mp = (month + 9) mod 12
      in (y div 400) * 146097 + year_start (y mod 400) + ((153 * mp + 2) div 5 + day - 1) - 719468)"
proof -
  define y where "y = (if month \<le> 2 then year - 1 else year)"
  have yoe: "y - y div 400 * 400 = y mod 400" by (simp add: minus_div_mult_eq_mod)
  show ?thesis
    unfolding days_from_civil_def Let_def y_def[symmetric] floor_era[of y, unfolded Let_def] yoe
    by (simp add: year_start_def)
qed

lemma days_civil_days:
  assumes "civil_from_days z = (y, m, d)"
  shows "valid_date y m d" "days_from_civil y m d = z"
proof -
  define era where "era = (z + 719468) div 146097"
  define doe where "doe = (z + 719468) mod 146097"
  define yoe where "yoe = yoe_of doe"
  define doy where "doy = doe - year_start yoe"
  define mp where "mp = (5 * doy + 2) div 153"
  have z: "z = era * 146097 + doe - 719468" "z + 719468 - era * 146097 = doe"
    by (simp_all add: era_def doe_def minus_div_mult_eq_mod algebra_simps)
  have doe: "0 \<le> doe" "doe < 146097" by (simp_all add: doe_def)
  note spec = yoe_of_spec[OF doe, folded yoe_def]
  have doy: "0 \<le> doy" "doy \<le> 365" using spec by (auto simp: doy_def)
  note march = march_of_doy[OF doy, folded mp_def]
  have "civil_from_days z = (let month = (if mp < 10 then mp + 3 else mp - 9) in
      (yoe + era * 400 + (if month \<le> 2 then 1 else 0), month, doy - (153 * mp + 2) div 5 + 1))"
    unfolding civil_from_days_def Let_def era_def[symmetric] z(2) yoe_def[symmetric]
      year_start_def[of yoe, symmetric] doy_def[symmetric] mp_def[symmetric] ..
  with assms have day: "d = doy - (153 * mp + 2) div 5 + 1"
    and m: "m = (if mp < 10 then mp + 3 else mp - 9)"
    and y: "y = yoe + era * 400 + (if m \<le> 2 then 1 else 0)"
    by (auto simp: Let_def)
  have mp_back: "(m + 9) mod 12 = mp" using m march mod_pos_pos_trivial[of mp 12]
    by (cases "mp < 10") auto
  have base: "(if m \<le> 2 then y - 1 else y) = yoe + era * 400" by (simp add: y)
  have "(yoe + era * 400) div 400 = era" "(yoe + era * 400) mod 400 = yoe"
    using spec by simp_all
  then show "days_from_civil y m d = z"
    by (simp add: days_from_civil_eq base mp_back day z(1) doy_def)
  show "valid_date y m d"
  proof (cases "mp = 11")
    case True
    have d: "1 \<le> d" "d \<le> 29" using march(3,4) True unfolding day by (simp_all add: march_length_def)
    have "leap y" if "d = 29"
    proof -
      have "doy = 365" using march(5) True that day by simp
      then have "leap (yoe + 1)" using spec(5) by (simp add: doy_def)
      then show ?thesis using leap_400[of "yoe + 1" era] True by (simp add: y m algebra_simps)
    qed
    with d True show ?thesis by (cases "d = 29") (auto simp: valid_date_def month_length_def m)
  next
    case False
    have d: "1 \<le> d" "d \<le> march_length mp" using march(3,4) unfolding day by simp_all
    have "1 \<le> m" "m \<le> 12" using march(1,2) by (auto simp: m)
    moreover have "march_length mp = month_length y m"
      using False march(1,2) by (auto simp: m march_length_def month_length_def)
    ultimately show ?thesis using d by (simp add: valid_date_def)
  qed
qed

lemma civil_days_civil:
  assumes "valid_date y m d"
  shows "civil_from_days (days_from_civil y m d) = (y, m, d)"
proof -
  define y' where "y' = (if m \<le> 2 then y - 1 else y)"
  define mp where "mp = (m + 9) mod 12"
  define doy where "doy = (153 * mp + 2) div 5 + d - 1"
  define doe where "doe = year_start (y' mod 400) + doy"
  have mp: "0 \<le> mp" "mp \<le> 11" by (simp_all add: mp_def)
  have "\<forall>x \<in> set [1 .. 12]. x = (if (x + 9) mod 12 < 10 then (x + 9) mod 12 + 3 else (x + 9) mod 12 - (9 :: int))"
    by code_simp
  from bspec[OF this, of m] have m: "m = (if mp < 10 then mp + 3 else mp - 9)"
    using assms by (simp only: set_upto atLeastAtMost_iff valid_date_def mp_def)
  have d: "1 \<le> d" "d \<le> march_length mp"
    using assms mp by (auto simp: valid_date_def month_length_def march_length_def m split: if_splits)
  note dm = doy_of_march[OF mp d, folded doy_def]
  have leap: "leap (y' mod 400 + 1)" if "doy = 365"
  proof -
    from dm(4)[OF that] have "mp = 11" "d = 29" by auto
    then have "leap (y' + 1)"
      using assms by (auto simp: valid_date_def month_length_def m y'_def split: if_splits)
    moreover have "y' + 1 = y' mod 400 + 1 + 400 * (y' div 400)" by simp
    ultimately show ?thesis by (metis leap_400)
  qed
  have ym: "0 \<le> y' mod 400" "y' mod 400 \<le> 399" using pos_mod_bound[of 400 y'] by simp_all
  have un: "0 \<le> doe" "doe < 146097" "yoe_of doe = y' mod 400"
    unfolding doe_def using yoe_of_unique[OF ym dm(1,2)] leap by auto
  have days: "days_from_civil y m d + 719468 = y' div 400 * 146097 + doe"
    by (simp add: days_from_civil_eq Let_def y'_def[symmetric] mp_def[symmetric] doe_def doy_def)
  have era: "(y' div 400 * 146097 + doe) div 146097 = y' div 400"
    using un(1,2) by (intro int_div_pos_eq[of _ _ _ doe]) simp_all
  have doe_only: "y' div 400 * 146097 + doe - y' div 400 * 146097 = doe" by simp
  have doy_only: "doe - year_start (y' mod 400) = doy" by (simp add: doe_def)
  have year: "y' mod 400 + y' div 400 * 400 = y'" by simp
  have day: "doy - (153 * mp + 2) div 5 + 1 = d" by (simp add: doy_def)
  show ?thesis
    unfolding civil_from_days_def Let_def days era doe_only un(3) year_start_def[of "y' mod 400", symmetric]
      doy_only dm(3) m[symmetric] day year
    by (simp add: y'_def)
qed

text \<open>
  The civil date of a day number and the day number of a civil date are inverse to each
  other, over all of time: exactly the dates of the Gregorian calendar are produced, and each
  gives its own day back.
\<close>

theorem civil_days_inverse:
  "civil_from_days z = (y, m, d) \<longleftrightarrow> valid_date y m d \<and> days_from_civil y m d = z"
  using days_civil_days civil_days_civil by auto

section \<open>Timestamps\<close>

definition iso_utc :: "int \<Rightarrow> str" where
  "iso_utc secs0 =
     (let secs = max secs0 0; days = secs div 86400; rem = secs mod 86400 in
      case civil_from_days days of (year, month, day) \<Rightarrow>
        pad 4 year @ [45] @ pad 2 month @ [45] @ pad 2 day @ [84]
        @ pad 2 (rem div 3600) @ [58] @ pad 2 (rem mod 3600 div 60) @ [58] @ pad 2 (rem mod 60) @ [90])"

definition strip_suffix_char :: "rchar \<Rightarrow> str \<Rightarrow> str option" where
  "strip_suffix_char c s = (if s \<noteq> [] \<and> last s = c then Some (butlast s) else None)"

definition nth_part :: "nat \<Rightarrow> str list \<Rightarrow> str option" where
  "nth_part k ps = (if k < length ps then Some (ps ! k) else None)"

text \<open>Each \<^verbatim>\<open>?\<close> of the source is one \<open>Option.bind\<close>; parts after the third are never read.\<close>

definition parse_iso :: "str \<Rightarrow> int option" where
  "parse_iso s0 =
     Option.bind (strip_suffix_char 90 s0) (\<lambda>s.
     Option.bind (split_once 84 s) (\<lambda>(date, time).
     let date_parts = split_on 45 date; time_parts = split_on 58 time in
     Option.bind (Option.bind (nth_part 0 date_parts) parse_i64) (\<lambda>year.
     if \<not> (0 \<le> year \<and> year \<le> 9999) then None else
     Option.bind (Option.bind (nth_part 1 date_parts) parse_u32) (\<lambda>month.
     Option.bind (Option.bind (nth_part 2 date_parts) parse_u32) (\<lambda>day.
     Option.bind (Option.bind (nth_part 0 time_parts) parse_i64) (\<lambda>hour.
     Option.bind (Option.bind (nth_part 1 time_parts) parse_i64) (\<lambda>minute.
     Option.bind (Option.bind (nth_part 2 time_parts)
        (\<lambda>p. Option.bind (nth_part 0 (split_on 46 p)) parse_i64)) (\<lambda>second.
     if \<not> (1 \<le> month \<and> month \<le> 12) \<or> \<not> (1 \<le> day \<and> day \<le> 31) \<or> \<not> (0 \<le> hour \<and> hour \<le> 23)
        \<or> \<not> (0 \<le> minute \<and> minute \<le> 59) \<or> \<not> (0 \<le> second \<and> second \<le> 59) then None
     else Some (days_from_civil year month day * 86400 + hour * 3600 + minute * 60 + second)))))))))"

lemma pad_free: "0 \<le> i \<Longrightarrow> \<not> is_ascii_digit c \<Longrightarrow> c \<notin> set (pad w i)"
  using pad_chars by blast

lemma split_on_pad:
  assumes "0 \<le> i" "\<not> is_ascii_digit c"
  shows "split_on c (pad w i) = [pad w i]" "split_on c (pad w i @ c # t) = pad w i # split_on c t"
  using assms by (simp_all add: pad_free split_on_free split_on_append)

lemma not_digit_separators: "\<not> is_ascii_digit 45" "\<not> is_ascii_digit 46" "\<not> is_ascii_digit 58" "\<not> is_ascii_digit 84"
  by (simp_all add: is_ascii_digit_def)

lemma parse_iso_parts:
  assumes "0 \<le> y" "y \<le> 9999" "1 \<le> m" "m \<le> 12" "1 \<le> d" "d \<le> 31"
    and "0 \<le> h" "h \<le> 23" "0 \<le> mi" "mi \<le> 59" "0 \<le> sec" "sec \<le> 59"
  shows "parse_iso (pad 4 y @ [45] @ pad 2 m @ [45] @ pad 2 d @ [84] @ pad 2 h @ [58] @ pad 2 mi
      @ [58] @ pad 2 sec @ [90]) = Some (days_from_civil y m d * 86400 + h * 3600 + mi * 60 + sec)"
proof -
  let ?date = "pad 4 y @ 45 # pad 2 m @ 45 # pad 2 d"
  let ?time = "pad 2 h @ 58 # pad 2 mi @ 58 # pad 2 sec"
  have free: "84 \<notin> set ?date"
    using assms by (simp add: pad_free not_digit_separators)
  have "strip_suffix_char 90 (?date @ 84 # ?time @ [90]) = Some (?date @ 84 # ?time)"
    by (simp add: strip_suffix_char_def butlast_append)
  moreover have "split_once 84 (?date @ 84 # ?time) = Some (?date, ?time)"
    by (rule split_once_append[OF free])
  moreover have "split_on 45 ?date = [pad 4 y, pad 2 m, pad 2 d]"
    using assms by (simp add: split_on_pad not_digit_separators)
  moreover have "split_on 58 ?time = [pad 2 h, pad 2 mi, pad 2 sec]"
    using assms by (simp add: split_on_pad not_digit_separators)
  moreover have "split_on 46 (pad 2 sec) = [pad 2 sec]"
    using assms by (simp add: split_on_pad not_digit_separators)
  moreover have "parse_i64 (pad 4 y) = Some y" "parse_u32 (pad 2 m) = Some m" "parse_u32 (pad 2 d) = Some d"
    "parse_i64 (pad 2 h) = Some h" "parse_i64 (pad 2 mi) = Some mi" "parse_i64 (pad 2 sec) = Some sec"
    using assms by (auto intro!: parse_i64_pad parse_u_pad)
  ultimately show ?thesis
    using assms by (simp add: parse_iso_def nth_part_def)
qed

text \<open>The last day of the year 9999 is day 2932896.\<close>

lemma civil_year_bounds:
  assumes "civil_from_days z = (y, m, d)" "0 \<le> z" "z < 2932897"
  shows "0 \<le> y" "y \<le> 9999" "1 \<le> m" "m \<le> 12" "1 \<le> d" "d \<le> 31"
proof -
  from days_civil_days[OF assms(1)] have v: "valid_date y m d" and z: "days_from_civil y m d = z" by auto
  from v show md: "1 \<le> m" "m \<le> 12" "1 \<le> d" "d \<le> 31"
    by (auto simp: valid_date_def month_length_def split: if_splits)
  define y' where "y' = (if m \<le> 2 then y - 1 else y)"
  define mp where "mp = (m + 9) mod 12"
  define q where "q = y' div 400"
  define p where "p = y' mod 400"
  define doy where "doy = (153 * mp + 2) div 5 + d - 1"
  have mp: "0 \<le> mp" "mp \<le> 11" by (simp_all add: mp_def)
  then have "0 \<le> (153 * mp + 2) div 5" "(153 * mp + 2) div 5 \<le> 337" by auto
  then have doy: "0 \<le> doy" "doy \<le> 367" using md unfolding doy_def by linarith+
  have zq: "z + 719468 = q * 146097 + year_start p + doy"
    using z by (simp add: days_from_civil_eq Let_def y'_def[symmetric] mp_def[symmetric] q_def p_def doy_def)
  have p: "0 \<le> p" "p \<le> 399" "y' = 400 * q + p"
    using pos_mod_bound[of 400 y'] by (simp_all add: p_def q_def)
  have ys: "0 \<le> year_start p" "year_start p \<le> 145731"
    using year_start_mono[OF p(1)] year_start_mono[OF p(2)] by (simp_all add: year_start_def)
  have "0 \<le> q" using zq ys doy assms(2) by linarith
  moreover have "q \<le> 24" using zq ys doy assms(3) by linarith
  ultimately show "0 \<le> y" using p by (auto simp: y'_def split: if_splits)
  show "y \<le> 9999"
  proof (rule ccontr)
    assume "\<not> y \<le> 9999"
    with p \<open>q \<le> 24\<close> have edge: "q = 24" "p = 399" "m \<le> 2" by (auto simp: y'_def split: if_splits)
    with md have "m = 1 \<or> m = 2" by linarith
    then have "306 \<le> doy" using md by (auto simp: doy_def mp_def)
    with zq edge assms(3) show False by (simp add: year_start_def)
  qed
qed

text \<open>
  C38. Every moment of the years 1970 to 9999 survives being written and read back.
\<close>

theorem parse_iso_utc:
  assumes "0 \<le> secs" "secs < 253402300800"
  shows "parse_iso (iso_utc secs) = Some secs"
proof -
  obtain y m d where c: "civil_from_days (secs div 86400) = (y, m, d)" by (metis prod_cases3)
  note b = civil_year_bounds[OF c]
  have days: "0 \<le> secs div 86400" "secs div 86400 < 2932897" using assms by auto
  define rem where "rem = secs mod 86400"
  have rem: "0 \<le> rem" "rem < 86400" by (simp_all add: rem_def)
  have parts: "rem div 3600 * 3600 + rem mod 3600 div 60 * 60 + rem mod 60 = rem"
  proof -
    have "rem mod 3600 div 60 * 60 + rem mod 60 = rem mod 3600"
      using div_mult_mod_eq[of "rem mod 3600" 60] by (simp add: mod_mod_cancel)
    then show ?thesis using div_mult_mod_eq[of rem 3600] by linarith
  qed
  have "rem div 3600 \<le> 86399 div 3600" "rem mod 3600 div 60 \<le> 3599 div 60"
    using rem by (auto intro!: zdiv_mono1)
  with rem have clock: "0 \<le> rem div 3600" "rem div 3600 \<le> 23" "0 \<le> rem mod 3600 div 60"
    "rem mod 3600 div 60 \<le> 59" "0 \<le> rem mod 60" "rem mod 60 \<le> 59"
    by (simp_all add: pos_imp_zdiv_nonneg_iff)
  have "parse_iso (iso_utc secs) = Some (days_from_civil y m d * 86400 + rem div 3600 * 3600
      + rem mod 3600 div 60 * 60 + rem mod 60)"
    unfolding parse_iso_parts[OF b[OF days] clock, symmetric]
    by (simp only: iso_utc_def Let_def max_absorb1[OF assms(1)] c rem_def prod.case)
  also have "days_from_civil y m d = secs div 86400" by (rule days_civil_days(2)[OF c])
  also have "secs div 86400 * 86400 + rem div 3600 * 3600 + rem mod 3600 div 60 * 60 + rem mod 60 = secs"
    using parts div_mult_mod_eq[of secs 86400] unfolding rem_def by linarith
  finally show ?thesis .
qed

theorem parse_iso_utc_witness: "parse_iso (iso_utc 1772323199) = Some 1772323199"
  by (rule parse_iso_utc) simp_all

text \<open>
  The reader accepts more than its documentation promises: a day past the end of the month
  is taken as a day of the next one, and whatever follows a third part is ignored.
\<close>

theorem parse_iso_lenient:
  "parse_iso (lit ''2026-02-31T00:00:00Z'') = parse_iso (lit ''2026-03-03T00:00:00Z'')
   \<and> parse_iso (lit ''2026-02-31T00:00:00Z'') = Some 1772496000
   \<and> parse_iso (lit ''2026-03-03-junkT00:00:00:junkZ'') = Some 1772496000"
  by code_simp

end
