(* ===== verification/Watch_World.thy ===== *)
theory Watch_World
  imports Watch_Store Watch_Trust Calendar
begin

text \<open>
  The outside of the watch engine: the traits \<^verbatim>\<open>GithubWrite\<close>, \<^verbatim>\<open>ModelRunner\<close>, \<^verbatim>\<open>CodeWork\<close>,
  \<^verbatim>\<open>RecoverOps\<close>, \<^verbatim>\<open>Clock\<close>, \<^verbatim>\<open>Jitter\<close>, the audit log and the disk under the database
  (\<^verbatim>\<open>watch/engine.rs\<close>, \<^verbatim>\<open>claude.rs\<close>, \<^verbatim>\<open>code.rs\<close>, \<^verbatim>\<open>journal.rs\<close>, \<^verbatim>\<open>clock.rs\<close>).

  Every trait method is a field of \<open>world\<close>. Its answer may depend on everything that
  happened before, which is the trace, so a world is an arbitrary adversary: GitHub may
  change between two reads, a write may fail, time may go backwards. Every call, with its
  answer, is put on the trace, newest first; the safety properties speak about the trace.
\<close>

section \<open>What crosses the boundary\<close>

record issue_view =
  iv_open :: bool
  iv_labels :: "str list"
  iv_body_hash :: bytes
  iv_title :: str
  iv_body :: str
  iv_fork :: bool

record post =
  post_author :: str
  post_association :: str
  post_body :: str

datatype branch_update = Updated | UpToDate | Conflict

record merge_check =
  mc_green :: bool
  mc_head :: str
  mc_author :: str
  mc_approvers :: "(str \<times> str) list"
  mc_changes_requested :: bool
  mc_review_requested :: bool

record call =
  call_argv :: "str list"
  call_env :: "(str \<times> str) list"
  call_stdin :: str
  call_cwd :: "str option"

datatype tool_end = Output str | Killed

text \<open>The reply envelope of \<^verbatim>\<open>claude\<close>, as the derived deserialiser fills it.\<close>

record envelope =
  env_is_error :: bool
  env_structured_output :: "json option"
  env_result :: "str option"
  env_total_cost_usd :: "usd option"
  env_permission_denials :: "json list"

text \<open>An event, \<^verbatim>\<open>watch/event.rs\<close>, and what a poll of GitHub reads, \<^verbatim>\<open>source.rs\<close> and \<^verbatim>\<open>github.rs\<close>.\<close>

record event =
  ev_key :: str
  ev_repo :: str
  ev_kind :: on_event
  ev_author :: str
  ev_association :: str
  ev_object :: nat
  ev_number :: nat
  ev_updated_at :: int
  ev_body_hash :: bytes
  ev_labels :: "str list"
  ev_comment_head :: str

datatype source_error = RateLimited int | Unauthorized | Transient str | Malformed str

record http_reply =
  hr_status :: nat
  hr_etag :: "str option"
  hr_next :: "str option"
  hr_poll_interval :: "int option"
  hr_retry_after :: "int option"
  hr_remaining :: "int option"
  hr_reset :: "int option"

datatype item_label = LabelName str | LabelObject str

record item =
  it_id :: nat
  it_number :: nat
  it_created_at :: str
  it_updated_at :: str
  it_login :: str
  it_author_association :: str
  it_is_pull_request :: bool
  it_labels :: "item_label list"
  it_body :: "str option"
  it_html_url :: "str option"
  it_issue_url :: "str option"
  it_pull_request_url :: "str option"

text \<open>The settings of a pass, \<^verbatim>\<open>watch/mod.rs\<close>.\<close>

record settings =
  se_enabled :: bool
  se_repos :: "str list"
  se_poll_seconds :: int
  se_max_catchup_seconds :: int
  se_allowed_authors :: "str list"
  se_fix :: diff_caps
  se_auto_merge :: bool
  se_actions_per_day :: int
  se_usd_per_day :: usd

datatype effect =
    Clock int
  | Disk "store_error option"
  | Audit int str str str
  | Picked int
  | Issue str nat "str + issue_view"
  | AddLabels str nat "str list" "str + unit"
  | HasComment str nat str "str + bool"
  | AddComment str nat str "str + unit"
  | UpdateBranchCall str nat "str + branch_update"
  | MergeCheck str nat "str + merge_check"
  | Merge str nat str "str + unit"
  | Diff str nat "str + str"
  | HasReview str nat str "str + bool"
  | PendingReview str nat str "str + unit"
  | Thread str nat "str + post list"
  | RunModel call "str + str"
  | Checkout str nat str str "str + unit"
  | RunTool call "str + tool_end"
  | StagedSize str "str + int \<times> int"
  | Publish str str str "str + unit"
  | Discard str "str + unit"
  | RemoveWorktree str "str + unit"
  | BranchPushed str str "str + bool"
  | EnsureMarker work_row "str + unit"
  | HttpGet str "str option" "source_error + http_reply \<times> bytes"
  | RuleKeys "str + str list"
  | Lookup str str "str + json option list"
  | LoadSettings "str + settings"
  | StopAsked bool
  | Printed str
  | Slept int

type_synonym trace = "effect list"

record world =
  wo_now :: "trace \<Rightarrow> int"
  wo_disk :: "trace \<Rightarrow> store_error option"
  wo_pick :: "trace \<Rightarrow> int \<Rightarrow> int"
  wo_issue :: "trace \<Rightarrow> str \<Rightarrow> nat \<Rightarrow> str + issue_view"
  wo_add_labels :: "trace \<Rightarrow> str \<Rightarrow> nat \<Rightarrow> str list \<Rightarrow> str + unit"
  wo_has_comment :: "trace \<Rightarrow> str \<Rightarrow> nat \<Rightarrow> str \<Rightarrow> str + bool"
  wo_add_comment :: "trace \<Rightarrow> str \<Rightarrow> nat \<Rightarrow> str \<Rightarrow> str + unit"
  wo_update_branch :: "trace \<Rightarrow> str \<Rightarrow> nat \<Rightarrow> str + branch_update"
  wo_merge_check :: "trace \<Rightarrow> str \<Rightarrow> nat \<Rightarrow> str + merge_check"
  wo_merge :: "trace \<Rightarrow> str \<Rightarrow> nat \<Rightarrow> str \<Rightarrow> str + unit"
  wo_diff :: "trace \<Rightarrow> str \<Rightarrow> nat \<Rightarrow> str + str"
  wo_has_review :: "trace \<Rightarrow> str \<Rightarrow> nat \<Rightarrow> str \<Rightarrow> str + bool"
  wo_pending_review :: "trace \<Rightarrow> str \<Rightarrow> nat \<Rightarrow> str \<Rightarrow> str + unit"
  wo_thread :: "trace \<Rightarrow> str \<Rightarrow> nat \<Rightarrow> str + post list"
  wo_run_model :: "trace \<Rightarrow> call \<Rightarrow> str + str"
  wo_supported :: bool
  wo_worktree_path :: "str \<Rightarrow> str"
  wo_checkout :: "trace \<Rightarrow> str \<Rightarrow> nat \<Rightarrow> str \<Rightarrow> str \<Rightarrow> str + unit"
  wo_run_tool :: "trace \<Rightarrow> call \<Rightarrow> str + tool_end"
  wo_staged_size :: "trace \<Rightarrow> str \<Rightarrow> str + int \<times> int"
  wo_publish :: "trace \<Rightarrow> str \<Rightarrow> str \<Rightarrow> str \<Rightarrow> str + unit"
  wo_discard :: "trace \<Rightarrow> str \<Rightarrow> str + unit"
  wo_remove_worktree :: "trace \<Rightarrow> str \<Rightarrow> str + unit"
  wo_branch_pushed :: "trace \<Rightarrow> str \<Rightarrow> str \<Rightarrow> str + bool"
  wo_ensure_marker :: "trace \<Rightarrow> work_row \<Rightarrow> str + unit"
  wo_http :: "trace \<Rightarrow> str \<Rightarrow> str option \<Rightarrow> source_error + http_reply \<times> bytes"
  wo_rule_keys :: "trace \<Rightarrow> str + str list"
  wo_lookup :: "trace \<Rightarrow> str \<Rightarrow> str \<Rightarrow> str + json option list"
  wo_settings :: "trace \<Rightarrow> str + settings"
  wo_stop :: "trace \<Rightarrow> bool"
  \<comment> \<open>\<^verbatim>\<open>serde_json\<close>, \<^verbatim>\<open>sha2\<close>, the \<^verbatim>\<open>Display\<close> of \<^verbatim>\<open>f64\<close> and of a store error\<close>
  wo_items :: "bytes \<Rightarrow> str + item list"
  wo_sha256 :: "str \<Rightarrow> bytes"
  wo_json_from_str :: "str \<Rightarrow> str + json"
  wo_rule_from_json :: "json \<Rightarrow> str + rule"
  wo_autonomy_from_json :: "json \<Rightarrow> autonomy option"
  wo_from_str :: "str \<Rightarrow> str + envelope"
  wo_json_text :: "json \<Rightarrow> str"
  wo_usd_text :: "usd \<Rightarrow> str"
  wo_error_text :: "store_error \<Rightarrow> str"
  \<comment> \<open>the settings the engine is built with\<close>
  wo_allowed :: "str list"
  wo_fix :: diff_caps
  wo_auto_merge :: bool
  wo_actions_per_day :: int
  wo_usd_per_day :: usd
  wo_me :: str

text \<open>
  A friendly world to evaluate examples in: everything succeeds, every pull request is open,
  green, approved by its owner's colleague and comes from the same repository.
\<close>

definition sample_view :: issue_view where
  "sample_view = \<lparr>iv_open = True, iv_labels = [], iv_body_hash = [1, 2], iv_title = lit ''a title'',
     iv_body = lit ''a body'', iv_fork = False\<rparr>"

definition sample_check :: merge_check where
  "sample_check = \<lparr>mc_green = True, mc_head = lit ''abc'', mc_author = lit ''me'',
     mc_approvers = [(lit ''colleague'', lit ''MEMBER'')], mc_changes_requested = False,
     mc_review_requested = False\<rparr>"

definition sample_settings :: settings where
  "sample_settings = \<lparr>se_enabled = True, se_repos = [lit ''o/r''], se_poll_seconds = 60,
     se_max_catchup_seconds = 259200, se_allowed_authors = [], se_fix = \<lparr>cap_files = 3, cap_lines = 500\<rparr>,
     se_auto_merge = True, se_actions_per_day = 50, se_usd_per_day = 5\<rparr>"

definition sample_envelope :: envelope where
  "sample_envelope = \<lparr>env_is_error = False, env_structured_output = None, env_result = Some (lit ''fine''),
     env_total_cost_usd = Some (1 / 10), env_permission_denials = []\<rparr>"

definition sample_reply :: http_reply where
  "sample_reply = \<lparr>hr_status = 200, hr_etag = None, hr_next = None, hr_poll_interval = None,
     hr_retry_after = None, hr_remaining = None, hr_reset = None\<rparr>"

definition sample_item_read :: item where
  "sample_item_read = \<lparr>it_id = 70, it_number = 7, it_created_at = lit ''2026-11-01T00:00:00Z'',
     it_updated_at = lit ''2026-11-01T00:00:00Z'', it_login = lit ''someone'', it_author_association = lit ''NONE'',
     it_is_pull_request = False, it_labels = [], it_body = Some (lit ''a body''), it_html_url = None,
     it_issue_url = None, it_pull_request_url = None\<rparr>"

definition sample_rule :: rule where
  "sample_rule = \<lparr>rule_on = IssueOpened,
     rule_filter = \<lparr>f_labels_any = [], f_authors = [], f_paths = [], f_base = None, f_comment_prefix = None,
                    f_allow_forks = False\<rparr>,
     rule_do = Label, rule_with = \<lparr>with_labels = [lit ''bug''], with_text = None\<rparr>, rule_decide = Rules,
     rule_autonomy = Auto, rule_limits = default_limits\<rparr>"

lemma sample_rule_sel [simp]:
  "rule_on sample_rule = IssueOpened" "rule_do sample_rule = Label" "rule_autonomy sample_rule = Auto"
  "rule_decide sample_rule = Rules" "with_labels (rule_with sample_rule) = [lit ''bug'']"
  "rule_limits sample_rule = default_limits"
  by (simp_all add: sample_rule_def)

definition sample_world :: world where
  "sample_world = \<lparr>wo_now = (\<lambda>_. 1793491200), wo_disk = (\<lambda>_. None), wo_pick = (\<lambda>_ c. c),
     wo_issue = (\<lambda>_ _ _. Inr sample_view), wo_add_labels = (\<lambda>_ _ _ _. Inr ()),
     wo_has_comment = (\<lambda>_ _ _ _. Inr False), wo_add_comment = (\<lambda>_ _ _ _. Inr ()),
     wo_update_branch = (\<lambda>_ _ _. Inr Updated), wo_merge_check = (\<lambda>_ _ _. Inr sample_check),
     wo_merge = (\<lambda>_ _ _ _. Inr ()), wo_diff = (\<lambda>_ _ _. Inr []), wo_has_review = (\<lambda>_ _ _ _. Inr False),
     wo_pending_review = (\<lambda>_ _ _ _. Inr ()),
     wo_thread = (\<lambda>_ _ _. Inr [\<lparr>post_author = lit ''me'', post_association = lit ''OWNER'', post_body = lit ''/fix''\<rparr>]),
     wo_run_model = (\<lambda>_ _. Inr []), wo_supported = True, wo_worktree_path = (\<lambda>b. lit ''/w/'' @ b),
     wo_checkout = (\<lambda>_ _ _ _ _. Inr ()), wo_run_tool = (\<lambda>_ _. Inr (Output [])),
     wo_staged_size = (\<lambda>_ _. Inr (1, 10)), wo_publish = (\<lambda>_ _ _ _. Inr ()), wo_discard = (\<lambda>_ _. Inr ()),
     wo_remove_worktree = (\<lambda>_ _. Inr ()), wo_branch_pushed = (\<lambda>_ _ _. Inr True),
     wo_ensure_marker = (\<lambda>_ _. Inr ()), wo_http = (\<lambda>_ _ _. Inr (sample_reply, [])),
     wo_rule_keys = (\<lambda>_. Inr []), wo_lookup = (\<lambda>_ _ _. Inr []), wo_settings = (\<lambda>_. Inr sample_settings),
     wo_stop = (\<lambda>_. False), wo_items = (\<lambda>_. Inr [sample_item_read]), wo_sha256 = (\<lambda>_. [1, 2]),
     wo_json_from_str = (\<lambda>_. Inl []), wo_rule_from_json = (\<lambda>_. Inl []), wo_autonomy_from_json = (\<lambda>_. None),
     wo_from_str = (\<lambda>_. Inr sample_envelope), wo_json_text = (\<lambda>_. []), wo_usd_text = (\<lambda>_. []),
     wo_error_text = (\<lambda>_. []), wo_allowed = [], wo_fix = \<lparr>cap_files = 3, cap_lines = 500\<rparr>,
     wo_auto_merge = True, wo_actions_per_day = 50, wo_usd_per_day = 5, wo_me = lit ''me''\<rparr>"

lemma sample_world_sel [simp]:
  "wo_now sample_world = (\<lambda>_. 1793491200)" "wo_disk sample_world = (\<lambda>_. None)"
  "wo_pick sample_world = (\<lambda>_ c. c)" "wo_issue sample_world = (\<lambda>_ _ _. Inr sample_view)"
  "wo_add_labels sample_world = (\<lambda>_ _ _ _. Inr ())" "wo_has_comment sample_world = (\<lambda>_ _ _ _. Inr False)"
  "wo_add_comment sample_world = (\<lambda>_ _ _ _. Inr ())" "wo_merge_check sample_world = (\<lambda>_ _ _. Inr sample_check)"
  "wo_merge sample_world = (\<lambda>_ _ _ _. Inr ())"
  "wo_http sample_world = (\<lambda>_ _ _. Inr (sample_reply, []))" "wo_items sample_world = (\<lambda>_. Inr [sample_item_read])"
  "wo_sha256 sample_world = (\<lambda>_. [1, 2])" "wo_me sample_world = lit ''me''" "wo_allowed sample_world = []"
  "wo_auto_merge sample_world" "wo_fix sample_world = \<lparr>cap_files = 3, cap_lines = 500\<rparr>"
  "wo_actions_per_day sample_world = 50" "wo_usd_per_day sample_world = 5" "wo_supported sample_world"
  by (simp_all add: sample_world_def)

section \<open>State and primitive steps\<close>

record engine =
  eng_store :: store
  eng_trace :: trace

datatype engine_error = Store store_error | NotProposed nat | NotDead nat

type_synonym ('e, 'a) eng = "(engine, 'e, 'a) prog"

text \<open>A call of a trait method: the answer goes on the trace.\<close>

definition ask :: "(trace \<Rightarrow> 'a) \<Rightarrow> ('a \<Rightarrow> effect) \<Rightarrow> ('e, 'a) eng" where
  "ask f note = (\<lambda>s. let a = f (eng_trace s) in
     (Inr a, s\<lparr>eng_trace := note a # eng_trace s\<rparr>))"

text \<open>A call of a trait method that returns a \<^verbatim>\<open>Result\<close>, with \<^verbatim>\<open>?\<close>.\<close>

definition ask_try :: "(trace \<Rightarrow> 'e + 'a) \<Rightarrow> ('e + 'a \<Rightarrow> effect) \<Rightarrow> ('e, 'a) eng" where
  "ask_try f note = bnd (ask f note) (\<lambda>r. case r of Inl e \<Rightarrow> throw e | Inr x \<Rightarrow> ret x)"

definition now_of :: "world \<Rightarrow> ('e, int) eng" where
  "now_of w = ask (wo_now w) Clock"

text \<open>
  An access to the database, which fails when the disk does. \<open>conv\<close> is the conversion of
  the error: \<^verbatim>\<open>From\<close> in the engine's own methods, \<^verbatim>\<open>to_string\<close> inside an action.
\<close>

definition access :: "world \<Rightarrow> (store_error \<Rightarrow> 'e) \<Rightarrow> (store, store_error, 'a) prog \<Rightarrow> ('e, 'a) eng" where
  "access w conv body = (\<lambda>s.
     let failed = wo_disk w (eng_trace s);
         s1 = s\<lparr>eng_trace := Disk failed # eng_trace s\<rparr>
     in case failed of Some e \<Rightarrow> (Inl (conv e), s1)
        | None \<Rightarrow> (case body (eng_store s) of
            (Inl e, st) \<Rightarrow> (Inl (conv e), s1\<lparr>eng_store := st\<rparr>)
          | (Inr x, st) \<Rightarrow> (Inr x, s1\<lparr>eng_store := st\<rparr>)))"

definition query :: "world \<Rightarrow> (store_error \<Rightarrow> 'e) \<Rightarrow> (store \<Rightarrow> 'a) \<Rightarrow> ('e, 'a) eng" where
  "query w conv q = access w conv (gets q)"

definition txn :: "world \<Rightarrow> (store_error \<Rightarrow> 'e) \<Rightarrow> (store, store_error, 'a) prog \<Rightarrow> ('e, 'a) eng" where
  "txn w conv body = access w conv (transaction body)"

text \<open>\<^verbatim>\<open>Engine::record\<close>: a failed write of the audit log is only reported.\<close>

definition record_audit :: "world \<Rightarrow> str \<Rightarrow> str \<Rightarrow> str \<Rightarrow> ('e, unit) eng" where
  "record_audit w r key outcome =
     bnd (now_of w) (\<lambda>t. modify (\<lambda>s. s\<lparr>eng_trace := Audit t r key outcome # eng_trace s\<rparr>))"

lemma ask_apply [prog_simps]:
  "ask f note s = (Inr (f (eng_trace s)), s\<lparr>eng_trace := note (f (eng_trace s)) # eng_trace s\<rparr>)"
  by (simp add: ask_def Let_def)

lemma ask_try_apply [prog_simps]:
  "ask_try f note s = (f (eng_trace s), s\<lparr>eng_trace := note (f (eng_trace s)) # eng_trace s\<rparr>)"
  by (simp add: ask_try_def prog_simps split: sum.splits)

lemma now_of_apply [prog_simps]:
  "now_of w s = (Inr (wo_now w (eng_trace s)),
     s\<lparr>eng_trace := Clock (wo_now w (eng_trace s)) # eng_trace s\<rparr>)"
  by (simp add: now_of_def prog_simps)

lemma query_apply [prog_simps]:
  "query w conv q s = (let d = wo_disk w (eng_trace s) in
     (case d of Some e \<Rightarrow> Inl (conv e) | None \<Rightarrow> Inr (q (eng_store s)),
      s\<lparr>eng_trace := Disk d # eng_trace s\<rparr>))"
  by (simp add: query_def access_def prog_simps Let_def split: option.splits)

lemma transaction_modify: "transaction (modify f) = modify f"
  by (simp add: transaction_def modify_def)

lemma txn_modify_apply [prog_simps]:
  "txn w conv (modify f) s = (let d = wo_disk w (eng_trace s);
       s1 = s\<lparr>eng_trace := Disk d # eng_trace s\<rparr> in
     (case d of Some e \<Rightarrow> (Inl (conv e), s1)
      | None \<Rightarrow> (Inr (), s1\<lparr>eng_store := f (eng_store s)\<rparr>)))"
  by (simp add: txn_def transaction_modify access_def prog_simps Let_def split: option.splits)

section \<open>Relations that every step keeps\<close>

text \<open>
  \<open>keeps R m\<close>: whatever happens in \<open>m\<close>, the state before and the state after are related.
  The rules go through a program clause by clause, so a lemma about every operation needs
  only the steps the operation is made of.
\<close>

named_theorems keeps_intros \<open>going through a program for a relation on states\<close>

definition keeps :: "('s \<Rightarrow> 's \<Rightarrow> bool) \<Rightarrow> ('s, 'e, 'a) prog \<Rightarrow> bool" where
  "keeps R m \<longleftrightarrow> (\<forall>s. R s (snd (m s)))"

lemma keepsD: "keeps R m \<Longrightarrow> m s = (r, s') \<Longrightarrow> R s s'"
  unfolding keeps_def by (metis snd_conv)

locale step_relation =
  fixes R :: "'s \<Rightarrow> 's \<Rightarrow> bool"
  assumes R_refl: "R s s"
    and R_trans: "R s t \<Longrightarrow> R t u \<Longrightarrow> R s u"
begin

lemma keeps_ret: "keeps R (ret x)"
  by (simp add: keeps_def prog_simps R_refl)

lemma keeps_throw: "keeps R (throw e)"
  by (simp add: keeps_def prog_simps R_refl)

lemma keeps_gets: "keeps R (gets f)"
  by (simp add: keeps_def prog_simps R_refl)

lemma keeps_bnd: "keeps R m \<Longrightarrow> (\<And>x. keeps R (f x)) \<Longrightarrow> keeps R (bnd m f)"
  unfolding keeps_def by (auto simp: prog_simps split: prod.splits sum.splits) (metis R_trans snd_conv)+

lemma keeps_andthen: "keeps R m \<Longrightarrow> keeps R n \<Longrightarrow> keeps R (andthen m n)"
  unfolding andthen_def by (rule keeps_bnd)

lemma keeps_caught: "keeps R m \<Longrightarrow> keeps R (caught m)"
  by (simp add: keeps_def prog_simps)

lemma keeps_modify: "(\<And>s. R s (f s)) \<Longrightarrow> keeps R (modify f)"
  by (simp add: keeps_def prog_simps)

lemmas keeps_rules = keeps_ret keeps_throw keeps_gets keeps_bnd keeps_andthen keeps_caught

end

lemma keeps_if [keeps_intros]: "keeps R m \<Longrightarrow> keeps R n \<Longrightarrow> keeps R (if b then m else n)"
  by simp

lemma keeps_option [keeps_intros]:
  "keeps R m \<Longrightarrow> (\<And>x. keeps R (f x)) \<Longrightarrow> keeps R (case z of None \<Rightarrow> m | Some x \<Rightarrow> f x)"
  by (cases z) auto

lemma keeps_sum [keeps_intros]:
  "(\<And>x. keeps R (f x)) \<Longrightarrow> (\<And>x. keeps R (g x)) \<Longrightarrow> keeps R (case z of Inl x \<Rightarrow> f x | Inr x \<Rightarrow> g x)"
  by (cases z) auto

lemma keeps_prod [keeps_intros]:
  "(\<And>x y. keeps R (f x y)) \<Longrightarrow> keeps R (case z of (x, y) \<Rightarrow> f x y)"
  by (cases z) auto

lemma keeps_let [keeps_intros]: "(\<And>x. keeps R (f x)) \<Longrightarrow> keeps R (let x = v in f x)"
  by simp

end
