(* ===== verification/Watch_Poll.thy ===== *)
theory Watch_Poll
  imports Watch_Engine
begin

text \<open>
  Where events come from: \<^verbatim>\<open>crates/cli/src/watch/github.rs\<close>, one poller per list endpoint,
  and the start of a source and the rules of a repository from \<^verbatim>\<open>watch/mod.rs\<close>. The HTTP
  client, the hash and the JSON reader belong to the world; the configuration database is
  read through \<open>wo_rule_keys\<close> and \<open>wo_lookup\<close>.
\<close>

section \<open>Endpoints and items\<close>

abbreviation PAGE_SIZE :: nat where "PAGE_SIZE \<equiv> 100"
abbreviation MAX_PAGES :: nat where "MAX_PAGES \<equiv> 10"
abbreviation MAX_BODY :: nat where "MAX_BODY \<equiv> 4 * 1024 * 1024"
abbreviation COMMENT_HEAD_CHARS :: nat where "COMMENT_HEAD_CHARS \<equiv> 64"

datatype endpoint = Issues | IssueComments | PullComments

fun endpoint_path :: "endpoint \<Rightarrow> str" where
  "endpoint_path Issues = lit ''issues''"
| "endpoint_path IssueComments = lit ''issues/comments''"
| "endpoint_path PullComments = lit ''pulls/comments''"

fun endpoint_name :: "endpoint \<Rightarrow> str" where
  "endpoint_name Issues = lit ''issues''"
| "endpoint_name IssueComments = lit ''issue-comments''"
| "endpoint_name PullComments = lit ''pull-comments''"

definition trailing_number :: "str option \<Rightarrow> nat" where
  "trailing_number url = (case url of None \<Rightarrow> 0
     | Some u \<Rightarrow> (case parse_u64 (last (split_on 47 u)) of None \<Rightarrow> 0 | Some n \<Rightarrow> nat n))"

definition first_url :: "str \<Rightarrow> endpoint \<Rightarrow> int \<Rightarrow> str" where
  "first_url repo ep since =
     lit ''https://api.github.com/repos/'' @ repo @ lit ''/'' @ endpoint_path ep
     @ lit ''?sort=updated&direction=asc&per_page='' @ dec_nat PAGE_SIZE @ lit ''&since='' @ iso_utc since
     @ (if ep = Issues then lit ''&state=all'' else [])"

fun label_text :: "item_label \<Rightarrow> str" where
  "label_text (LabelName n) = n"
| "label_text (LabelObject n) = n"

definition event_head :: "endpoint \<Rightarrow> item \<Rightarrow> str \<times> on_event \<times> nat" where
  "event_head ep it = (case ep of
     Issues \<Rightarrow>
       if it_is_pull_request it
       then (lit ''pr:'' @ dec_nat (it_number it) @ lit '':opened'', PrOpened, it_number it)
       else (lit ''issue:'' @ dec_nat (it_number it) @ lit '':opened'', IssueOpened, it_number it)
   | IssueComments \<Rightarrow>
       (lit ''comment:'' @ dec_nat (it_id it) @ lit '':created'',
        (case it_html_url it of None \<Rightarrow> IssueCommented
         | Some u \<Rightarrow> if contains_str u (lit ''/pull/'') then PrCommented else IssueCommented),
        it_id it)
   | PullComments \<Rightarrow>
       (lit ''reviewcomment:'' @ dec_nat (it_id it) @ lit '':created'', PrCommented, it_id it))"

definition item_event :: "world \<Rightarrow> str \<Rightarrow> endpoint \<Rightarrow> item \<Rightarrow> int \<Rightarrow> event" where
  "item_event w repo ep it updated_at =
     (let body = (case it_body it of None \<Rightarrow> [] | Some b \<Rightarrow> b) in
      case event_head ep it of (key, kind, obj) \<Rightarrow>
      \<lparr>ev_key = key, ev_repo = repo, ev_kind = kind, ev_author = it_login it,
       ev_association = it_author_association it, ev_object = obj,
       ev_number = (case ep of Issues \<Rightarrow> it_number it
         | IssueComments \<Rightarrow> trailing_number (it_issue_url it)
         | PullComments \<Rightarrow> trailing_number (it_pull_request_url it)),
       ev_updated_at = updated_at, ev_body_hash = wo_sha256 w body,
       ev_labels = map label_text (it_labels it),
       ev_comment_head = (if ep = Issues then [] else take COMMENT_HEAD_CHARS body)\<rparr>)"

section \<open>One page\<close>

text \<open>The items of a page in order: the first bad time stops it, what was read stays in \<^verbatim>\<open>out\<close>.\<close>

fun read_items ::
    "world \<Rightarrow> str \<Rightarrow> endpoint \<Rightarrow> int \<Rightarrow> item list \<Rightarrow> event list \<Rightarrow> int
     \<Rightarrow> (source_error + int) \<times> event list" where
  "read_items w repo ep since [] out newest = (Inr newest, out)"
| "read_items w repo ep since (it # is) out newest =
     (case parse_iso (it_updated_at it) of
        None \<Rightarrow> (Inl (Malformed (lit ''bad updated_at'')), out)
      | Some updated \<Rightarrow>
          (case parse_iso (it_created_at it) of
             None \<Rightarrow> (Inl (Malformed (lit ''bad created_at'')), out)
           | Some created \<Rightarrow>
               read_items w repo ep since is
                 (if created < since then out else out @ [item_event w repo ep it updated])
                 (max newest updated)))"

definition read_page ::
    "world \<Rightarrow> str \<Rightarrow> endpoint \<Rightarrow> int \<Rightarrow> bytes \<Rightarrow> event list \<Rightarrow> int
     \<Rightarrow> (source_error + nat \<times> int) \<times> event list" where
  "read_page w repo ep since body out newest = (case wo_items w body of
     Inl e \<Rightarrow> (Inl (Malformed e), out)
   | Inr is \<Rightarrow> (case read_items w repo ep since is out newest of
       (Inl e, out) \<Rightarrow> (Inl e, out)
     | (Inr newest, out) \<Rightarrow> (Inr (length is, newest), out)))"

text \<open>\<^verbatim>\<open>check\<close>: a status becomes an error, or is let through.\<close>

definition check_reply :: "world \<Rightarrow> http_reply \<Rightarrow> (source_error, unit) eng" where
  "check_reply w r =
     (if hr_status r = 200 \<or> hr_status r = 304 then ret ()
      else if hr_status r = 401 then throw Unauthorized
      else if hr_status r = 403 \<or> hr_status r = 429
      then (case hr_retry_after r of
          Some after \<Rightarrow> bnd (now_of w) (\<lambda>now. throw (RateLimited (now + after)))
        | None \<Rightarrow> (case (hr_remaining r, hr_reset r) of
            (Some rem, Some reset) \<Rightarrow>
              if rem = 0 then throw (RateLimited reset)
              else throw (Transient (lit ''HTTP '' @ dec_nat (hr_status r)))
          | _ \<Rightarrow> throw (Transient (lit ''HTTP '' @ dec_nat (hr_status r)))))
      else throw (Transient (lit ''HTTP '' @ dec_nat (hr_status r))))"

section \<open>One poll\<close>

datatype poll_result = Unchanged int | Events cursor int

record poll_state =
  ps_next_in :: int
  ps_newest :: int
  ps_items :: nat
  ps_first_etag :: "str option"
  ps_out :: "event list"

text \<open>
  The loop over the pages: \<open>left\<close> pages may still be read. \<open>None\<close> as the result is the
  early return on status 304.
\<close>

definition or_zero :: "int option \<Rightarrow> int" where
  "or_zero v = (case v of None \<Rightarrow> 0 | Some n \<Rightarrow> n)"

definition note_wait :: "http_reply \<Rightarrow> poll_state \<Rightarrow> poll_state" where
  "note_wait r ps = ps\<lparr>ps_next_in :=
     max (max (ps_next_in ps) (or_zero (hr_poll_interval r))) (or_zero (hr_retry_after r))\<rparr>"

definition note_etag :: "bool \<Rightarrow> http_reply \<Rightarrow> poll_state \<Rightarrow> poll_state" where
  "note_etag is_first r ps = (if is_first then ps\<lparr>ps_first_etag := hr_etag r\<rparr> else ps)"

definition add_page :: "nat \<Rightarrow> int \<Rightarrow> event list \<Rightarrow> poll_state \<Rightarrow> poll_state" where
  "add_page n newest out ps = ps\<lparr>ps_out := out, ps_newest := newest, ps_items := ps_items ps + n\<rparr>"

fun read_pages ::
    "world \<Rightarrow> str \<Rightarrow> endpoint \<Rightarrow> int \<Rightarrow> nat \<Rightarrow> bool \<Rightarrow> str option \<Rightarrow> str \<Rightarrow> poll_state
     \<Rightarrow> (source_error, bool \<times> poll_state) eng" where
  "read_pages w repo ep since 0 is_first etag url ps = ret (True, ps)"
| "read_pages w repo ep since (Suc left) is_first etag url ps0 =
     bnd (ask_try (\<lambda>tr. wo_http w tr url etag) (HttpGet url etag)) (\<lambda>(r, body).
     andthen (check_reply w r)
     (let ps1 = note_wait r ps0
      in if hr_status r = 304 then ret (False, ps1)
         else if length body > MAX_BODY then throw (Malformed (lit ''reply body over 4 MiB''))
         else let ps2 = note_etag is_first r ps1 in
           (case read_page w repo ep since body (ps_out ps2) (ps_newest ps2) of
              (Inl e, _) \<Rightarrow> throw e
            | (Inr (n, newest), out) \<Rightarrow>
                let ps3 = add_page n newest out ps2 in
                (case hr_next r of
                   Some next_url \<Rightarrow>
                     if n \<ge> PAGE_SIZE then read_pages w repo ep since left False None next_url ps3
                     else ret (True, ps3)
                 | None \<Rightarrow> ret (True, ps3)))))"

definition stored_etag :: "cursor \<Rightarrow> str \<Rightarrow> str option" where
  "stored_etag c first = (if c_etag_url c = Some first then c_etag c else None)"

definition poll :: "world \<Rightarrow> str \<Rightarrow> endpoint \<Rightarrow> int \<Rightarrow> cursor \<Rightarrow> (source_error, poll_result \<times> event list) eng" where
  "poll w repo ep poll_seconds c =
     (let first = first_url repo ep (c_since c);
          ps = \<lparr>ps_next_in = poll_seconds, ps_newest = c_since c, ps_items = 0, ps_first_etag = None, ps_out = []\<rparr>
      in bnd (read_pages w repo ep (c_since c) MAX_PAGES True (stored_etag c first) first ps) (\<lambda>(changed, ps).
         if \<not> changed \<or> ps_items ps = 0 then ret (Unchanged (ps_next_in ps), ps_out ps)
         else let keeps_url = (ps_newest ps = c_since c) in
           ret (Events \<lparr>c_since = ps_newest ps,
                        c_etag_url = (if keeps_url then Some first else None),
                        c_etag = (if keeps_url then ps_first_etag ps else None),
                        c_next_poll_at = c_next_poll_at c\<rparr> (ps_next_in ps), ps_out ps)))"

section \<open>Where a source starts, and the rules of a repository\<close>

definition start_cursor :: "cursor option \<Rightarrow> int option \<Rightarrow> int \<Rightarrow> cursor \<times> bool" where
  "start_cursor stored since now =
     (let from = (\<lambda>t. \<lparr>c_since = t, c_etag_url = None, c_etag = None, c_next_poll_at = 0\<rparr>) in
      case since of
        Some t \<Rightarrow> (from t, True)
      | None \<Rightarrow> (case stored of Some c \<Rightarrow> (c, True) | None \<Rightarrow> (from now, False)))"

definition RULE_PREFIX :: str where "RULE_PREFIX = lit ''watch.rule.''"

text \<open>\<^verbatim>\<open>trim_start_matches\<close> removes the prefix as often as it is there.\<close>

function trim_prefixes :: "str \<Rightarrow> str \<Rightarrow> str" where
  "trim_prefixes p s = (if p \<noteq> [] \<and> starts_with s p then trim_prefixes p (drop (length p) s) else s)"
  by auto
termination
proof (relation "measure (\<lambda>(p, s). length s)")
  fix p s :: str
  assume "p \<noteq> [] \<and> starts_with s p"
  then have "p \<noteq> []" "s \<noteq> []" by (auto simp: starts_with_def)
  then show "((p, drop (length p) s), p, s) \<in> measure (\<lambda>(p, s). length s)" by simp
qed simp

declare trim_prefixes.simps [simp del]

fun as_str :: "json option \<Rightarrow> str option" where
  "as_str (Some (JStr s)) = Some s"
| "as_str _ = None"

definition nonempty :: "str option \<Rightarrow> str option" where
  "nonempty t = (case t of None \<Rightarrow> None | Some s \<Rightarrow> if s = [] then None else Some s)"

fun rules_of_keys :: "world \<Rightarrow> str \<Rightarrow> str list \<Rightarrow> named_rule list \<Rightarrow> (str, named_rule list) eng" where
  "rules_of_keys w repo [] rules = ret rules"
| "rules_of_keys w repo (key # keys) rules =
     bnd (ask_try (\<lambda>tr. wo_lookup w tr key repo) (Lookup key repo)) (\<lambda>tiers.
     let i = trim_prefixes RULE_PREFIX key in
     case resolve_rule (wo_json_from_str w) (wo_rule_from_json w) (map (\<lambda>t. nonempty (as_str t)) tiers) of
       Inl e \<Rightarrow> throw (lit ''rule '' @ i @ lit '': '' @ e)
     | Inr None \<Rightarrow> rules_of_keys w repo keys rules
     | Inr (Some r) \<Rightarrow> rules_of_keys w repo keys (rules @ [(i, r)]))"

definition WATCH_AUTONOMY :: str where "WATCH_AUTONOMY = lit ''watch.autonomy''"

definition repo_rules :: "world \<Rightarrow> str \<Rightarrow> (str, named_rule list \<times> autonomy) eng" where
  "repo_rules w repo =
     bnd (ask_try (wo_rule_keys w) RuleKeys) (\<lambda>keys.
     bnd (rules_of_keys w repo keys []) (\<lambda>rules.
     bnd (ask_try (\<lambda>tr. wo_lookup w tr WATCH_AUTONOMY repo) (Lookup WATCH_AUTONOMY repo)) (\<lambda>tiers.
     ret (rules, ceiling_of (List.map_filter (\<lambda>t. Option.bind t (wo_autonomy_from_json w)) tiers)))))"

section \<open>What a poll promises\<close>

definition event_ok :: "str \<Rightarrow> int \<Rightarrow> event \<Rightarrow> bool" where
  "event_ok repo newest e \<longleftrightarrow>
     ev_repo e = repo \<and> ev_updated_at e \<le> newest \<and> length (ev_comment_head e) \<le> COMMENT_HEAD_CHARS"

definition poll_ok :: "str \<Rightarrow> int \<Rightarrow> int \<Rightarrow> poll_state \<Rightarrow> bool" where
  "poll_ok repo since poll_seconds ps \<longleftrightarrow>
     since \<le> ps_newest ps \<and> poll_seconds \<le> ps_next_in ps \<and> (\<forall>e \<in> set (ps_out ps). event_ok repo (ps_newest ps) e)"

lemma item_event_ok: "updated \<le> newest \<Longrightarrow> event_ok repo newest (item_event w repo ep it updated)"
  by (cases "event_head ep it") (simp add: event_ok_def item_event_def Let_def)

lemma event_ok_mono: "event_ok repo a e \<Longrightarrow> a \<le> b \<Longrightarrow> event_ok repo b e"
  by (simp add: event_ok_def)

lemma read_items_ok:
  "read_items w repo ep since is out newest = (Inr newest', out') \<Longrightarrow>
   (\<forall>e \<in> set out. event_ok repo newest e) \<Longrightarrow>
   newest \<le> newest' \<and> (\<forall>e \<in> set out'. event_ok repo newest' e)"
proof (induction "is" arbitrary: out newest)
  case (Cons it "is")
  from Cons.prems(1) obtain updated created where
    t: "parse_iso (it_updated_at it) = Some updated" "parse_iso (it_created_at it) = Some created"
    and rest: "read_items w repo ep since is
        (if created < since then out else out @ [item_event w repo ep it updated]) (max newest updated)
      = (Inr newest', out')"
    by (auto split: option.splits)
  have "\<forall>e \<in> set (if created < since then out else out @ [item_event w repo ep it updated]).
      event_ok repo (max newest updated) e"
    using Cons.prems(2) by (auto intro: event_ok_mono item_event_ok)
  from Cons.IH[OF rest this] show ?case by auto
qed auto

lemma read_page_ok:
  assumes "read_page w repo ep since body out newest = (Inr (n, newest'), out')"
    and "\<forall>e \<in> set out. event_ok repo newest e"
  shows "newest \<le> newest' \<and> (\<forall>e \<in> set out'. event_ok repo newest' e)"
  using assms by (auto simp: read_page_def dest!: read_items_ok split: sum.splits prod.splits)

lemma poll_ok_steps:
  assumes "poll_ok repo since poll_seconds ps"
  shows "poll_ok repo since poll_seconds (note_wait r ps)"
    "poll_ok repo since poll_seconds (note_etag is_first r ps)"
    "read_page w repo ep since body (ps_out ps) (ps_newest ps) = (Inr (n, newest), out) \<Longrightarrow>
     poll_ok repo since poll_seconds (add_page n newest out ps)"
  using assms by (auto simp: poll_ok_def note_wait_def note_etag_def add_page_def dest: read_page_ok)

lemma read_pages_ok:
  "read_pages w repo ep since left is_first etag url ps s = (Inr (b, ps'), s') \<Longrightarrow>
   poll_ok repo since poll_seconds ps \<Longrightarrow> poll_ok repo since poll_seconds ps'"
proof (induction left arbitrary: is_first etag url ps s)
  case (Suc left)
  note ok = poll_ok_steps[OF poll_ok_steps(2)[OF poll_ok_steps(1)[OF Suc.prems(2)]]]
  from Suc.prems show ?case
    by (auto simp: prog_simps Let_def intro: poll_ok_steps ok Suc.IH
        split: sum.splits prod.splits if_splits option.splits)
qed (simp add: prog_simps)

text \<open>The pages of one poll are at most ten requests, whatever the outcome.\<close>

fun is_get :: "effect \<Rightarrow> bool" where
  "is_get (HttpGet _ _ _) = True"
| "is_get _ = False"

definition gets_made :: "trace \<Rightarrow> nat" where
  "gets_made tr = length (filter is_get tr)"

lemma gets_made_Cons [simp]: "gets_made (e # tr) = gets_made tr + (if is_get e then 1 else 0)"
  by (simp add: gets_made_def)

lemma check_reply_gets: "check_reply w r s = (x, s') \<Longrightarrow> gets_made (eng_trace s') = gets_made (eng_trace s)"
  by (auto simp: check_reply_def prog_simps split: option.splits if_splits)

lemma read_pages_gets:
  "gets_made (eng_trace (snd (read_pages w repo ep since left is_first etag url ps s)))
   \<le> gets_made (eng_trace s) + left"
proof (induction left arbitrary: is_first etag url ps s)
  case (Suc left)
  show ?case
    by (auto simp: prog_simps Let_def dest!: check_reply_gets intro!: order_trans[OF Suc.IH]
        split: sum.splits prod.splits if_splits option.splits)
qed (simp add: prog_simps)

text \<open>
  C28. A poll makes at most ten requests, asks to wait at least the configured time, never moves
  the cursor back, and reports only events of its own repository that the new cursor covers,
  with at most the first 64 characters of a comment.
\<close>

theorem poll_promises:
  assumes "poll w repo ep poll_seconds c s = (Inr (res, evs), s')"
  shows "gets_made (eng_trace s') \<le> gets_made (eng_trace s) + 10 \<and>
    (case res of Unchanged n \<Rightarrow> poll_seconds \<le> n
     | Events next n \<Rightarrow> poll_seconds \<le> n \<and> c_since c \<le> c_since next
         \<and> list_all (event_ok repo (c_since next)) evs)"
proof -
  define ps where "ps = \<lparr>ps_next_in = poll_seconds, ps_newest = c_since c, ps_items = 0,
    ps_first_etag = None, ps_out = []\<rparr>"
  define first where "first = first_url repo ep (c_since c)"
  from assms obtain b ps' where
    run: "read_pages w repo ep (c_since c) MAX_PAGES True (stored_etag c first) first ps s = (Inr (b, ps'), s')"
    and res: "(res, evs) = (if \<not> b \<or> ps_items ps' = 0 then (Unchanged (ps_next_in ps'), ps_out ps')
      else (Events \<lparr>c_since = ps_newest ps',
          c_etag_url = (if ps_newest ps' = c_since c then Some first else None),
          c_etag = (if ps_newest ps' = c_since c then ps_first_etag ps' else None),
          c_next_poll_at = c_next_poll_at c\<rparr> (ps_next_in ps'), ps_out ps'))"
    by (auto simp: poll_def Let_def prog_simps ps_def[symmetric] first_def[symmetric] simp del: read_pages.simps
        split: sum.splits prod.splits if_splits)
  have "poll_ok repo (c_since c) poll_seconds ps" by (simp add: poll_ok_def ps_def)
  from read_pages_ok[OF run this] have "poll_ok repo (c_since c) poll_seconds ps'" .
  moreover have "gets_made (eng_trace s') \<le> gets_made (eng_trace s) + 10"
    using read_pages_gets[of w repo ep "c_since c" MAX_PAGES True "stored_etag c first" first ps s] run
    by simp
  ultimately show ?thesis
    using res by (auto simp: poll_ok_def list_all_iff split: if_splits)
qed

definition sample_cursor :: cursor where
  "sample_cursor = \<lparr>c_since = 1793400000, c_etag_url = None, c_etag = None, c_next_poll_at = 0\<rparr>"

lemma sample_times: "parse_iso (lit ''2026-11-01T00:00:00Z'') = Some 1793491200"
  by code_simp

lemmas read_pages_ten = read_pages.simps(2)[where left = 9, simplified]

lemma sample_poll:
  "\<exists>nxt evs. fst (poll sample_world (lit ''o/r'') Issues 60 sample_cursor \<lparr>eng_store = empty_store, eng_trace = []\<rparr>)
     = Inr (Events nxt 60, evs) \<and> length evs = 1"
  by (simp add: poll_def read_pages_ten Let_def prog_simps sample_reply_def sample_cursor_def sample_item_read_def
      check_reply_def read_page_def sample_times note_wait_def note_etag_def add_page_def or_zero_def)

theorem poll_promises_witness:
  "\<exists>nxt evs. fst (poll sample_world (lit ''o/r'') Issues 60 sample_cursor \<lparr>eng_store = empty_store, eng_trace = []\<rparr>)
     = Inr (Events nxt 60, evs) \<and> length evs = 1
     \<and> c_since sample_cursor \<le> c_since nxt \<and> list_all (event_ok (lit ''o/r'') (c_since nxt)) evs"
proof -
  let ?run = "poll sample_world (lit ''o/r'') Issues 60 sample_cursor \<lparr>eng_store = empty_store, eng_trace = []\<rparr>"
  from sample_poll obtain nxt evs where "fst ?run = Inr (Events nxt 60, evs)" "length evs = 1" by blast
  then have run: "?run = (Inr (Events nxt 60, evs), snd ?run)" by (metis prod.collapse)
  from poll_promises[OF run] \<open>fst ?run = _\<close> \<open>length evs = 1\<close> show ?thesis by auto
qed

text \<open>
  The key of an issue or pull request event holds its number and not its repository. With
  two repositories watched, once an event of one was queued under a rule, the event with the
  same number of the other is taken for a repeat and never reaches the queue.
\<close>

theorem same_number_other_repo_dropped:
  assumes "t_seen s (ev_key (item_event w repo Issues it t) @ [58] @ i) \<noteq> None"
    and "it_number it' = it_number it" "it_is_pull_request it' = it_is_pull_request it"
  shows "\<exists>ds'. ingest_one me ceil max_catchup now seen_until (item_event w repo' Issues it' t') (i, r) (ids, ds) s
    = (Inr (ids, ds'), s)"
proof -
  have "ev_key (item_event w repo' Issues it' t') = ev_key (item_event w repo Issues it t)"
    using assms(2,3) by (simp add: item_event_def event_head_def Let_def)
  with assms(1) show ?thesis
    by (auto simp: ingest_one_def prog_simps queue_def insert_work_def Let_def)
qed

theorem same_number_other_repo_dropped_witness:
  "\<exists>ds'. ingest_one (lit ''me'') Propose 259200 1793491200 None
      (item_event sample_world (lit ''o/other'') Issues sample_item_read 1793491200)
      (lit ''triage'', sample_rule) ([], [])
      (empty_store\<lparr>t_seen := [lit ''issue:7:opened:triage'' \<mapsto> (0, [])]\<rparr>)
    = (Inr ([], ds'), empty_store\<lparr>t_seen := [lit ''issue:7:opened:triage'' \<mapsto> (0, [])]\<rparr>)"
proof (rule same_number_other_repo_dropped[of _ sample_world "lit ''o/r''" sample_item_read 1793491200])
  have "ev_key (item_event sample_world (lit ''o/r'') Issues sample_item_read 1793491200) @ [58] @ lit ''triage''
      = lit ''issue:7:opened:triage''"
    by code_simp
  then show "t_seen (empty_store\<lparr>t_seen := [lit ''issue:7:opened:triage'' \<mapsto> (0, [])]\<rparr>)
      (ev_key (item_event sample_world (lit ''o/r'') Issues sample_item_read 1793491200) @ [58] @ lit ''triage'')
    \<noteq> None" by simp
qed simp_all

end
