(* ===== verification/Watch_Laws.thy ===== *)
theory Watch_Laws
  imports Watch_Engine
begin

text \<open>
  What every operation of the engine is made of. \<open>stmt\<close> is one SQL statement on the tables;
  \<open>quiet\<close> effects are those nobody outside this machine can see. \<open>engine_law\<close> is the
  contract of a relation that the statements, the quiet effects and the actions keep; every
  public operation of the engine then keeps it too.
\<close>

section \<open>One statement\<close>

inductive stmt :: "store \<Rightarrow> store \<Rightarrow> bool" where
  stmt_cursor: "stmt s (set_cursor source c s)"
| stmt_state: "stmt s (set_state i state reason s)"
| stmt_journal: "stmt s (set_journal i st dir branch s)"
| stmt_clear: "stmt s (clear_journal i s)"
| stmt_control: "stmt s (set_control key v s)"
| stmt_stamp: "stmt s (stamp_approved i now s)"
| stmt_retry: "stmt s (set_retry i state reason attempts not_before s)"
| stmt_action: "stmt s (count_action day row usd now s)"
| stmt_spend: "stmt s (count_spend day r usd s)"
| stmt_insert: "insert_work item now s = (r, s') \<Longrightarrow> stmt s s'"

abbreviation stmts :: "store \<Rightarrow> store \<Rightarrow> bool" where "stmts \<equiv> stmt\<^sup>*\<^sup>*"

lemma stmts_two: "stmt s t \<Longrightarrow> stmt t u \<Longrightarrow> stmts s u"
  by (meson r_into_rtranclp rtranclp.rtrancl_into_rtrancl)

interpretation stmts_rel: step_relation stmts
  by unfold_locales auto

lemma stmts_insert_work: "keeps stmts (insert_work item now)"
  by (auto simp: keeps_def intro: stmt_insert[OF surjective_pairing])

lemma stmts_modify: "(\<And>s. stmt s (f s)) \<Longrightarrow> keeps stmts (modify f)"
  by (rule stmts_rel.keeps_modify) blast

lemma stmts_queue: "keeps stmts (queue q now ds)"
  unfolding queue_def Let_def
  by (intro stmts_rel.keeps_bnd stmts_insert_work)
    (auto split: insert_outcome.split intro!: stmts_rel.keeps_rules stmts_modify stmt_state)

lemma stmts_ingest_one: "keeps stmts (ingest_one me ceil mc now old e nr acc)"
  unfolding ingest_one_def
  by (intro keeps_prod keeps_let keeps_if stmts_rel.keeps_rules stmts_queue)

context step_relation
begin

lemma keeps_for_each: "(\<And>x acc. keeps R (f x acc)) \<Longrightarrow> keeps R (for_each f xs acc)"
  by (induction xs arbitrary: acc) (auto intro!: keeps_rules)

end

lemma stmts_ingest_body: "keeps stmts (ingest_body me ceil mc now old source c events rules)"
  unfolding ingest_body_def
  by (intro stmts_rel.keeps_rules stmts_modify stmt_cursor stmts_rel.keeps_for_each stmts_ingest_one)

section \<open>Effects nobody else sees\<close>

text \<open>Reads of the clock, the disk, the settings and the lists of GitHub, and the audit log.\<close>

fun quiet :: "effect \<Rightarrow> bool" where
  "quiet (Clock _) = True"
| "quiet (Disk _) = True"
| "quiet (Audit _ _ _ _) = True"
| "quiet (Picked _) = True"
| "quiet (HttpGet _ _ _) = True"
| "quiet (RuleKeys _) = True"
| "quiet (Lookup _ _ _) = True"
| "quiet (LoadSettings _) = True"
| "quiet (StopAsked _) = True"
| "quiet (Printed _) = True"
| "quiet (Slept _) = True"
| "quiet _ = False"

section \<open>The contract\<close>

locale engine_law = step_relation R for R :: "engine \<Rightarrow> engine \<Rightarrow> bool" +
  fixes w :: world
  assumes R_quiet: "quiet e \<Longrightarrow> R s (s\<lparr>eng_trace := e # eng_trace s\<rparr>)"
    and R_stmts: "stmts (eng_store s) st \<Longrightarrow> R s (s\<lparr>eng_store := st\<rparr>)"
    and R_perform: "keeps R (perform w i row r)"
begin

lemma keeps_ask_quiet: "(\<And>a. quiet (note a)) \<Longrightarrow> keeps R (ask f note)"
  by (simp add: keeps_def prog_simps R_quiet)

lemma keeps_now: "keeps R (now_of w)"
  unfolding now_of_def by (rule keeps_ask_quiet) simp

lemma keeps_query: "keeps R (query w conv q)"
  by (simp add: keeps_def prog_simps Let_def R_quiet)

lemma keeps_txn:
  assumes "\<And>st x st'. body st = (Inr x, st') \<Longrightarrow> stmts st st'"
  shows "keeps R (txn w conv body)"
  unfolding keeps_def
proof
  fix s :: engine
  define d where "d = wo_disk w (eng_trace s)"
  define s1 where "s1 = s\<lparr>eng_trace := Disk d # eng_trace s\<rparr>"
  have R1: "R s s1" unfolding s1_def by (rule R_quiet) simp
  obtain res st where body: "body (eng_store s) = (res, st)" by fastforce
  show "R s (snd (txn w conv body s))"
  proof (cases "d = None \<and> (\<exists>x. res = Inr x)")
    case True
    then obtain x where x: "res = Inr x" by blast
    with assms body have "stmts (eng_store s1) st" by (simp add: s1_def)
    then have "R s (s1\<lparr>eng_store := st\<rparr>)" by (rule R_trans[OF R1 R_stmts])
    moreover have "snd (txn w conv body s) = s1\<lparr>eng_store := st\<rparr>"
      using True x body by (simp add: txn_def access_def transaction_def s1_def d_def)
    ultimately show ?thesis by simp
  next
    case False
    with body have "snd (txn w conv body s) = s1"
      by (cases d; cases res) (auto simp: txn_def access_def transaction_def s1_def d_def)
    with R1 show ?thesis by simp
  qed
qed

lemma keeps_txn_modify: "(\<And>st. stmts st (f st)) \<Longrightarrow> keeps R (txn w conv (modify f))"
  by (rule keeps_txn) (auto simp: prog_simps)

lemma keeps_txn_stmt: "(\<And>st. stmt st (f st)) \<Longrightarrow> keeps R (txn w conv (modify f))"
  by (rule keeps_txn_modify) blast

lemma keeps_audit: "keeps R (record_audit w r key outcome)"
  unfolding record_audit_def
  by (intro keeps_bnd keeps_now keeps_modify R_quiet) simp

lemma keeps_record_all: "keeps R (record_all w ds)"
  by (induction ds) (auto intro!: keeps_ret keeps_andthen keeps_audit)

lemmas keeps_base = keeps_rules keeps_now keeps_query keeps_audit

lemma keeps_ingest: "keeps R (ingest w source c events rules ceil mc)"
  unfolding ingest_def
  by (intro keeps_base keeps_prod keeps_record_all keeps_txn keepsD[OF stmts_ingest_body])

lemma keeps_set_item: "keeps R (set_item w i state reason)"
  unfolding set_item_def by (intro keeps_txn_stmt stmt_state)

lemma keeps_demote: "keeps R (demote w i row reason noted)"
  unfolding demote_def by (intro keeps_base keeps_set_item)

lemma keeps_finish: "keeps R (finish w i row outcome cost)"
  unfolding finish_def
  by (intro keeps_base keeps_txn_modify)
    (auto simp: Let_def intro: stmts_two[OF stmt_state stmt_action] r_into_rtranclp stmt_state)

lemma keeps_fail: "keeps R (fail w i row why)"
  unfolding fail_def
  by (intro keeps_base keeps_let keeps_if keeps_txn_stmt stmt_retry keeps_ask_quiet) simp

lemma keeps_settle: "keeps R (settle w i row res)"
  unfolding settle_def
  by (cases res; simp) (auto split: step.split intro!: keeps_base keeps_finish keeps_demote keeps_fail keeps_set_item)

lemma keeps_demotion: "keeps R (demotion w row r)"
  unfolding demotion_def
  by (intro keeps_base keeps_let keeps_prod keeps_sum keeps_if)

lemma keeps_run: "keeps R (run w i row rules ceil)"
  unfolding run_def Let_def
  by (intro keeps_base keeps_option keeps_if keeps_prod keeps_finish keeps_demote keeps_demotion
      keeps_settle R_perform)

lemma keeps_paused: "keeps R (paused w)"
  unfolding paused_def by (intro keeps_base)

lemma keeps_work_in: "keeps R (work_in w i state)"
  unfolding work_in_def by (rule keeps_query)

lemma keeps_approve: "keeps R (approve w i rules lock_free)"
  unfolding approve_def
  by (intro keeps_base keeps_option keeps_if keeps_work_in keeps_paused keeps_run keeps_txn_modify
      stmts_two[OF stmt_state stmt_stamp])

lemma keeps_retry: "keeps R (retry w i)"
  unfolding retry_def by (intro keeps_base keeps_option keeps_work_in keeps_txn_stmt stmt_retry)

lemma keeps_reject: "keeps R (reject w i)"
  unfolding reject_def by (intro keeps_base keeps_option keeps_work_in keeps_set_item)

lemma keeps_set_paused: "keeps R (set_paused w p)"
  unfolding set_paused_def by (intro keeps_base keeps_txn_stmt stmt_control)

lemma keeps_run_due: "keeps R (run_due w repo rules ceil is n)"
  by (induction "is" arbitrary: n)
    (auto intro!: keeps_base keeps_if keeps_option keeps_paused keeps_run)

lemma keeps_run_approved: "keeps R (run_approved w repo rules ceil)"
  unfolding run_approved_def by (intro keeps_base keeps_run_due)

lemma keeps_redecide_each: "keeps R (redecide_each w repo rules ceil is n)"
  by (induction "is" arbitrary: n)
    (auto intro!: keeps_base keeps_if keeps_option keeps_prod keeps_set_item)

lemma keeps_redecide: "keeps R (redecide w repo rules ceil)"
  unfolding redecide_def by (intro keeps_base keeps_redecide_each)

end

end
