(* ===== verification/Watch_Cycle.thy ===== *)
theory Watch_Cycle
  imports Watch_Poll Watch_Laws
begin

text \<open>
  Recovery after a kill, one pass over every repository, and the loop that repeats it:
  \<^verbatim>\<open>crates/cli/src/watch/journal.rs\<close> and \<^verbatim>\<open>cycle.rs\<close>.
\<close>

section \<open>Recovery\<close>

datatype recovered = Requeued | Completed | RecoveredDead

text \<open>The body of the loop for one \<^verbatim>\<open>running\<close> item; \<open>None\<close> leaves it for the next start.\<close>

definition branch_is_pushed :: "world \<Rightarrow> work_row \<Rightarrow> journal_row option \<Rightarrow> (store_error, bool) eng" where
  "branch_is_pushed w row j = (case j of
     None \<Rightarrow> ret False
   | Some e \<Rightarrow>
       if j_step e = PUSHED
       then bnd (ask (\<lambda>tr. wo_branch_pushed w tr (w_repo row) (j_branch e)) (BranchPushed (w_repo row) (j_branch e)))
              (\<lambda>r. ret (case r of Inl _ \<Rightarrow> False | Inr p \<Rightarrow> p))
       else ret False)"

definition complete_item :: "world \<Rightarrow> nat \<Rightarrow> work_row \<Rightarrow> (store_error, recovered option) eng" where
  "complete_item w i row =
     bnd (ask (\<lambda>tr. wo_ensure_marker w tr row) (EnsureMarker row)) (\<lambda>r. case r of
       Inl _ \<Rightarrow> ret None
     | Inr _ \<Rightarrow>
         andthen (txn w id (modify (\<lambda>st. clear_journal i (set_state i (lit ''done'') (Some (lit ''recovered'')) st))))
           (ret (Some Completed)))"

definition requeue_item :: "world \<Rightarrow> nat \<Rightarrow> journal_row \<Rightarrow> (store_error, recovered option) eng" where
  "requeue_item w i j =
     bnd (ask (\<lambda>tr. wo_remove_worktree w tr (j_worktree j)) (RemoveWorktree (j_worktree j))) (\<lambda>r. case r of
       Inr _ \<Rightarrow>
         andthen (txn w id (modify (\<lambda>st. clear_journal i (set_state i (lit ''queued'') None st))))
           (ret (Some Requeued))
     | Inl _ \<Rightarrow>
         andthen (txn w id (modify (set_state i (lit ''dead'') (Some (lit ''recovery_failed'')))))
           (ret (Some RecoveredDead)))"

definition recover_item :: "world \<Rightarrow> nat \<Rightarrow> work_row \<Rightarrow> journal_row option \<Rightarrow> (store_error, recovered option) eng" where
  "recover_item w i row j =
     bnd (branch_is_pushed w row j) (\<lambda>pushed. case j of
       Some e \<Rightarrow>
         if j_step e = PUSHED \<and> pushed then complete_item w i row
         else if j_step e \<in> {WORKTREE, PUSHED} then requeue_item w i e
         else andthen (txn w id (modify (set_state i (lit ''dead'') (Some (lit ''unknown_step'')))))
                (ret (Some RecoveredDead))
     | None \<Rightarrow> andthen (txn w id (modify (set_state i (lit ''dead'') (Some (lit ''unknown_step'')))))
                (ret (Some RecoveredDead)))"

definition recover_one :: "world \<Rightarrow> nat \<Rightarrow> (nat \<times> recovered) list \<Rightarrow> (store_error, (nat \<times> recovered) list) eng" where
  "recover_one w i out =
     bnd (query w id (\<lambda>st. work_of st i)) (\<lambda>found.
     bnd (query w id (\<lambda>st. journal_of st i)) (\<lambda>j. case found of
       None \<Rightarrow> ret out
     | Some row \<Rightarrow> bnd (recover_item w i row j) (\<lambda>r. case r of
         None \<Rightarrow> ret out | Some how \<Rightarrow> ret (out @ [(i, how)]))))"

definition recover :: "world \<Rightarrow> (store_error, (nat \<times> recovered) list) eng" where
  "recover w = bnd (query w id (\<lambda>st. ids_in_state st (lit ''running''))) (\<lambda>is. for_each (recover_one w) is [])"

section \<open>One pass\<close>

definition map_error :: "('e \<Rightarrow> 'f) \<Rightarrow> ('s, 'e, 'a) prog \<Rightarrow> ('s, 'f, 'a) prog" where
  "map_error f m = (\<lambda>s. case m s of (Inl e, s') \<Rightarrow> (Inl (f e), s') | (Inr x, s') \<Rightarrow> (Inr x, s'))"

fun engine_error_text :: "world \<Rightarrow> engine_error \<Rightarrow> str" where
  "engine_error_text w (Store e) = wo_error_text w e"
| "engine_error_text w (NotProposed i) = lit ''item '' @ dec_nat i @ lit '' is not waiting for approval''"
| "engine_error_text w (NotDead i) = lit ''item '' @ dec_nat i @ lit '' is not on the dead list''"

fun source_error_text :: "source_error \<Rightarrow> str" where
  "source_error_text (RateLimited t) = lit ''rate limited until '' @ dec_int t"
| "source_error_text Unauthorized = lit ''GitHub refused the token''"
| "source_error_text (Transient why) = lit ''GitHub request failed: '' @ why"
| "source_error_text (Malformed why) = lit ''GitHub reply could not be read: '' @ why"

record report =
  rp_out :: str
  rp_wait :: int
  rp_transient :: bool

definition say :: "str \<Rightarrow> report \<Rightarrow> report" where
  "say t rp = rp\<lparr>rp_out := rp_out rp @ t @ [10]\<rparr>"

definition wait_for :: "int \<Rightarrow> report \<Rightarrow> report" where
  "wait_for n rp = rp\<lparr>rp_wait := max (rp_wait rp) n\<rparr>"

fun recovered_name :: "recovered \<Rightarrow> str" where
  "recovered_name Requeued = lit ''Requeued''"
| "recovered_name Completed = lit ''Completed''"
| "recovered_name RecoveredDead = lit ''Dead''"

text \<open>The engine of a pass is built from its settings.\<close>

definition with_settings :: "world \<Rightarrow> settings \<Rightarrow> world" where
  "with_settings w st = w\<lparr>wo_allowed := se_allowed_authors st, wo_fix := se_fix st,
     wo_auto_merge := se_auto_merge st, wo_actions_per_day := se_actions_per_day st,
     wo_usd_per_day := se_usd_per_day st\<rparr>"

text \<open>\<^verbatim>\<open>poll_error\<close> and the wait of a failed poll: a refused token is not something to retry.\<close>

definition poll_failed :: "world \<Rightarrow> str \<Rightarrow> source_error \<Rightarrow> report \<Rightarrow> (str, report) eng" where
  "poll_failed w source err rp =
     (if err = Unauthorized then throw (source_error_text err)
      else let rp1 = say (source @ lit '': '' @ source_error_text err) rp in
        (case err of
           RateLimited retry_at \<Rightarrow> bnd (now_of w) (\<lambda>now. ret (wait_for (retry_at - now) rp1))
         | _ \<Rightarrow> ret (rp1\<lparr>rp_transient := True\<rparr>)))"

definition report_item :: "world \<Rightarrow> nat \<Rightarrow> report \<Rightarrow> (str, report) eng" where
  "report_item w i rp = bnd (query w (wo_error_text w) (\<lambda>st. work_of st i)) (\<lambda>found. case found of
     None \<Rightarrow> ret rp
   | Some row \<Rightarrow> ret (say (lit ''proposal '' @ dec_nat i @ lit '': rule '' @ w_rule row @ lit '' on ''
       @ w_repo row @ lit ''#'' @ dec_nat (w_object row)) rp))"

definition poll_source ::
    "world \<Rightarrow> settings \<Rightarrow> str \<Rightarrow> named_rule list \<Rightarrow> autonomy \<Rightarrow> endpoint \<Rightarrow> str \<Rightarrow> cursor \<Rightarrow> int \<Rightarrow> report
     \<Rightarrow> (str, report) eng" where
  "poll_source w st repo rules lvl ep source c now rp =
     bnd (caught (poll w repo ep (se_poll_seconds st) c)) (\<lambda>res. case res of
       Inr (Events nxt next_in, events) \<Rightarrow>
         bnd (map_error (engine_error_text w)
                (ingest (with_settings w st) source (nxt\<lparr>c_next_poll_at := now + next_in\<rparr>) events rules lvl
                   (se_max_catchup_seconds st)))
           (\<lambda>ids. for_each (report_item w) ids (wait_for next_in rp))
     | Inr (Unchanged next_in, _) \<Rightarrow>
         andthen (txn w (wo_error_text w) (modify (set_cursor source (c\<lparr>c_next_poll_at := now + next_in\<rparr>))))
           (ret (wait_for next_in rp))
     | Inl err \<Rightarrow> poll_failed w source err rp)"

definition cycle_source ::
    "world \<Rightarrow> settings \<Rightarrow> int option \<Rightarrow> str \<Rightarrow> named_rule list \<Rightarrow> autonomy \<Rightarrow> endpoint \<Rightarrow> report
     \<Rightarrow> (str, report) eng" where
  "cycle_source w st since repo rules lvl ep rp =
     (let source = repo @ lit ''/'' @ endpoint_name ep in
      bnd (query w (wo_error_text w) (\<lambda>t. cursor_of t source)) (\<lambda>stored.
      bnd (now_of w) (\<lambda>start. case start_cursor stored since start of (c, started) \<Rightarrow>
        if \<not> started
        then andthen (txn w (wo_error_text w) (modify (set_cursor source c)))
               (ret (say (source @ lit '': watching from now'') rp))
        else bnd (now_of w) (\<lambda>now.
          if since = None \<and> c_next_poll_at c > now then ret (wait_for (c_next_poll_at c - now) rp)
          else poll_source w st repo rules lvl ep source c now rp))))"

definition cycle_repo :: "world \<Rightarrow> settings \<Rightarrow> int option \<Rightarrow> str \<Rightarrow> report \<Rightarrow> (str, report) eng" where
  "cycle_repo w st since repo rp =
     bnd (repo_rules w repo) (\<lambda>(rules, lvl).
     bnd (for_each (cycle_source w st since repo rules lvl) [Issues, IssueComments, PullComments] rp) (\<lambda>rp.
     andthen (map_error (engine_error_text w) (redecide (with_settings w st) repo rules lvl))
    (bnd (map_error (engine_error_text w) (run_approved (with_settings w st) repo rules lvl)) (\<lambda>n.
     ret (if n > 0 then say (repo @ lit '': ran '' @ dec_nat n @ lit '' approved'') rp else rp)))))"

definition cycle :: "world \<Rightarrow> settings \<Rightarrow> int option \<Rightarrow> (str, report) eng" where
  "cycle w st since =
     bnd (map_error (wo_error_text w) (recover w)) (\<lambda>items.
     for_each (cycle_repo w st since) (se_repos st)
       (fold (\<lambda>(i, how). say (lit ''item '' @ dec_nat i @ lit '' recovered: '' @ recovered_name how)) items
         \<lparr>rp_out = [], rp_wait = se_poll_seconds st, rp_transient = False\<rparr>))"

section \<open>The loop\<close>

definition OFF_MESSAGE :: str where
  "OFF_MESSAGE = lit ''watch is off: run `playbook config set watch.enabled true`'' @ [10]"

definition print_text :: "str \<Rightarrow> (str, unit) eng" where
  "print_text t = ask (\<lambda>_. ()) (\<lambda>_. Printed t)"

text \<open>
  \<^verbatim>\<open>run_loop\<close> after the lock is taken. \<open>fuel\<close> is the number of passes made at most; the
  result is \<open>False\<close> when it ran out before the loop was asked to stop.
\<close>

fun run_loop :: "world \<Rightarrow> nat \<Rightarrow> nat \<Rightarrow> bool \<Rightarrow> (str, bool) eng" where
  "run_loop w 0 failures said_off = ret False"
| "run_loop w (Suc fuel) failures said_off =
     bnd (ask (wo_stop w) StopAsked) (\<lambda>stop. if stop then ret True else
     bnd (ask_try (wo_settings w) LoadSettings) (\<lambda>st.
     if se_enabled st
     then bnd (cycle w st None) (\<lambda>rp.
          andthen (print_text (rp_out rp))
         (if rp_transient rp
          then bnd (ask (\<lambda>tr. delay failures (wo_pick w tr)) Picked) (\<lambda>d.
               andthen (ask (\<lambda>_. ()) (\<lambda>_. Slept (max (rp_wait rp) d)))
                 (run_loop w fuel (failures + 1) False))
          else andthen (ask (\<lambda>_. ()) (\<lambda>_. Slept (rp_wait rp))) (run_loop w fuel 0 False)))
     else andthen (if said_off then ret () else print_text OFF_MESSAGE)
         (andthen (ask (\<lambda>_. ()) (\<lambda>_. Slept (se_poll_seconds st))) (run_loop w fuel failures True))))"

end
