(* ===== verification/Watch_Reach.thy ===== *)
theory Watch_Reach
  imports Watch_Cycle
begin

text \<open>
  What any run of the engine does to the tables. The actions, recovery and a whole pass change
  them only by the statements of \<^verbatim>\<open>Tx\<close>, so a fact that every statement keeps holds after
  any sequence of operations.
\<close>

section \<open>Every program is made of statements\<close>

abbreviation moves :: "engine \<Rightarrow> engine \<Rightarrow> bool" where
  "moves s s' \<equiv> stmts (eng_store s) (eng_store s')"

interpretation mv: step_relation moves
  by unfold_locales auto

lemma moves_ask: "keeps moves (ask f note)"
  by (simp add: keeps_def prog_simps)

lemma moves_ask_try: "keeps moves (ask_try f note)"
  by (simp add: keeps_def prog_simps)

lemma moves_query: "keeps moves (query w conv q)"
  by (simp add: keeps_def prog_simps Let_def)

lemma moves_txn: "(\<And>st. stmts st (f st)) \<Longrightarrow> keeps moves (txn w conv (modify f))"
  by (simp add: keeps_def prog_simps Let_def split: option.splits)

lemma moves_now: "keeps moves (now_of w)"
  unfolding now_of_def by (rule moves_ask)

lemma moves_audit: "keeps moves (record_audit w r key outcome)"
  unfolding record_audit_def by (intro mv.keeps_rules mv.keeps_modify moves_now) simp

lemmas moves_base = mv.keeps_rules moves_ask moves_ask_try moves_query moves_now moves_audit
  keeps_if keeps_option keeps_sum keeps_prod keeps_let

lemma moves_remaining: "keeps moves (remaining_usd w row r)"
  unfolding remaining_usd_def by (intro moves_base)

lemma moves_reach: "keeps moves (reach w i st dir branch)"
  unfolding reach_def
  by (rule moves_txn) (auto intro: stmts_two[OF stmt_state stmt_journal] r_into_rtranclp stmt_journal)

lemma moves_clear: "keeps moves (clear_item_journal w i)"
  unfolding clear_item_journal_def by (rule moves_txn) (blast intro: stmt_clear)

lemma moves_spend: "keeps moves (spend w row usd)"
  unfolding spend_def by (intro moves_base moves_txn r_into_rtranclp stmt_spend)

lemma moves_publish: "keeps moves (publish w i row r dir branch)"
  unfolding publish_def by (intro moves_base moves_reach)

lemma keeps_tool_end [keeps_intros]:
  "(\<And>x. keeps R (f x)) \<Longrightarrow> keeps R m \<Longrightarrow> keeps R (case z of Output x \<Rightarrow> f x | Killed \<Rightarrow> m)"
  by (cases z) auto

lemma keeps_step [keeps_intros]:
  "(\<And>c. keeps R (f c)) \<Longrightarrow> (\<And>c. keeps R (g c)) \<Longrightarrow> keeps R m \<Longrightarrow> (\<And>c. keeps R (h c)) \<Longrightarrow> keeps R n \<Longrightarrow>
   keeps R (case z of StepDone c \<Rightarrow> f c | StepDemote c \<Rightarrow> g c | StepAlreadyDone \<Rightarrow> m
     | StepSkipped c \<Rightarrow> h c | StepStopped \<Rightarrow> n)"
  by (cases z) auto

lemma moves_edit: "keeps moves (edit w i row r budget posts dir branch)"
  unfolding edit_def by (intro moves_base moves_spend moves_publish keeps_tool_end keeps_step)

lemma moves_address: "keeps moves (address w i row r)"
  unfolding address_def in_checkout_def by (intro moves_base moves_remaining moves_reach moves_edit moves_clear)

lemma moves_review: "keeps moves (review w row r view)"
  unfolding review_def write_review_def by (intro moves_base moves_remaining moves_spend)

lemma moves_merge: "keeps moves (merge_when_green w row)"
  unfolding merge_when_green_def by (intro moves_base)

lemma moves_votes: "keeps moves (ask_votes w labels c n t)"
  by (induction w labels c n t rule: ask_votes.induct) (auto intro!: moves_base)

lemma moves_wanted: "keeps moves (wanted_labels w r view)"
  unfolding wanted_labels_def decide_label_def
  by (intro moves_base moves_votes) (auto split: decision.split intro!: mv.keeps_rules)

lemma moves_labels: "keeps moves (add_missing_labels w row r view)"
  unfolding add_missing_labels_def by (intro moves_base moves_wanted)

lemma moves_update: "keeps moves (bring_up_to_date w row)"
  unfolding bring_up_to_date_def
  by (intro moves_base) (auto split: branch_update.split intro!: mv.keeps_rules)

lemma moves_comment: "keeps moves (leave_comment w row r)"
  unfolding leave_comment_def by (intro moves_base)

lemma moves_perform: "keeps moves (perform w i row r)"
  unfolding perform_def act_def
  by (intro moves_base)
    (auto split: do_action.split intro: moves_labels moves_address moves_review moves_merge moves_update moves_comment)

interpretation moved: engine_law moves w for w
  by unfold_locales (auto intro: moves_perform)

section \<open>Recovery and a pass\<close>

lemma moves_recover_item: "keeps moves (recover_item w i row j)"
  unfolding recover_item_def branch_is_pushed_def complete_item_def requeue_item_def
  by (intro moves_base moves_txn stmts_two[OF stmt_state stmt_clear] r_into_rtranclp stmt_state)

lemma moves_recover: "keeps moves (recover w)"
  unfolding recover_def recover_one_def
  by (intro moves_base mv.keeps_for_each moves_recover_item)

context step_relation
begin

lemma keeps_map_error: "keeps R m \<Longrightarrow> keeps R (map_error f m)"
  unfolding keeps_def map_error_def by (auto split: prod.split sum.split) (metis snd_conv)+

end

lemma moves_check_reply: "keeps moves (check_reply w r)"
  unfolding check_reply_def by (intro moves_base)

lemma moves_read_pages: "keeps moves (read_pages w repo ep since left is_first etag url ps)"
  by (induction left arbitrary: is_first etag url ps)
    (auto intro!: moves_base moves_check_reply split: sum.splits)

lemma moves_poll: "keeps moves (poll w repo ep poll_seconds c)"
  unfolding poll_def by (intro moves_base moves_read_pages)

lemma moves_rules_of_keys: "keeps moves (rules_of_keys w repo keys rules)"
  by (induction keys arbitrary: rules) (auto intro!: moves_base)

lemma moves_repo_rules: "keeps moves (repo_rules w repo)"
  unfolding repo_rules_def by (intro moves_base moves_rules_of_keys)

lemma moves_poll_failed: "keeps moves (poll_failed w source err rp)"
  unfolding poll_failed_def by (intro moves_base) (auto split: source_error.split intro!: moves_base)

lemma moves_report_item: "keeps moves (report_item w i rp)"
  unfolding report_item_def by (intro moves_base)

lemma keeps_poll_result [keeps_intros]:
  "(\<And>n. keeps R (f n)) \<Longrightarrow> (\<And>c n. keeps R (g c n)) \<Longrightarrow>
   keeps R (case z of Unchanged n \<Rightarrow> f n | Events c n \<Rightarrow> g c n)"
  by (cases z) auto

lemma moves_poll_source: "keeps moves (poll_source w st repo rules lvl ep source c now rp)"
  unfolding poll_source_def
  by (intro moves_base keeps_poll_result moves_poll mv.keeps_map_error moved.keeps_ingest
      mv.keeps_for_each moves_report_item moves_txn r_into_rtranclp stmt_cursor moves_poll_failed)

lemma moves_cycle_source: "keeps moves (cycle_source w st since repo rules lvl ep rp)"
  unfolding cycle_source_def
  by (intro moves_base moves_txn r_into_rtranclp stmt_cursor moves_poll_source)

lemma moves_cycle: "keeps moves (cycle w st since)"
  unfolding cycle_def cycle_repo_def
  by (intro moves_base mv.keeps_map_error moves_recover mv.keeps_for_each moves_repo_rules
      moves_cycle_source moved.keeps_redecide moved.keeps_run_approved)

lemma moves_run_loop: "keeps moves (run_loop w fuel failures off)"
  by (induction fuel arbitrary: failures off)
    (auto intro!: moves_base moves_cycle simp: print_text_def)

section \<open>Operations in any order\<close>

datatype engine_op =
    OpIngest str cursor "event list" "named_rule list" autonomy int
  | OpApprove nat "named_rule list" bool
  | OpRunApproved str "named_rule list" autonomy
  | OpRedecide str "named_rule list" autonomy
  | OpRetry nat
  | OpReject nat
  | OpSetPaused bool
  | OpRecover
  | OpCycle settings "int option"

text \<open>
  One call of an operation, whatever it returns. A run of operations is under one
  configuration, the world's, and a pass takes its engine settings from it.
\<close>

definition in_force :: "world \<Rightarrow> settings \<Rightarrow> settings" where
  "in_force w st = st\<lparr>se_allowed_authors := wo_allowed w, se_fix := wo_fix w, se_auto_merge := wo_auto_merge w,
     se_actions_per_day := wo_actions_per_day w, se_usd_per_day := wo_usd_per_day w\<rparr>"

lemma with_settings_in_force [simp]: "with_settings w (in_force w st) = w"
  by (simp add: with_settings_def in_force_def)

fun run_op :: "world \<Rightarrow> engine_op \<Rightarrow> engine \<Rightarrow> engine" where
  "run_op w (OpIngest source c events rules ceil mc) s = snd (ingest w source c events rules ceil mc s)"
| "run_op w (OpApprove i rules lock_free) s = snd (approve w i rules lock_free s)"
| "run_op w (OpRunApproved repo rules ceil) s = snd (run_approved w repo rules ceil s)"
| "run_op w (OpRedecide repo rules ceil) s = snd (redecide w repo rules ceil s)"
| "run_op w (OpRetry i) s = snd (retry w i s)"
| "run_op w (OpReject i) s = snd (reject w i s)"
| "run_op w (OpSetPaused p) s = snd (set_paused w p s)"
| "run_op w OpRecover s = snd (recover w s)"
| "run_op w (OpCycle st since) s = snd (cycle w (in_force w st) since s)"

definition run_ops :: "world \<Rightarrow> engine_op list \<Rightarrow> engine \<Rightarrow> engine" where
  "run_ops w ops s = fold (run_op w) ops s"

definition fresh_engine :: engine where
  "fresh_engine = \<lparr>eng_store = empty_store, eng_trace = []\<rparr>"

lemma keeps_snd: "keeps R m \<Longrightarrow> R s (snd (m s))"
  by (simp add: keeps_def)

lemma run_op_moves: "moves s (run_op w op s)"
  by (cases op) (auto intro!: keeps_snd[where R = moves] moved.keeps_ingest moved.keeps_approve
      moved.keeps_run_approved moved.keeps_redecide moved.keeps_retry moved.keeps_reject
      moved.keeps_set_paused moves_recover moves_cycle)

lemma run_ops_moves: "moves s (run_ops w ops s)"
  unfolding run_ops_def
proof (induction ops arbitrary: s)
  case (Cons op ops)
  with run_op_moves[of s w op] show ?case by (auto intro: rtranclp_trans)
qed simp

section \<open>What every statement keeps\<close>

abbreviation identities :: "store \<Rightarrow> nat \<rightharpoonup> str \<times> str \<times> str \<times> nat \<times> bytes \<times> str" where
  "identities s \<equiv> (\<lambda>i. map_option row_identity (t_work s i))"

definition actions_on :: "store \<Rightarrow> int \<Rightarrow> str \<Rightarrow> int" where
  "actions_on s day scope = fst (counter_of s day scope)"

text \<open>\<open>s'\<close> remembers everything \<open>s\<close> knew: events seen, items queued, actions counted.\<close>

definition remembers :: "store \<Rightarrow> store \<Rightarrow> bool" where
  "remembers s s' \<longleftrightarrow> dom (t_seen s) \<subseteq> dom (t_seen s') \<and> identities s \<subseteq>\<^sub>m identities s'
     \<and> dom (t_acted s) \<subseteq> dom (t_acted s') \<and> (\<forall>day scope. actions_on s day scope \<le> actions_on s' day scope)"

lemma remembers_refl: "remembers s s"
  by (simp add: remembers_def)

lemma remembers_trans: "remembers s t \<Longrightarrow> remembers t u \<Longrightarrow> remembers s u"
  unfolding remembers_def by (meson map_le_trans order_trans)

lemma identities_update_work:
  "(\<And>r. row_identity (f r) = row_identity r) \<Longrightarrow> identities (update_work i f s) = identities s"
  by (rule ext) (simp add: update_work_def option.map_comp comp_def)

lemma remembers_same:
  "t_seen s' = t_seen s \<Longrightarrow> identities s' = identities s \<Longrightarrow> t_acted s' = t_acted s \<Longrightarrow>
   t_counter s' = t_counter s \<Longrightarrow> remembers s s'"
  by (simp add: remembers_def actions_on_def counter_of_def)

lemma remembers_update_work:
  "(\<And>r. row_identity (f r) = row_identity r) \<Longrightarrow> remembers s (update_work i f s)"
  by (rule remembers_same) (simp_all add: identities_update_work, simp_all add: update_work_def)

lemma actions_bump:
  "0 \<le> n \<Longrightarrow> actions_on s day scope \<le> actions_on (bump_counter d sc n u s) day scope"
  by (simp add: actions_on_def bump_counter_def counter_of_def split: option.split)

lemma remembers_bump: "0 \<le> n \<Longrightarrow> remembers s (bump_counter d sc n u s)"
  by (simp add: remembers_def actions_bump) (simp add: bump_counter_def)

lemma remembers_acted: "remembers s (s\<lparr>t_acted := (t_acted s)(k \<mapsto> v)\<rparr>)"
  by (auto simp: remembers_def actions_on_def counter_of_def)

lemma remembers_updates:
  "remembers s (set_cursor src c s)"
  "remembers s (set_state i state reason s)"
  "remembers s (set_journal i step wt br s)"
  "remembers s (clear_journal i s)"
  "remembers s (set_control key v s)"
  "remembers s (stamp_approved i now s)"
  "remembers s (set_retry i state reason n nb s)"
  "remembers s (count_action day item u now s)"
  "remembers s (count_spend day r u s)"
proof -
  show "remembers s (set_cursor src c s)" "remembers s (set_journal i step wt br s)"
    "remembers s (clear_journal i s)" "remembers s (set_control key v s)"
    by (auto intro!: remembers_same simp: set_cursor_def set_journal_def clear_journal_def set_control_def)
  show "remembers s (set_state i state reason s)" "remembers s (stamp_approved i now s)"
    "remembers s (set_retry i state reason n nb s)"
    unfolding set_state_def stamp_approved_def set_retry_def
    by (rule remembers_update_work; simp add: row_identity_def)+
  show "remembers s (count_spend day r u s)"
    unfolding count_spend_def using remembers_trans[OF remembers_bump remembers_bump] by simp
  show "remembers s (count_action day item u now s)"
    unfolding count_action_def Let_def
    using remembers_trans[OF remembers_trans[OF remembers_bump remembers_bump] remembers_acted] by simp
qed

lemma remembers_insert:
  assumes "store_inv s" "insert_work item now s = (r, s')"
  shows "remembers s s'"
proof (cases "t_seen s (n_key item)")
  case None
  have "Suc (t_last_id s) \<notin> dom (t_work s)"
    using assms(1) by (simp add: store_inv_def)
  with None assms show ?thesis
    by (auto simp: insert_work_fresh Let_def remembers_def actions_on_def counter_of_def map_le_def domIff)
qed (use assms in \<open>auto simp: insert_work_duplicate remembers_refl\<close>)

lemma stmt_remembers: "stmt s s' \<Longrightarrow> store_inv s \<Longrightarrow> store_inv s' \<and> remembers s s'"
  by (induction rule: stmt.induct)
    (auto simp: store_inv_updates remembers_updates intro: remembers_insert dest: insert_work_inv)

lemma stmts_remembers: "stmts s s' \<Longrightarrow> store_inv s \<Longrightarrow> store_inv s' \<and> remembers s s'"
  by (induction rule: rtranclp_induct) (auto simp: remembers_refl dest: stmt_remembers intro: remembers_trans)

text \<open>
  C2. Start from an empty database and run any operations in any order, against any behaviour
  of GitHub, the model, git, the clock and the disk. The tables stay well formed: items are
  numbered without gaps, no two items carry the same event key, and every item's key is a seen
  one. And whatever happens after, nothing is forgotten: no event becomes new again, no item
  disappears or changes what it is about, no count of a day's actions goes down.
\<close>

theorem tables_never_forget:
  "store_inv (eng_store (run_ops w ops fresh_engine)) \<and>
   remembers (eng_store (run_ops w ops fresh_engine)) (eng_store (run_ops w (ops @ later) fresh_engine))"
proof -
  have inv: "store_inv (eng_store (run_ops w ops fresh_engine))"
    using stmts_remembers[OF run_ops_moves[of fresh_engine w ops]]
    by (simp add: fresh_engine_def store_inv_empty)
  have "moves (run_ops w ops fresh_engine) (run_ops w (ops @ later) fresh_engine)"
    using run_ops_moves[of "run_ops w ops fresh_engine" w later] by (simp add: run_ops_def)
  with stmts_remembers[OF this inv] inv show ?thesis by simp
qed

end
