(* ===== verification/Watch_Safety.thy ===== *)
theory Watch_Safety
  imports Watch_Reach
begin

text \<open>
  What the engine does to the outside. \<open>justified\<close> says what must have happened just before a
  visible effect: which read allows a write, which check allows a merge, whose words allow a
  checkout. \<open>guarded\<close> is a trace all of whose effects are justified, and every operation of
  the engine keeps a trace guarded.
\<close>

section \<open>Reading a trace\<close>

fun latest :: "(effect \<Rightarrow> 'a option) \<Rightarrow> trace \<Rightarrow> 'a option" where
  "latest f [] = None"
| "latest f (e # tr) = (case f e of Some x \<Rightarrow> Some x | None \<Rightarrow> latest f tr)"

definition issue_answer :: "str \<Rightarrow> nat \<Rightarrow> effect \<Rightarrow> (str + issue_view) option" where
  "issue_answer repo n e = (case e of Issue r k a \<Rightarrow> if r = repo \<and> k = n then Some a else None | _ \<Rightarrow> None)"

definition thread_answer :: "str \<Rightarrow> nat \<Rightarrow> effect \<Rightarrow> (str + post list) option" where
  "thread_answer repo n e = (case e of Thread r k a \<Rightarrow> if r = repo \<and> k = n then Some a else None | _ \<Rightarrow> None)"

definition comment_answer :: "str \<Rightarrow> nat \<Rightarrow> str \<Rightarrow> effect \<Rightarrow> (str + bool) option" where
  "comment_answer repo n m e = (case e of HasComment r k x a \<Rightarrow>
     if r = repo \<and> k = n \<and> x = m then Some a else None | _ \<Rightarrow> None)"

definition review_answer :: "str \<Rightarrow> nat \<Rightarrow> str \<Rightarrow> effect \<Rightarrow> (str + bool) option" where
  "review_answer repo n m e = (case e of HasReview r k x a \<Rightarrow>
     if r = repo \<and> k = n \<and> x = m then Some a else None | _ \<Rightarrow> None)"

text \<open>The issue as it was last read.\<close>

definition seen_issue :: "trace \<Rightarrow> str \<Rightarrow> nat \<Rightarrow> issue_view option" where
  "seen_issue tr repo n = (case latest (issue_answer repo n) tr of Some (Inr v) \<Rightarrow> Some v | _ \<Rightarrow> None)"

definition seen_open :: "trace \<Rightarrow> str \<Rightarrow> nat \<Rightarrow> bool" where
  "seen_open tr repo n \<longleftrightarrow> (case seen_issue tr repo n of Some v \<Rightarrow> iv_open v | None \<Rightarrow> False)"

definition not_yet_commented :: "trace \<Rightarrow> str \<Rightarrow> nat \<Rightarrow> str \<Rightarrow> bool" where
  "not_yet_commented tr repo n body \<longleftrightarrow>
     (\<exists>m. suffix m body \<and> m \<noteq> [] \<and> latest (comment_answer repo n m) tr = Some (Inr False))"

definition not_yet_reviewed :: "trace \<Rightarrow> str \<Rightarrow> nat \<Rightarrow> str \<Rightarrow> bool" where
  "not_yet_reviewed tr repo n body \<longleftrightarrow>
     (\<exists>m. suffix m body \<and> m \<noteq> [] \<and> latest (review_answer repo n m) tr = Some (Inr False))"

definition trusted_context :: "world \<Rightarrow> trace \<Rightarrow> str \<Rightarrow> nat \<Rightarrow> bool" where
  "trusted_context w tr repo n \<longleftrightarrow>
     (case latest (thread_answer repo n) tr of Some (Inr ps) \<Rightarrow> trusted_thread w ps | _ \<Rightarrow> False)"

definition sealed_input :: "call \<Rightarrow> bool" where
  "sealed_input c \<longleftrightarrow> (\<exists>t. call_stdin c = wrap_untrusted t)"

definition no_tools :: "call \<Rightarrow> bool" where
  "no_tools c \<longleftrightarrow> sublist [lit ''--tools'', []] (call_argv c) \<and> call_cwd c = None"

section \<open>When an effect is justified\<close>

text \<open>The rule for each effect others can see, given the trace before it.\<close>

definition justified :: "world \<Rightarrow> effect \<Rightarrow> trace \<Rightarrow> bool" where
  "justified w e tr \<longleftrightarrow> (case e of
     AddLabels repo n ls _ \<Rightarrow> ls \<noteq> [] \<and> (case seen_issue tr repo n of
         Some v \<Rightarrow> iv_open v \<and> set ls \<inter> set (iv_labels v) = {} | None \<Rightarrow> False)
   | AddComment repo n body _ \<Rightarrow> seen_open tr repo n \<and> not_yet_commented tr repo n body
   | UpdateBranchCall repo n _ \<Rightarrow> seen_open tr repo n
   | PendingReview repo n body _ \<Rightarrow> seen_open tr repo n \<and> not_yet_reviewed tr repo n body
   | Merge repo n head _ \<Rightarrow> wo_auto_merge w \<and> seen_open tr repo n \<and> (case tr of
         MergeCheck r k (Inr c) # _ \<Rightarrow> r = repo \<and> k = n \<and> not_ready w c = None \<and> mc_head c = head
       | _ \<Rightarrow> False)
   | Checkout repo n branch dir _ \<Rightarrow> trusted_context w tr repo n \<and> (case seen_issue tr repo n of
         Some v \<Rightarrow> iv_open v \<and> \<not> iv_fork v | None \<Rightarrow> False)
   | RunTool c _ \<Rightarrow> sealed_input c \<and> (case tr of
         Checkout repo n branch dir (Inr _) # _ \<Rightarrow> call_cwd c = Some dir | _ \<Rightarrow> False)
   | RunModel c _ \<Rightarrow> sealed_input c \<and> no_tools c
   | Publish dir branch message _ \<Rightarrow> (case tr of
         Disk None # StagedSize d (Inr (files, lines)) # _ \<Rightarrow>
           d = dir \<and> files \<noteq> 0 \<and> files \<le> cap_files (wo_fix w) \<and> lines \<le> cap_lines (wo_fix w)
       | _ \<Rightarrow> False)
   | EnsureMarker row _ \<Rightarrow> (case tr of
         BranchPushed repo branch (Inr True) # _ \<Rightarrow> repo = w_repo row | _ \<Rightarrow> False)
   | _ \<Rightarrow> True)"

fun guarded :: "world \<Rightarrow> trace \<Rightarrow> bool" where
  "guarded w [] = True"
| "guarded w (e # tr) = (justified w e tr \<and> guarded w tr)"

section \<open>Quiet steps change no fact\<close>

definition quietly :: "engine \<Rightarrow> engine \<Rightarrow> bool" where
  "quietly s s' \<longleftrightarrow> (\<exists>new. eng_trace s' = new @ eng_trace s \<and> list_all quiet new)"

interpretation qs: step_relation quietly
proof unfold_locales
  show "quietly s s" for s by (simp add: quietly_def)
  show "quietly s u" if "quietly s t" "quietly t u" for s t u
    using that unfolding quietly_def by (metis append.assoc list_all_append)
qed

lemma quietly_ask: "(\<And>a. quiet (note a)) \<Longrightarrow> keeps quietly (ask f note)"
  by (auto simp: keeps_def prog_simps quietly_def)

lemma quietly_ask_try: "(\<And>a. quiet (note a)) \<Longrightarrow> keeps quietly (ask_try f note)"
  by (auto simp: keeps_def prog_simps quietly_def)

lemma quietly_now: "keeps quietly (now_of w)"
  unfolding now_of_def by (rule quietly_ask) simp

lemma quietly_query: "keeps quietly (query w conv q)"
  by (auto simp: keeps_def prog_simps Let_def quietly_def)

lemma quietly_txn: "keeps quietly (txn w conv body)"
  by (auto simp: keeps_def txn_def access_def Let_def quietly_def split: option.splits prod.splits sum.splits)

lemma quietly_audit: "keeps quietly (record_audit w r key outcome)"
  unfolding record_audit_def
  by (intro qs.keeps_rules qs.keeps_modify quietly_now) (auto simp: quietly_def)

lemmas quietly_base = qs.keeps_rules quietly_now quietly_query quietly_txn quietly_audit
  keeps_if keeps_option keeps_sum keeps_prod keeps_let

lemma quietly_parts:
  "keeps quietly (remaining_usd w row r)" "keeps quietly (reach w i st dir branch)"
  "keeps quietly (clear_item_journal w i)" "keeps quietly (spend w row usd)"
  unfolding remaining_usd_def reach_def clear_item_journal_def spend_def
  by (intro quietly_base)+

lemma quiet_justified: "quiet e \<Longrightarrow> justified w e tr"
  by (cases e) (simp_all add: justified_def)

lemma quiet_answers:
  "quiet e \<Longrightarrow> issue_answer repo n e = None" "quiet e \<Longrightarrow> thread_answer repo n e = None"
  "quiet e \<Longrightarrow> comment_answer repo n m e = None" "quiet e \<Longrightarrow> review_answer repo n m e = None"
  by (cases e; simp add: issue_answer_def thread_answer_def comment_answer_def review_answer_def)+

lemma latest_quiet:
  "list_all quiet new \<Longrightarrow> (\<And>e. quiet e \<Longrightarrow> f e = None) \<Longrightarrow> latest f (new @ tr) = latest f tr"
  by (induction new) auto

lemma quietly_facts:
  assumes "quietly s s'"
  shows "guarded w (eng_trace s') = guarded w (eng_trace s)"
    and "seen_issue (eng_trace s') = seen_issue (eng_trace s)"
    and "seen_open (eng_trace s') = seen_open (eng_trace s)"
    and "not_yet_commented (eng_trace s') = not_yet_commented (eng_trace s)"
    and "not_yet_reviewed (eng_trace s') = not_yet_reviewed (eng_trace s)"
    and "trusted_context w (eng_trace s') = trusted_context w (eng_trace s)"
proof -
  from assms obtain new where new: "eng_trace s' = new @ eng_trace s" "list_all quiet new"
    unfolding quietly_def by blast
  note same = latest_quiet[OF new(2) quiet_answers(1)] latest_quiet[OF new(2) quiet_answers(2)]
    latest_quiet[OF new(2) quiet_answers(3)] latest_quiet[OF new(2) quiet_answers(4)]
  show "guarded w (eng_trace s') = guarded w (eng_trace s)"
    unfolding new(1) using new(2) by (induction new) (auto simp: quiet_justified)
  show issue: "seen_issue (eng_trace s') = seen_issue (eng_trace s)"
    by (rule ext)+ (simp add: seen_issue_def new(1) same)
  show "seen_open (eng_trace s') = seen_open (eng_trace s)"
    by (rule ext)+ (simp add: seen_open_def issue)
  show "not_yet_commented (eng_trace s') = not_yet_commented (eng_trace s)"
    by (rule ext)+ (simp add: not_yet_commented_def new(1) same)
  show "not_yet_reviewed (eng_trace s') = not_yet_reviewed (eng_trace s)"
    by (rule ext)+ (simp add: not_yet_reviewed_def new(1) same)
  show "trusted_context w (eng_trace s') = trusted_context w (eng_trace s)"
    by (rule ext)+ (simp add: trusted_context_def new(1) same)
qed

section \<open>Every action is justified\<close>

named_theorems facts \<open>evaluating the facts of a trace\<close>

lemma latest_step [facts]:
  "issue_answer r k e = None \<Longrightarrow> seen_issue (e # tr) r k = seen_issue tr r k"
  "issue_answer r k e = None \<Longrightarrow> seen_open (e # tr) r k = seen_open tr r k"
  by (simp_all add: seen_issue_def seen_open_def)

lemmas answers = issue_answer_def thread_answer_def comment_answer_def review_answer_def

definition safe :: "world \<Rightarrow> ('e, 'a) eng \<Rightarrow> engine \<Rightarrow> bool" where
  "safe w m s \<longleftrightarrow> guarded w (eng_trace (snd (m s)))"

lemma marker_not_Nil: "marker_of row \<noteq> []"
  by (simp add: marker_of_def lit_def)

lemma safe_merge:
  assumes "guarded w (eng_trace s)" "seen_open (eng_trace s) (w_repo row) (w_object row)"
  shows "safe w (merge_when_green w row) s"
  using assms by (auto simp: safe_def merge_when_green_def prog_simps justified_def answers facts
      split: option.splits sum.splits)

lemma safe_update:
  assumes "guarded w (eng_trace s)" "seen_open (eng_trace s) (w_repo row) (w_object row)"
  shows "safe w (bring_up_to_date w row) s"
  using assms by (auto simp: safe_def bring_up_to_date_def prog_simps justified_def
      split: sum.splits branch_update.splits)

lemma commentedI:
  "latest (comment_answer r n m) tr = Some (Inr False) \<Longrightarrow> suffix m body \<Longrightarrow> m \<noteq> [] \<Longrightarrow> not_yet_commented tr r n body"
  "latest (review_answer r n m) tr = Some (Inr False) \<Longrightarrow> suffix m body \<Longrightarrow> m \<noteq> [] \<Longrightarrow> not_yet_reviewed tr r n body"
  unfolding not_yet_commented_def not_yet_reviewed_def by blast+

lemmas marker_last = suffix_appendI suffix_ConsI suffix_order.refl

lemma safe_comment:
  assumes "guarded w (eng_trace s)" "seen_open (eng_trace s) (w_repo row) (w_object row)"
  shows "safe w (leave_comment w row r) s"
  using assms by (auto simp: safe_def leave_comment_def prog_simps justified_def answers facts Let_def marker_not_Nil
      intro!: commentedI[of _ _ "marker_of row"] marker_last split: option.splits sum.splits)

lemma check_diff_caps:
  assumes "check_diff files lines (diff_caps_of lims f l) = Inr u"
  shows "files \<le> f" "lines \<le> l"
  using assms by (auto simp: check_diff_def diff_caps_of_def split: option.splits if_splits)

lemma safe_publish:
  assumes "guarded w (eng_trace s)" "seen_open (eng_trace s) (w_repo row) (w_object row)"
    and "latest (comment_answer (w_repo row) (w_object row) (marker_of row)) (eng_trace s) = Some (Inr False)"
  shows "safe w (publish w i row r dir branch) s"
  using assms by (auto simp: safe_def publish_def reach_def prog_simps justified_def answers facts Let_def
      marker_not_Nil check_diff_caps intro!: commentedI[of _ _ "marker_of row"] marker_last
      split: option.splits sum.splits)

lemma sealed: "sealed_input (classify_call w labels (wrap_untrusted t))"
    "sealed_input (tool_call w b n dir sys (wrap_untrusted t))" "sealed_input (review_call w b (wrap_untrusted t))"
  by (auto simp: sealed_input_def classify_call_def tool_call_def review_call_def)

lemma no_tools_calls: "no_tools (classify_call w labels t)" "no_tools (review_call w b t)"
  by (simp_all add: no_tools_def classify_call_def review_call_def sublist_Cons_right)

lemma safe_bndI:
  assumes "safe w m s" "\<And>x s'. m s = (Inr x, s') \<Longrightarrow> safe w (f x) s'"
  shows "safe w (bnd m f) s"
  using assms by (auto simp: safe_def prog_simps split: prod.splits sum.splits)

text \<open>The steps that change no fact come first; what follows them starts from the same facts.\<close>

lemma safe_quiet:
  assumes "keeps quietly m" "guarded w (eng_trace s)"
  shows "safe w m s"
  using quietly_facts(1)[OF keepsD[OF assms(1) surjective_pairing], of w s] assms(2) by (simp add: safe_def)

lemma quiet_parts_guarded:
  "spend w' row usd s = (x, s') \<Longrightarrow> guarded w (eng_trace s') = guarded w (eng_trace s)"
  "clear_item_journal w' i s = (x, s') \<Longrightarrow> guarded w (eng_trace s') = guarded w (eng_trace s)"
  "record_audit w' r key outcome s = (x, s') \<Longrightarrow> guarded w (eng_trace s') = guarded w (eng_trace s)"
  by (rule quietly_facts(1), erule keepsD[rotated], rule quietly_parts quietly_audit)+

lemma safe_labels:
  assumes "guarded w (eng_trace s)" "seen_issue (eng_trace s) (w_repo row) (w_object row) = Some view" "iv_open view"
  shows "safe w (add_missing_labels w row r view) s"
proof -
  have votes: "guarded w (eng_trace s') \<and> seen_issue (eng_trace s') (w_repo row) (w_object row) = Some view"
    if "ask_votes w labels (classify_call w labels (wrap_untrusted t)) n u s0 = (x, s')"
      "guarded w (eng_trace s0)" "seen_issue (eng_trace s0) (w_repo row) (w_object row) = Some view"
    for labels t n u s0 and x :: "str + tally" and s'
    using that
  proof (induction n arbitrary: u s0)
    case (Suc n)
    from Suc.prems(1) show ?case
      by (auto simp: prog_simps intro!: Suc.IH elim!: Suc.IH
          simp: justified_def sealed no_tools_calls Suc.prems answers facts)
  qed (auto simp: prog_simps)
  have wanted: "guarded w (eng_trace s') \<and> seen_issue (eng_trace s') (w_repo row) (w_object row) = Some view"
    if "wanted_labels w r view s = (x, s')" for x s'
    using that assms by (auto simp: wanted_labels_def decide_label_def prog_simps Let_def
        dest!: votes split: if_splits prod.splits sum.splits decision.splits)
  show ?thesis
    unfolding add_missing_labels_def
  proof (rule safe_bndI)
    show "safe w (wanted_labels w r view) s"
      using wanted[OF surjective_pairing] by (simp add: safe_def)
    fix x s'
    assume "wanted_labels w r view s = (Inr x, s')"
    from wanted[OF this] assms(3) show "safe w (case x of Inl st \<Rightarrow> ret st
       | Inr (ls, cost) \<Rightarrow> let missing = filter (\<lambda>l. l \<notin> set (iv_labels view)) ls in
         if missing = [] then ret StepAlreadyDone
         else andthen (ask_try (\<lambda>tr. wo_add_labels w tr (w_repo row) (w_object row) missing)
                         (AddLabels (w_repo row) (w_object row) missing))
                (ret (StepDone cost))) s'"
      by (auto simp: safe_def prog_simps justified_def Let_def split: sum.splits)
  qed
qed

text \<open>What holds when a checkout may be made.\<close>

definition may_edit :: "world \<Rightarrow> work_row \<Rightarrow> trace \<Rightarrow> bool" where
  "may_edit w row tr \<longleftrightarrow> guarded w tr \<and> trusted_context w tr (w_repo row) (w_object row)
     \<and> (case seen_issue tr (w_repo row) (w_object row) of Some v \<Rightarrow> iv_open v \<and> \<not> iv_fork v | None \<Rightarrow> False)
     \<and> latest (comment_answer (w_repo row) (w_object row) (marker_of row)) tr = Some (Inr False)"

lemma may_edit_quietly: "quietly s s' \<Longrightarrow> may_edit w row (eng_trace s') = may_edit w row (eng_trace s)"
proof -
  assume q: "quietly s s'"
  then obtain new where new: "eng_trace s' = new @ eng_trace s" "list_all quiet new"
    unfolding quietly_def by blast
  from quietly_facts(1,6)[OF q, of w] quietly_facts(2)[OF q] latest_quiet[OF new(2) quiet_answers(3)] show ?thesis
    by (simp add: may_edit_def new(1))
qed

lemma checkout_run_facts:
  assumes "may_edit w row tr"
  shows "guarded w (RunTool (tool_call w b n dir sys (address_prompt posts)) a
           # Checkout (w_repo row) (w_object row) branch dir (Inr ()) # tr)"
    and "guarded w (Checkout (w_repo row) (w_object row) branch dir res # tr)"
    and "seen_open (RunTool c a # Checkout r k br d res # tr) (w_repo row) (w_object row)"
    and "latest (comment_answer (w_repo row) (w_object row) (marker_of row)) (RunTool c a # Checkout r k br d res # tr)
           = Some (Inr False)"
  using assms
  by (auto simp: may_edit_def justified_def facts answers sealed address_prompt_def tool_call_def
      sealed_input_def seen_open_def split: option.splits)

lemma edit_guarded:
  assumes "may_edit w row (eng_trace s)" "edit w i row r budget posts dir branch s = (x, s')"
  shows "guarded w (eng_trace s')"
  using assms(2) checkout_run_facts[OF assms(1)]
  by (auto simp: edit_def prog_simps Let_def safe_publish[unfolded safe_def] dest!: quiet_parts_guarded(1)[where w = w]
      split: sum.splits prod.splits tool_end.splits step.splits)

lemma quiet_parts_edit:
  "remaining_usd w' row' r s = (y, s') \<Longrightarrow> may_edit w row (eng_trace s') = may_edit w row (eng_trace s)"
  "reach w' i st dir branch s = (z, s') \<Longrightarrow> may_edit w row (eng_trace s') = may_edit w row (eng_trace s)"
  "remaining_usd w' row' r s = (y, s') \<Longrightarrow> guarded w (eng_trace s') = guarded w (eng_trace s)"
  "reach w' i st dir branch s = (z, s') \<Longrightarrow> guarded w (eng_trace s') = guarded w (eng_trace s)"
  by (rule may_edit_quietly, erule keepsD[rotated], rule quietly_parts)+
    (rule quietly_facts(1), erule keepsD[rotated], rule quietly_parts)+

lemma quiet_remaining:
  "remaining_usd w' row' r s = (y, s') \<Longrightarrow>
   may_edit w row (eng_trace s') = may_edit w row (eng_trace s) \<and> guarded w (eng_trace s') = guarded w (eng_trace s)"
  by (simp add: quiet_parts_edit)

lemma may_edit_guarded: "may_edit w row tr \<Longrightarrow> guarded w tr"
  by (simp add: may_edit_def)

lemma checkout_guarded:
  assumes "may_edit w row (eng_trace s)"
  shows "guarded w (eng_trace (snd (in_checkout w i row r budget posts s)))"
proof -
  define branch where "branch = branch_of row i"
  define dir where "dir = wo_worktree_path w branch"
  obtain z s1 where reach: "reach w i WORKTREE dir branch s = (z, s1)" by fastforce
  obtain res s2 where ed: "edit w i row r budget posts dir branch s1 = (res, s2)" by fastforce
  from quiet_parts_edit(2)[OF reach] assms have may: "may_edit w row (eng_trace s1)" by simp
  from edit_guarded[OF may ed] have g2: "guarded w (eng_trace s2)" .
  define s3 where "s3 = s2\<lparr>eng_trace := Discard dir (wo_discard w (eng_trace s2) dir) # eng_trace s2\<rparr>"
  have g3: "guarded w (eng_trace s3)" using g2 by (simp add: s3_def justified_def)
  define rest :: "(str, step) eng" where "rest = andthen (case wo_discard w (eng_trace s2) dir of
      Inl why \<Rightarrow> record_audit w (w_rule row) (w_key row) (lit ''discard_failed: '' @ why) | Inr _ \<Rightarrow> ret ())
     (andthen (clear_item_journal w i) (case res of Inl why \<Rightarrow> throw why | Inr st \<Rightarrow> ret st))"
  have "keeps quietly rest"
    unfolding rest_def by (intro quietly_base quietly_parts)
  from safe_quiet[OF this g3] have g4: "guarded w (eng_trace (snd (rest s3)))" by (simp add: safe_def)
  show ?thesis
  proof (cases z)
    case (Inl e)
    with reach may show ?thesis
      by (simp add: in_checkout_def prog_simps Let_def branch_def[symmetric] dir_def[symmetric] may_edit_guarded)
  next
    case (Inr u)
    have "(caught (edit w i row r budget posts dir branch) :: (str, str + step) eng) s1 = (Inr res, s2)"
      by (simp add: caught_apply ed)
    then have "snd (in_checkout w i row r budget posts s) = snd (rest s3)"
      using reach Inr
      by (simp add: in_checkout_def bnd_apply andthen_apply ask_apply Let_def
          branch_def[symmetric] dir_def[symmetric] s3_def rest_def)
    with g4 show ?thesis by simp
  qed
qed

lemma address_guarded:
  assumes "guarded w (eng_trace s)" "seen_issue (eng_trace s) (w_repo row) (w_object row) = Some view"
    and "iv_open view" "\<not> iv_fork view"
  shows "safe w (address w i row r) s"
proof -
  have edit: "may_edit w row (Thread (w_repo row) (w_object row) (Inr posts)
      # HasComment (w_repo row) (w_object row) (marker_of row) (Inr False) # eng_trace s)"
    if "trusted_thread w posts" for posts
    using assms that by (simp add: may_edit_def justified_def trusted_context_def facts answers)
  have base: "guarded w (Thread (w_repo row) (w_object row) a
      # HasComment (w_repo row) (w_object row) (marker_of row) b # eng_trace s)"
    "guarded w (HasComment (w_repo row) (w_object row) (marker_of row) b # eng_trace s)" for a b
    using assms(1) by (simp_all add: justified_def)
  show ?thesis
    using assms(1) base
    by (auto simp: safe_def address_def prog_simps Let_def edit checkout_guarded
        dest!: quiet_remaining[where w = w and row = row]
        split: sum.splits prod.splits if_splits option.splits)
qed

definition may_review :: "world \<Rightarrow> work_row \<Rightarrow> trace \<Rightarrow> bool" where
  "may_review w row tr \<longleftrightarrow> guarded w tr \<and> seen_open tr (w_repo row) (w_object row)
     \<and> latest (review_answer (w_repo row) (w_object row) (marker_of row)) tr = Some (Inr False)"

lemma quiet_remaining_review:
  "remaining_usd w' row' r s = (y, s') \<Longrightarrow>
   may_review w row (eng_trace s') = may_review w row (eng_trace s) \<and> guarded w (eng_trace s') = guarded w (eng_trace s)"
proof -
  assume "remaining_usd w' row' r s = (y, s')"
  then have q: "quietly s s'" by (rule keepsD[OF quietly_parts(1)])
  then obtain new where new: "eng_trace s' = new @ eng_trace s" "list_all quiet new"
    unfolding quietly_def by blast
  from quietly_facts(1)[OF q, of w] quietly_facts(3)[OF q] latest_quiet[OF new(2) quiet_answers(4)] show ?thesis
    by (simp add: may_review_def new(1))
qed

lemma write_review_guarded:
  assumes "may_review w row (eng_trace s)"
  shows "guarded w (eng_trace (snd (write_review w row view budget s)))"
proof -
  have base: "guarded w (RunModel (review_call w budget (wrap_untrusted t)) c # Diff r k a # eng_trace s)"
    "guarded w (Diff r k a # eng_trace s)" for t c r k a
    using assms by (simp_all add: may_review_def justified_def sealed no_tools_calls)
  have save: "guarded w (PendingReview (w_repo row) (w_object row) (kept @ [10, 10] @ HIDDEN_MARKER @ [10] @ marker_of row) d
      # RunModel (review_call w budget (wrap_untrusted t)) c # Diff r k a # eng_trace s)" for kept d t c r k a
  proof -
    have "not_yet_reviewed (RunModel (review_call w budget (wrap_untrusted t)) c # Diff r k a # eng_trace s)
        (w_repo row) (w_object row) (kept @ [10, 10] @ HIDDEN_MARKER @ [10] @ marker_of row)"
      using assms by (intro commentedI(2)[of _ _ "marker_of row"])
        (auto simp: may_review_def answers marker_not_Nil intro!: marker_last)
    moreover have "seen_open (RunModel (review_call w budget (wrap_untrusted t)) c # Diff r k a # eng_trace s)
        (w_repo row) (w_object row)"
      using assms by (simp add: may_review_def facts answers)
    ultimately show ?thesis
      using base(1)[of t c r k a] by (simp add: justified_def)
  qed
  have spent: "guarded w (eng_trace (snd (andthen (spend w row usd) n s')))"
    if "guarded w (eng_trace s')" "keeps quietly n" for usd s' and n :: "(str, step) eng"
    using safe_quiet[OF qs.keeps_andthen[OF quietly_parts(4) that(2)] that(1)] by (simp add: safe_def)
  have quick: "keeps quietly (throw e :: (str, step) eng)" "keeps quietly (ret st :: (str, step) eng)" for e st
    by (intro quietly_base)+
  show ?thesis
    unfolding write_review_def Let_def bnd_apply ask_try_apply ask_apply
    using base save spent[OF _ quick(1)] spent[OF _ quick(2)]
    by (simp split: sum.split option.split del: guarded.simps add: ret_apply)
qed

lemma safe_review:
  assumes "guarded w (eng_trace s)" "seen_open (eng_trace s) (w_repo row) (w_object row)"
  shows "safe w (review w row r view) s"
proof -
  have may: "may_review w row (HasReview (w_repo row) (w_object row) (marker_of row) (Inr False) # eng_trace s)"
    using assms by (simp add: may_review_def justified_def facts answers)
  have base: "guarded w (HasReview (w_repo row) (w_object row) (marker_of row) b # eng_trace s)" for b
    using assms by (simp add: justified_def)
  show ?thesis
    using assms(1) base may unfolding safe_def review_def
    by (auto simp: prog_simps write_review_guarded dest!: quiet_remaining_review[where w = w and row = row]
        split: sum.splits prod.splits option.splits)
qed

lemma safe_act:
  assumes "guarded w (eng_trace s)" "seen_issue (eng_trace s) (w_repo row) (w_object row) = Some view"
    and "stale_reason row r view = None"
  shows "safe w (act w i row r view) s"
proof -
  have open_it: "iv_open view" and fork: "rule_do r = AddressComment \<Longrightarrow> \<not> iv_fork view"
    using assms(3) by (auto simp: stale_reason_def split: if_splits)
  then have "seen_open (eng_trace s) (w_repo row) (w_object row)"
    using assms(2) by (simp add: seen_open_def)
  with assms(1,2) open_it fork show ?thesis
    by (cases "rule_do r")
      (simp_all add: act_def safe_labels address_guarded safe_review safe_merge safe_update safe_comment)
qed

definition keeps_guarded :: "world \<Rightarrow> engine \<Rightarrow> engine \<Rightarrow> bool" where
  "keeps_guarded w s s' \<longleftrightarrow> (guarded w (eng_trace s) \<longrightarrow> guarded w (eng_trace s'))"

lemma guarded_perform: "keeps (keeps_guarded w) (perform w i row r)"
  unfolding keeps_def keeps_guarded_def
proof (intro allI impI)
  fix s :: engine
  assume g: "guarded w (eng_trace s)"
  have base: "guarded w (Issue (w_repo row) (w_object row) a # eng_trace s)" for a
    using g by (simp add: justified_def)
  have "safe w (act w i row r view) (s\<lparr>eng_trace := Issue (w_repo row) (w_object row) (Inr view) # eng_trace s\<rparr>)"
    if "stale_reason row r view = None" for view
    using that base by (intro safe_act) (simp_all add: seen_issue_def answers)
  with base show "guarded w (eng_trace (snd (perform w i row r s)))"
    by (auto simp: perform_def prog_simps safe_def split: sum.splits option.splits)
qed

interpretation guards: engine_law "keeps_guarded w" w for w
proof unfold_locales
  show "keeps_guarded w s s" for s by (simp add: keeps_guarded_def)
  show "keeps_guarded w s u" if "keeps_guarded w s t" "keeps_guarded w t u" for s t u
    using that by (simp add: keeps_guarded_def)
  show "keeps_guarded w s (s\<lparr>eng_trace := e # eng_trace s\<rparr>)" if "quiet e" for e s
    using that by (simp add: keeps_guarded_def quiet_justified)
  show "keeps_guarded w s (s\<lparr>eng_store := st\<rparr>)" for s st by (simp add: keeps_guarded_def)
  show "keeps (keeps_guarded w) (perform w i row r)" for i row r by (rule guarded_perform)
qed

section \<open>Recovery and a pass\<close>

lemma quietly_guarded: "keeps quietly m \<Longrightarrow> keeps (keeps_guarded w) m"
  unfolding keeps_def keeps_guarded_def by (meson quietly_facts(1))

lemma guarded_complete:
  assumes "eng_trace s = BranchPushed (w_repo row) branch (Inr True) # tr" "guarded w (eng_trace s)"
  shows "guarded w (eng_trace (snd (complete_item w i row s)))"
  using assms by (auto simp: complete_item_def prog_simps Let_def justified_def split: option.splits sum.splits)

lemma guarded_ask: "(\<And>a tr. justified w (note a) tr) \<Longrightarrow> keeps (keeps_guarded w) (ask f note)"
  by (simp add: keeps_def keeps_guarded_def prog_simps)

lemma guarded_requeue: "keeps (keeps_guarded w) (requeue_item w i j)"
  unfolding requeue_item_def
  by (intro guards.keeps_base keeps_sum guarded_ask quietly_guarded[OF quietly_txn]) (simp add: justified_def)

lemma guarded_recover_item: "keeps (keeps_guarded w) (recover_item w i row j)"
proof (cases "\<exists>e. j = Some e \<and> j_step e = PUSHED")
  case True
  then obtain e where e: "j = Some e" "j_step e = PUSHED" by blast
  have "guarded w (eng_trace (snd (recover_item w i row j s)))" if g: "guarded w (eng_trace s)" for s
  proof -
    define a where "a = wo_branch_pushed w (eng_trace s) (w_repo row) (j_branch e)"
    define s1 where "s1 = s\<lparr>eng_trace := BranchPushed (w_repo row) (j_branch e) a # eng_trace s\<rparr>"
    have g1: "guarded w (eng_trace s1)" using g by (simp add: s1_def justified_def)
    have "recover_item w i row j s = (if a = Inr True then complete_item w i row s1 else requeue_item w i e s1)"
      using e by (auto simp: recover_item_def branch_is_pushed_def prog_simps a_def s1_def split: sum.splits)
    then show ?thesis
      using guarded_complete[of s1 row "j_branch e" "eng_trace s" w i] g1
        keepsD[OF guarded_requeue[of w i e] surjective_pairing, of s1]
      by (auto simp: s1_def keeps_guarded_def)
  qed
  then show ?thesis by (simp add: keeps_def keeps_guarded_def)
next
  case False
  then have "branch_is_pushed w row j = ret False"
    by (auto simp: branch_is_pushed_def split: option.splits)
  moreover have "j_step e \<noteq> PUSHED" if "j = Some e" for e using False that by blast
  ultimately show ?thesis
    unfolding recover_item_def
    by (cases j) (auto intro!: guards.keeps_base keeps_if guarded_requeue quietly_guarded[OF quietly_txn])
qed

lemma guarded_recover: "keeps (keeps_guarded w) (recover w)"
  unfolding recover_def recover_one_def
  by (intro guards.keeps_base guards.keeps_for_each keeps_option guarded_recover_item)

text \<open>Nothing of a pass but the engine's own calls and recovery leaves the quiet effects.\<close>

lemma quietly_check_reply: "keeps quietly (check_reply w r)"
  unfolding check_reply_def by (intro quietly_base)

lemma quietly_read_pages: "keeps quietly (read_pages w repo ep since left is_first etag url ps)"
  by (induction left arbitrary: is_first etag url ps)
    (auto intro!: quietly_base quietly_ask_try quietly_check_reply split: sum.splits)

lemma quietly_poll: "keeps quietly (poll w repo ep poll_seconds c)"
  unfolding poll_def by (intro quietly_base quietly_read_pages)

lemma quietly_rules_of_keys: "keeps quietly (rules_of_keys w repo keys rules)"
  by (induction keys arbitrary: rules) (auto intro!: quietly_base quietly_ask_try)

lemma quietly_repo_rules: "keeps quietly (repo_rules w repo)"
  unfolding repo_rules_def by (intro quietly_base quietly_rules_of_keys quietly_ask_try) simp_all

lemma quietly_poll_failed: "keeps quietly (poll_failed w source err rp)"
  unfolding poll_failed_def by (intro quietly_base) (auto split: source_error.split intro!: quietly_base)

lemma quietly_report_item: "keeps quietly (report_item w i rp)"
  unfolding report_item_def by (intro quietly_base)

lemma with_settings_same:
  "txn (with_settings w st) = txn w" "query (with_settings w st) = query w"
  "wo_branch_pushed (with_settings w st) = wo_branch_pushed w"
  "wo_ensure_marker (with_settings w st) = wo_ensure_marker w"
  "wo_remove_worktree (with_settings w st) = wo_remove_worktree w"
  by (simp_all add: fun_eq_iff txn_def query_def access_def with_settings_def)

lemma recover_with_settings: "recover (with_settings w st) = recover w"
proof -
  have item: "recover_item (with_settings w st) i row j = recover_item w i row j" for i row j
    unfolding recover_item_def branch_is_pushed_def complete_item_def requeue_item_def with_settings_same ..
  have "recover_one (with_settings w st) i out = recover_one w i out" for i out
    unfolding recover_one_def with_settings_same item ..
  then have "recover_one (with_settings w st) = recover_one w" by blast
  then show ?thesis by (simp add: recover_def with_settings_same)
qed

lemma guarded_poll_source:
  "keeps (keeps_guarded (with_settings w st)) (poll_source w st repo rules lvl ep source c now rp)"
  unfolding poll_source_def
  by (intro guards.keeps_rules keeps_sum keeps_prod keeps_poll_result guards.keeps_map_error guards.keeps_ingest
      guards.keeps_for_each quietly_guarded quietly_poll quietly_report_item quietly_txn quietly_poll_failed)

lemma guarded_cycle_source:
  "keeps (keeps_guarded (with_settings w st)) (cycle_source w st since repo rules lvl ep rp)"
  unfolding cycle_source_def
  by (intro guards.keeps_rules keeps_let keeps_prod keeps_if guarded_poll_source quietly_guarded
      quietly_query quietly_now quietly_txn)

lemma guarded_cycle: "keeps (keeps_guarded (with_settings w st)) (cycle w st since)"
proof -
  have "keeps (keeps_guarded (with_settings w st)) (recover w)"
    using guarded_recover[of "with_settings w st"] by (simp add: recover_with_settings)
  note recovered = guards.keeps_map_error[OF this]
  show ?thesis
    unfolding cycle_def cycle_repo_def
    by (intro recovered guards.keeps_rules keeps_prod guards.keeps_map_error guards.keeps_for_each guards.keeps_redecide
        guards.keeps_run_approved guarded_cycle_source quietly_guarded quietly_repo_rules)
qed

lemma guarded_run_op: "keeps_guarded w s (run_op w op s)"
proof (cases op)
  case (OpCycle st since)
  then show ?thesis
    using guarded_cycle[of w "in_force w st" since] by (simp add: keeps_def)
qed (auto intro!: keeps_snd[where R = "keeps_guarded w"] guards.keeps_ingest guards.keeps_approve
    guards.keeps_run_approved guards.keeps_redecide guards.keeps_retry guards.keeps_reject
    guards.keeps_set_paused guarded_recover)

text \<open>
  C1. Whatever the outside answers and whatever operations are called in whatever order, every
  visible effect on the trace is justified by what was read just before it. A label is added
  only to an issue last read as open, and only one it did not have. A comment or review is
  posted only to an open issue on which its own marker was just looked for and not found. A
  pull request is merged only when merging is on, at exactly the head of a check made
  immediately before, whose author is allowed and which is green, has no open change or review
  request and has a trusted human approval by someone else. Code is checked out only for an
  open pull request of the same repository with nobody untrusted in its thread. The model
  edits only in that checkout, and otherwise has no tools. Everything it reads from GitHub is
  sealed in an untrusted block. A change is pushed only after its measured size passed the caps.
\<close>

theorem every_effect_justified: "guarded w (eng_trace (run_ops w ops fresh_engine))"
proof -
  have "keeps_guarded w s (run_ops w ops s)" for s
    unfolding run_ops_def
    by (induction ops arbitrary: s) (auto simp: guards.R_refl intro: guards.R_trans[OF guarded_run_op])
  then show ?thesis by (simp add: keeps_guarded_def fresh_engine_def)
qed

end
