(* ===== verification/Watch_Items.thy ===== *)
theory Watch_Items
  imports Watch_Safety
begin

text \<open>
  The life of one item: when a rule may act on its own, what a pause stops, how failures are
  retried, what is left behind, what a day may still cost. And the places where the code does
  less than it promises.
\<close>

section \<open>Unattended items\<close>

definition item_usage :: "store \<Rightarrow> work_row \<Rightarrow> int \<Rightarrow> usage" where
  "item_usage st row now =
     \<lparr>used_rule_actions = fst (counter_of st (day_of now) (w_rule row)),
      used_rule_usd = snd (counter_of st (day_of now) (w_rule row)),
      used_global_actions = fst (counter_of st (day_of now) (lit ''*'')),
      used_global_usd = snd (counter_of st (day_of now) (lit ''*''))\<rparr>"

definition item_caps :: "world \<Rightarrow> rule \<Rightarrow> caps" where
  "item_caps w r =
     \<lparr>max_rule_actions = lim_actions_per_day (rule_limits r), max_rule_usd = lim_usd_per_day (rule_limits r),
      max_global_actions = wo_actions_per_day w, max_global_usd = wo_usd_per_day w\<rparr>"

text \<open>The contract of an unattended action, over the tables as they are.\<close>

definition may_run_alone :: "world \<Rightarrow> store \<Rightarrow> work_row \<Rightarrow> rule \<Rightarrow> int \<Rightarrow> bool" where
  "may_run_alone w st row r now \<longleftrightarrow>
     within_caps (item_usage st row now) (item_caps w r) 0
       (last_acted_of st (w_rule row) (w_repo row) (w_object row)) now
     \<and> (runs_free (rule_do r) \<or> ladder_allows (approvals_of st (do_as_str (rule_do r))) now = Inr ())"

lemma quiet_demotion: "keeps quietly (demotion w row r)"
  unfolding demotion_def by (intro quietly_base)

lemma store_of_query: "query w conv q s = (x, s') \<Longrightarrow> eng_store s' = eng_store s"
  by (auto simp: prog_simps Let_def)

lemma demotion_None:
  assumes "demotion w row r s = (Inr None, s')"
  shows "may_run_alone w (eng_store s) row r (wo_now w (eng_trace s))" "eng_store s' = eng_store s"
proof -
  define now where "now = wo_now w (eng_trace s)"
  have usage: "\<lparr>used_rule_actions = a, used_rule_usd = b, used_global_actions = c, used_global_usd = d\<rparr>
      = item_usage st row now"
    if "counter_of st (day_of now) (w_rule row) = (a, b)" "counter_of st (day_of now) (lit ''*'') = (c, d)" for st a b c d
    using that by (simp add: item_usage_def)
  from assms show "may_run_alone w (eng_store s) row r (wo_now w (eng_trace s))" "eng_store s' = eng_store s"
    by (auto simp: demotion_def prog_simps Let_def may_run_alone_def item_caps_def now_def[symmetric] usage
        dest: check_caps_ok_iff[THEN iffD1] split: option.splits sum.splits prod.splits if_splits)
qed

lemma quietly_settle: "keeps quietly (settle w i row res)"
  unfolding settle_def finish_def demote_def set_item_def fail_def Let_def
  by (cases res; simp) (auto split: step.split intro!: quietly_base quietly_ask)

lemma quietly_demote: "keeps quietly (demote w i row reason noted)"
  unfolding demote_def set_item_def by (intro quietly_base)

lemma quietly_finish: "keeps quietly (finish w i row outcome cost)"
  unfolding finish_def by (intro quietly_base)

lemma level_Auto: "level r ceil = Auto \<longleftrightarrow> rule_autonomy r = Auto \<and> ceil = Auto \<and> highest (rule_do r) = Auto"
  by (cases "rule_autonomy r"; cases ceil; cases "highest (rule_do r)")
    (simp_all add: level_def effective_def min_def less_eq_autonomy_def)

text \<open>
  C18. An item that a rule queued on its own does nothing anyone can see unless the rule is still
  there, the rule and the ceiling are both at \<^verbatim>\<open>auto\<close>, the action is one that may run
  unattended at all (never one that writes code, reviews or merges), every day cap and the
  object's cooldown allow it now, and its class has climbed the ladder or is free to run.
\<close>

theorem unattended_needs_permission:
  assumes "w_reason row = Some AUTO" and "run w i row rules ceil s = (res, s')" and "\<not> quietly s s'"
  shows "\<exists>r. find_rule rules (w_rule row) = Some r \<and> rule_autonomy r = Auto \<and> ceil = Auto
    \<and> rule_do r \<notin> {AddressComment, ReviewPr, MergeWhenGreen}
    \<and> may_run_alone w (eng_store s) row r (wo_now w (eng_trace s))"
proof (cases "find_rule rules (w_rule row)")
  case None
  with assms(2) have "quietly s s'" by (auto simp: run_def intro: keepsD[OF quietly_finish])
  with assms(3) show ?thesis by simp
next
  case (Some r)
  have "level r ceil = Auto"
  proof (rule ccontr)
    assume "level r ceil \<noteq> Auto"
    with assms Some have "quietly s s'" by (auto simp: run_def intro: keepsD[OF quietly_demote])
    with assms(3) show False by simp
  qed
  moreover obtain d s1 where d: "demotion w row r s = (d, s1)" by fastforce
  have "d = Inr None"
  proof (rule ccontr)
    assume not_free: "d \<noteq> Inr None"
    have q1: "quietly s s1" by (rule keepsD[OF quiet_demotion d])
    have "quietly s1 s'"
    proof (cases d)
      case (Inl e)
      with assms Some d calculation show ?thesis by (auto simp: run_def prog_simps Let_def qs.R_refl)
    next
      case (Inr v)
      with not_free obtain reason detail where "v = Some (reason, detail)" by (cases v) auto
      with assms Some d calculation Inr show ?thesis
        by (auto simp: run_def bnd_apply Let_def intro: keepsD[OF quietly_demote])
    qed
    with q1 assms(3) show False by (blast intro: qs.R_trans)
  qed
  with d have "may_run_alone w (eng_store s) row r (wo_now w (eng_trace s))" by (auto dest: demotion_None)
  ultimately show ?thesis using Some by (auto simp: level_Auto)
qed

definition sample_row :: "str option \<Rightarrow> work_row" where
  "sample_row reason = \<lparr>w_key = lit ''issue:7:opened:triage'', w_rule = lit ''triage'', w_repo = lit ''o/r'',
     w_object = 7, w_body_hash = [1, 2], w_state = lit ''approved'', w_reason = reason, w_attempts = 0,
     w_not_before = 0\<rparr>"

lemma sample_row_sel [simp]:
  "w_rule (sample_row a) = lit ''triage''" "w_repo (sample_row a) = lit ''o/r''" "w_object (sample_row a) = 7"
  "w_reason (sample_row a) = a" "w_attempts (sample_row a) = 0" "w_body_hash (sample_row a) = [1, 2]"
  by (simp_all add: sample_row_def)

lemma sample_find: "find_rule [(lit ''triage'', r)] (lit ''triage'') = Some r"
  by (simp add: find_rule_def)

lemma sample_run_labels:
  "AddLabels (lit ''o/r'') 7 [lit ''bug''] (Inr ())
   \<in> set (eng_trace (snd (run sample_world 1 (sample_row (Some AUTO)) [(lit ''triage'', sample_rule)] Auto fresh_engine)))"
proof -
  have "level sample_rule Auto = Auto" by (simp add: level_Auto)
  moreover have "counter_of empty_store d sc = (0, 0)" "last_acted_of empty_store a b c = None" for d sc a b c
    by (simp_all add: counter_of_def last_acted_of_def empty_store_def)
  ultimately show ?thesis
    by (simp add: run_def sample_find prog_simps Let_def demotion_def fresh_engine_def check_caps_def
        default_limits_def perform_def stale_reason_def sample_view_def act_def add_missing_labels_def
        wanted_labels_def settle_def finish_def record_audit_def)
qed

lemma fresh_not_quiet: "e \<in> set (eng_trace s') \<Longrightarrow> \<not> quiet e \<Longrightarrow> \<not> quietly fresh_engine s'"
  by (auto simp: quietly_def fresh_engine_def list_all_iff)

theorem unattended_needs_permission_witness:
  "\<exists>r. find_rule [(lit ''triage'', sample_rule)] (lit ''triage'') = Some r \<and> rule_autonomy r = Auto
    \<and> rule_do r \<notin> {AddressComment, ReviewPr, MergeWhenGreen}
    \<and> may_run_alone sample_world empty_store (sample_row (Some AUTO)) r 1793491200"
proof -
  let ?run = "run sample_world 1 (sample_row (Some AUTO)) [(lit ''triage'', sample_rule)] Auto fresh_engine"
  have "\<not> quietly fresh_engine (snd ?run)" by (rule fresh_not_quiet[OF sample_run_labels]) simp
  from unattended_needs_permission[OF _ surjective_pairing this] show ?thesis
    by (simp add: fresh_engine_def)
qed

section \<open>A pause\<close>

definition is_paused :: "store \<Rightarrow> bool" where
  "is_paused st \<longleftrightarrow> control_of st (lit ''paused'') = Some (lit ''1'')"

lemma paused_apply:
  "paused w s = (case wo_disk w (eng_trace s) of
      Some e \<Rightarrow> (Inl (Store e), s\<lparr>eng_trace := Disk (Some e) # eng_trace s\<rparr>)
    | None \<Rightarrow> (Inr (is_paused (eng_store s)), s\<lparr>eng_trace := Disk None # eng_trace s\<rparr>))"
  by (simp add: paused_def prog_simps Let_def is_paused_def split: option.split)

lemma run_due_paused:
  assumes "is_paused (eng_store s)" "run_due w repo rules ceil is n s = (res, s')"
  shows "quietly s s' \<and> eng_store s' = eng_store s \<and> (\<forall>k. res = Inr k \<longrightarrow> k = n)"
  using assms by (cases "is") (auto simp: prog_simps paused_apply quietly_def split: option.splits)

lemma paused_facts:
  assumes "is_paused (eng_store s)"
  shows "run_approved w repo rules ceil s = (res, s1) \<Longrightarrow>
      quietly s s1 \<and> eng_store s1 = eng_store s \<and> res \<in> range Inl \<union> {Inr 0}"
    and "approve w i rules lock_free s = (out, s2) \<Longrightarrow> quietly s s2 \<and> out \<in> range Inl \<union> {Inr Handed}"
proof -
  show "quietly s s1 \<and> eng_store s1 = eng_store s \<and> res \<in> range Inl \<union> {Inr 0}"
    if run: "run_approved w repo rules ceil s = (res, s1)"
  proof -
    have "quietly s s1 \<and> eng_store s1 = eng_store s \<and> (\<forall>k. res = Inr k \<longrightarrow> k = 0)"
    proof (cases "wo_disk w (Clock (wo_now w (eng_trace s)) # eng_trace s)")
      case None
      define s0 where "s0 = s\<lparr>eng_trace := Disk None # Clock (wo_now w (eng_trace s)) # eng_trace s\<rparr>"
      have "quietly s s0" "eng_store s0 = eng_store s" by (auto simp: s0_def quietly_def)
      moreover obtain "is" where "run_due w repo rules ceil is 0 s0 = (res, s1)"
        using run None by (auto simp: run_approved_def prog_simps Let_def s0_def)
      ultimately show ?thesis
        using run_due_paused[of s0 w repo rules ceil "is" 0 res s1] assms by (auto intro: qs.R_trans)
    qed (use run in \<open>auto simp: run_approved_def prog_simps Let_def quietly_def\<close>)
    then show ?thesis by (cases res) auto
  qed
  show "quietly s s2 \<and> out \<in> range Inl \<union> {Inr Handed}" if ap: "approve w i rules lock_free s = (out, s2)"
  proof -
    have still: "is_paused (stamp_approved i now (set_state i state reason (eng_store s)))" for now state reason
      using assms by (simp add: is_paused_def control_of_def stamp_approved_def set_state_def update_work_def)
    from ap show ?thesis
      by (auto simp: approve_def work_in_def prog_simps Let_def paused_apply still record_audit_def quietly_def
          split: option.splits if_splits sum.splits)
  qed
qed



section \<open>Failures\<close>

definition fair_jitter :: "world \<Rightarrow> bool" where
  "fair_jitter w \<longleftrightarrow> (\<forall>tr. jitter (wo_pick w tr))"

text \<open>
  C29. A failed try is never lost and never tried for ever: below five tries the item stays
  approved, on the same grounds, with one more try counted and a wait of at most eight minutes
  from the time read; the fifth failure puts it on the dead list with what went wrong.
\<close>

theorem fail_is_bounded:
  assumes "fair_jitter w" and "fail w i row why s = (Inr out, s')"
  shows "if w_attempts row + 1 < MAX_ATTEMPTS
    then out = Retry \<and> (\<exists>t. wo_now w (eng_trace s) \<le> t \<and> t \<le> wo_now w (eng_trace s) + 480
      \<and> eng_store s' = set_retry i (lit ''approved'') (w_reason row) (w_attempts row + 1) t (eng_store s))
    else out = Dead \<and> eng_store s' = set_retry i (lit ''dead'') (Some why) (w_attempts row + 1) 0 (eng_store s)"
proof (cases "w_attempts row + 1 < MAX_ATTEMPTS")
  case True
  then have n: "w_attempts row < MAX_ATTEMPTS" by simp
  define tr where "tr = Clock (wo_now w (eng_trace s)) # eng_trace s"
  have "jitter (wo_pick w tr)" using assms(1) by (simp add: fair_jitter_def)
  from jitter.delay_first_tries[OF this n] True assms(2) show ?thesis
    by (auto simp: fail_def prog_simps Let_def record_audit_def tr_def[symmetric] split: option.splits
        intro!: exI[of _ "wo_now w (eng_trace s) + delay (w_attempts row) (wo_pick w tr)"])
next
  case False
  with assms(2) show ?thesis
    by (auto simp: fail_def prog_simps Let_def record_audit_def split: option.splits)
qed

theorem fail_is_bounded_witness:
  "\<exists>s' t. fail sample_world 1 (sample_row None) (lit ''no'') fresh_engine = (Inr Retry, s')
     \<and> eng_store s' = set_retry 1 (lit ''approved'') None 1 t empty_store \<and> t \<le> 1793491200 + 480"
proof -
  have fair: "fair_jitter sample_world" by (simp add: fair_jitter_def jitter_def)
  have "\<exists>s'. fail sample_world 1 (sample_row None) (lit ''no'') fresh_engine = (Inr Retry, s')"
    by (simp add: fail_def prog_simps Let_def record_audit_def)
  then obtain s' where run: "fail sample_world 1 (sample_row None) (lit ''no'') fresh_engine = (Inr Retry, s')" by blast
  from fail_is_bounded[OF fair run] run show ?thesis by (auto simp: fresh_engine_def)
qed

section \<open>What an edit leaves behind\<close>

text \<open>The last thing that happened to a checkout: made, or removed.\<close>

definition site_change :: "effect \<Rightarrow> (bool \<times> str) option" where
  "site_change e = (case e of Checkout _ _ _ dir _ \<Rightarrow> Some (True, dir) | Discard dir _ \<Rightarrow> Some (False, dir) | _ \<Rightarrow> None)"

definition reliable_disk :: "world \<Rightarrow> bool" where
  "reliable_disk w \<longleftrightarrow> (\<forall>tr. wo_disk w tr = None)"

lemma txn_reliable: "reliable_disk w \<Longrightarrow> txn w conv (modify f) s
    = (Inr (), s\<lparr>eng_trace := Disk None # eng_trace s, eng_store := f (eng_store s)\<rparr>)"
  by (simp add: txn_modify_apply reliable_disk_def)

lemma query_reliable: "reliable_disk w \<Longrightarrow> query w conv q s
    = (Inr (q (eng_store s)), s\<lparr>eng_trace := Disk None # eng_trace s\<rparr>)"
  by (simp add: query_apply reliable_disk_def)

lemma in_checkout_clean:
  assumes "reliable_disk w" "in_checkout w i row r budget posts s = (res, s')"
  shows "t_journal (eng_store s') i = None"
    "latest site_change (eng_trace s') = Some (False, wo_worktree_path w (branch_of row i))"
proof -
  define branch where "branch = branch_of row i"
  define dir where "dir = wo_worktree_path w branch"
  define s1 where "s1 = snd (reach w i WORKTREE dir branch s)"
  have reach: "reach w i WORKTREE dir branch s = (Inr (), s1)"
    using assms(1) by (simp add: reach_def txn_reliable s1_def)
  obtain e s2 where ed: "edit w i row r budget posts dir branch s1 = (e, s2)" by fastforce
  have caught: "(caught (edit w i row r budget posts dir branch) :: (str, str + step) eng) s1 = (Inr e, s2)"
    by (simp add: caught_apply ed)
  from assms(2) have "t_journal (eng_store s') i = None \<and> latest site_change (eng_trace s') = Some (False, dir)"
    using reach caught assms(1)
    by (auto simp: in_checkout_def bnd_apply andthen_apply ask_apply Let_def branch_def[symmetric] dir_def[symmetric]
        clear_item_journal_def txn_reliable clear_journal_def site_change_def ret_apply throw_apply
        record_audit_def now_of_apply modify_apply split: sum.splits)
  then show "t_journal (eng_store s') i = None"
    "latest site_change (eng_trace s') = Some (False, wo_worktree_path w (branch_of row i))"
    by (simp_all add: dir_def branch_def)
qed

lemma remaining_keeps:
  assumes "remaining_usd w row r s = (x, s')"
  shows "eng_store s' = eng_store s" "latest site_change (eng_trace s') = latest site_change (eng_trace s)"
  using assms by (auto simp: remaining_usd_def prog_simps Let_def site_change_def split: option.splits)



section \<open>Money\<close>

text \<open>
  The budget of a model call is a whole number of cents, at least one, within what the rule
  and the day as a whole have left, and less than a cent short of it.
\<close>

theorem remaining_usd_within:
  assumes "remaining_usd w row r s = (Inr (Some b), s')"
  defines "day \<equiv> day_of (wo_now w (eng_trace s))"
  defines "left \<equiv> min (lim_usd_per_day (rule_limits r) - snd (counter_of (eng_store s) day (w_rule row)))
                      (wo_usd_per_day w - snd (counter_of (eng_store s) day (lit ''*'')))"
  shows "1 / 100 \<le> b \<and> b \<le> left \<and> left < b + 1 / 100 \<and> b * 100 \<in> \<int>"
proof -
  have "whole_cents left = Some b"
    using assms(1) unfolding left_def day_def
    by (simp add: remaining_usd_def prog_simps Let_def split: option.splits)
  then have "1 / 100 \<le> (of_int \<lfloor>left * 100\<rfloor> / 100 :: usd) \<and> of_int \<lfloor>left * 100\<rfloor> / 100 = b"
    unfolding whole_cents_def Let_def by (metis option.distinct(1) option.inject)
  then have c: "1 / 100 \<le> (of_int \<lfloor>left * 100\<rfloor> / 100 :: usd)" and e: "of_int \<lfloor>left * 100\<rfloor> / 100 = b"
    by (rule conjunct1, elim conjunct2)
  have floor: "of_int \<lfloor>left * 100\<rfloor> \<le> left * 100" "left * 100 < of_int \<lfloor>left * 100\<rfloor> + 1"
    by linarith+
  have int: "(of_int \<lfloor>left * 100\<rfloor> :: usd) \<in> \<int>" by simp
  define k :: usd where "k = of_int \<lfloor>left * 100\<rfloor>"
  from c e floor int have "1 / 100 \<le> k / 100" "k / 100 = b" "k \<le> left * 100" "left * 100 < k + 1" "k \<in> \<int>"
    by (fold k_def)
  then show ?thesis by auto
qed

theorem remaining_usd_within_witness:
  "\<exists>b. fst (remaining_usd sample_world (sample_row None)
        (sample_rule\<lparr>rule_limits := default_limits\<lparr>lim_usd_per_day := 2\<rparr>\<rparr>) fresh_engine) = Inr (Some b)
     \<and> 1 / 100 \<le> b \<and> b \<le> 2 \<and> b * 100 \<in> \<int>"
proof -
  let ?r = "sample_rule\<lparr>rule_limits := default_limits\<lparr>lim_usd_per_day := 2\<rparr>\<rparr>"
  let ?run = "remaining_usd sample_world (sample_row None) ?r fresh_engine"
  have "\<exists>b. fst ?run = Inr (Some b)"
    by (simp add: remaining_usd_def prog_simps Let_def fresh_engine_def counter_of_def empty_store_def whole_cents_def)
  then obtain b where "fst ?run = Inr (Some b)" by blast
  then have run: "?run = (Inr (Some b), snd ?run)" by (metis prod.collapse)
  from remaining_usd_within[OF run] \<open>fst ?run = _\<close> show ?thesis
    by (auto simp: fresh_engine_def counter_of_def empty_store_def)
qed

section \<open>Merging\<close>

text \<open>
  A pull request is ready exactly when its author is you or allowed, it is green, nobody
  asks for changes or is still asked for a review, and somebody other than the author, who may
  be believed, approved its current head.
\<close>

theorem ready_iff:
  "not_ready w c = None \<longleftrightarrow>
     (mc_author c = wo_me w \<or> mc_author c \<in> set (wo_allowed w)) \<and> mc_green c
     \<and> \<not> mc_changes_requested c \<and> \<not> mc_review_requested c
     \<and> (\<exists>(login, association) \<in> set (mc_approvers c). login \<noteq> mc_author c
          \<and> classify login association (wo_me w) (wo_allowed w) \<noteq> Untrusted)"
proof -
  have "classify a b c d \<in> {Trusted, SelfAuthored} \<longleftrightarrow> classify a b c d \<noteq> Untrusted" for a b c d
    by (cases "classify a b c d") auto
  then show ?thesis
    by (auto simp: not_ready_def human_approval_def list_ex_iff split: if_splits)
qed

section \<open>Where the code does less than it says\<close>

text \<open>
  The \<^verbatim>\<open>paths\<close> and the \<^verbatim>\<open>base\<close> of a rule's filter are parsed, checked and never looked at:
  a rule written for one branch or one directory matches everywhere.
\<close>

theorem paths_and_base_ignored:
  "matches (r\<lparr>rule_filter := (rule_filter r)\<lparr>f_paths := paths, f_base := base\<rparr>\<rparr>) e me = matches r e me"
  by (simp add: matches_def Let_def)

text \<open>
  A proposal that was approved once and sent back, and that a person then rejects, still
  counts on the ladder as an approved proposal that did not fail.
\<close>

theorem rejected_counts_as_approved:
  assumes "reliable_disk w" "t_work (eng_store s) i = Some row" "1 \<le> i" "i \<le> t_last_id (eng_store s)"
    and "w_state row = lit ''proposed''" "w_approved_at row = Some t"
  shows "fst (reject w i s) = Inr ()
    \<and> \<lparr>approval_at = t, approval_failed = False\<rparr> \<in> set (approvals_of (eng_store (snd (reject w i s))) (w_class row))"
proof -
  define st where "st = set_state i (lit ''done'') (Some (lit ''rejected'')) (eng_store s)"
  have work: "work_of (eng_store s) i = Some (work_row.truncate row)"
    using assms(2) by (simp add: work_of_def)
  have proposed: "w_state (work_row.truncate row) = lit ''proposed''"
    using assms(5) by (simp add: work_row.truncate_def)
  have run: "fst (reject w i s) = Inr ()" "eng_store (snd (reject w i s)) = st"
    using work proposed assms(1)
    by (simp_all add: reject_def work_in_def bnd_apply andthen_apply query_reliable txn_reliable set_item_def
        record_audit_def now_of_apply modify_apply st_def)
  have "t_work st i = Some (row\<lparr>w_state := lit ''done'', w_reason := Some (lit ''rejected'')\<rparr>)"
    using assms(2) by (simp add: st_def set_state_def update_work_def)
  moreover have "i \<in> set [1 ..< Suc (t_last_id st)]"
    using assms(3,4) by (auto simp: st_def set_state_def update_work_def)
  ultimately have "\<lparr>approval_at = t, approval_failed = False\<rparr> \<in> set (approvals_of st (w_class row))"
    using assms(6) by (auto simp: approvals_of_def List.map_filter_def image_iff intro!: bexI[of _ i])
  with run show ?thesis by simp
qed

definition sample_proposed :: store where
  "sample_proposed = empty_store\<lparr>t_last_id := 1, t_work := [1 \<mapsto>
     (fresh_row sample_item 100 False)\<lparr>w_state := lit ''proposed'', w_approved_at := Some 200\<rparr>]\<rparr>"

theorem rejected_counts_as_approved_witness:
  "\<lparr>approval_at = 200, approval_failed = False\<rparr>
   \<in> set (approvals_of (eng_store (snd (reject sample_world 1 \<lparr>eng_store = sample_proposed, eng_trace = []\<rparr>))) (lit ''label''))"
proof -
  let ?row = "(fresh_row sample_item 100 False)\<lparr>w_state := lit ''proposed'', w_approved_at := Some 200\<rparr>"
  have "fst (reject sample_world 1 \<lparr>eng_store = sample_proposed, eng_trace = []\<rparr>) = Inr ()
    \<and> \<lparr>approval_at = 200, approval_failed = False\<rparr>
      \<in> set (approvals_of (eng_store (snd (reject sample_world 1 \<lparr>eng_store = sample_proposed, eng_trace = []\<rparr>)))
          (w_class ?row))"
    by (rule rejected_counts_as_approved) (simp_all add: reliable_disk_def sample_proposed_def)
  then show ?thesis by (simp add: fresh_row_def sample_item_def)
qed

end
