(* ===== verification/Layout.thy ===== *)
theory Layout
  imports Prelude
begin

text \<open>
  The tab layout of the usage screen: \<^verbatim>\<open>crates/telemetry/src/tui/layout.rs\<close>. A layout is a
  list of tabs, each with a name, its panels and, when the user arranged it, the panel count of
  every row. It is stored as one line of text. Theorems: what the reader accepts is a
  well-formed layout, and a well-formed layout survives being written and read, except for one
  shape of tab that reads back as an automatic one.
\<close>

section \<open>Panels\<close>

datatype panel_id =
    Spend | Tokens | Models | Breakdown | Live | Sessions | Budget | Projection | Burnup
  | SpendTotal | SpendModel | SpendDaily
  | BreakdownProjects | BreakdownAgents | BreakdownSkills | BreakdownTools | BreakdownHealth

definition ALL_PANELS :: "panel_id list" where
  "ALL_PANELS = [Spend, Tokens, Models, Breakdown, Live, Sessions, Budget, Projection, Burnup,
     SpendTotal, SpendModel, SpendDaily,
     BreakdownProjects, BreakdownAgents, BreakdownSkills, BreakdownTools, BreakdownHealth]"

fun panel_word :: "panel_id \<Rightarrow> str" where
  "panel_word Spend = lit ''spend''"
| "panel_word Tokens = lit ''tokens''"
| "panel_word Models = lit ''models''"
| "panel_word Breakdown = lit ''breakdown''"
| "panel_word Live = lit ''live''"
| "panel_word Sessions = lit ''sessions''"
| "panel_word Budget = lit ''budget''"
| "panel_word Projection = lit ''projection''"
| "panel_word Burnup = lit ''burnup''"
| "panel_word SpendTotal = lit ''spend.total''"
| "panel_word SpendModel = lit ''spend.model''"
| "panel_word SpendDaily = lit ''spend.daily''"
| "panel_word BreakdownProjects = lit ''breakdown.projects''"
| "panel_word BreakdownAgents = lit ''breakdown.agents''"
| "panel_word BreakdownSkills = lit ''breakdown.skills''"
| "panel_word BreakdownTools = lit ''breakdown.tools''"
| "panel_word BreakdownHealth = lit ''breakdown.health''"

datatype focus_panel = FocusSpend | FocusTokens | FocusModels | FocusProjects | FocusLive | FocusSessions

fun focus_panel_of :: "panel_id \<Rightarrow> focus_panel option" where
  "focus_panel_of Spend = Some FocusSpend"
| "focus_panel_of SpendTotal = Some FocusSpend"
| "focus_panel_of SpendModel = Some FocusSpend"
| "focus_panel_of SpendDaily = Some FocusSpend"
| "focus_panel_of Tokens = Some FocusTokens"
| "focus_panel_of Models = Some FocusModels"
| "focus_panel_of Breakdown = Some FocusProjects"
| "focus_panel_of BreakdownProjects = Some FocusProjects"
| "focus_panel_of BreakdownAgents = Some FocusProjects"
| "focus_panel_of BreakdownSkills = Some FocusProjects"
| "focus_panel_of BreakdownTools = Some FocusProjects"
| "focus_panel_of BreakdownHealth = Some FocusProjects"
| "focus_panel_of Live = Some FocusLive"
| "focus_panel_of Sessions = Some FocusSessions"
| "focus_panel_of Budget = None"
| "focus_panel_of Projection = None"
| "focus_panel_of Burnup = None"

datatype spend_view = ViewTotal | ViewByModel | ViewDaily
datatype projects_view = ViewProjects | ViewAgents | ViewSkills | ViewTools | ViewHealth

fun spend_view_of :: "panel_id \<Rightarrow> spend_view option" where
  "spend_view_of SpendTotal = Some ViewTotal"
| "spend_view_of SpendModel = Some ViewByModel"
| "spend_view_of SpendDaily = Some ViewDaily"
| "spend_view_of _ = None"

fun projects_view_of :: "panel_id \<Rightarrow> projects_view option" where
  "projects_view_of BreakdownProjects = Some ViewProjects"
| "projects_view_of BreakdownAgents = Some ViewAgents"
| "projects_view_of BreakdownSkills = Some ViewSkills"
| "projects_view_of BreakdownTools = Some ViewTools"
| "projects_view_of BreakdownHealth = Some ViewHealth"
| "projects_view_of _ = None"

definition is_pinned :: "panel_id \<Rightarrow> bool" where
  "is_pinned p \<longleftrightarrow> spend_view_of p \<noteq> None \<or> projects_view_of p \<noteq> None"

definition parse_panel :: "str \<Rightarrow> panel_id option" where
  "parse_panel word = (let w = map to_ascii_lower (trim word) in find (\<lambda>p. panel_word p = w) ALL_PANELS)"

section \<open>Tabs\<close>

record tab =
  tab_name :: str
  tab_panels :: "panel_id list"
  tab_rows :: "nat list option"

definition auto_rows :: "nat \<Rightarrow> nat list" where
  "auto_rows n = (if n = 0 then [] else if n = 1 then [1] else if n = 2 then [1, 1]
     else map (\<lambda>i. if i * 2 + 1 < n then 2 else 1) [0..<(n + 1) div 2])"

abbreviation MAX_TABS :: nat where "MAX_TABS \<equiv> 12"
abbreviation MAX_ROW_PANELS :: nat where "MAX_ROW_PANELS \<equiv> 2"
abbreviation MAX_ROWS :: nat where "MAX_ROWS \<equiv> 4"
abbreviation MAX_ARRANGED_PANELS :: nat where "MAX_ARRANGED_PANELS \<equiv> 8"
abbreviation ROW_SEPARATOR :: rchar where "ROW_SEPARATOR \<equiv> 124"
abbreviation MAX_NAME :: nat where "MAX_NAME \<equiv> 16"

type_synonym layout = "tab list"

definition default_layout :: layout where
  "default_layout =
    [\<lparr>tab_name = lit ''Charts'', tab_panels = [SpendTotal, SpendModel, Tokens, Burnup], tab_rows = Some [2, 1, 1]\<rparr>,
     \<lparr>tab_name = lit ''Numbers'', tab_panels = [Models, Breakdown, Budget, Projection], tab_rows = None\<rparr>,
     \<lparr>tab_name = lit ''Sessions'', tab_panels = [Live, Sessions], tab_rows = None\<rparr>]"

definition classic :: layout where
  "classic = [\<lparr>tab_name = lit ''All'',
     tab_panels = filter (\<lambda>p. \<not> is_pinned p \<and> p \<noteq> Projection \<and> p \<noteq> Burnup) ALL_PANELS, tab_rows = None\<rparr>]"

section \<open>Text\<close>

text \<open>Takes the next \<open>n\<close> items of one iterator for every row size \<open>n\<close>.\<close>

fun take_rows :: "nat list \<Rightarrow> 'a list \<Rightarrow> 'a list list" where
  "take_rows [] xs = []"
| "take_rows (n # ns) xs = take n xs # take_rows ns (drop n xs)"

definition panel_text :: "tab \<Rightarrow> str" where
  "panel_text t = (let words = map panel_word (tab_panels t) in
     case tab_rows t of
       None \<Rightarrow> join_with 44 words
     | Some rows \<Rightarrow>
         let text = join_with ROW_SEPARATOR (map (join_with 44) (take_rows rows words))
         in if rows = [2] then text @ [ROW_SEPARATOR] else text)"

definition to_text :: "layout \<Rightarrow> str" where
  "to_text l = join_with 59 (map (\<lambda>t. tab_name t @ [61] @ panel_text t) l)"

text \<open>The messages of the reader, with what each of them shows.\<close>

datatype layout_error =
    NotAPanel str | PanelTwice panel_id str | RowEmpty nat str | RowFull nat str nat | RowTooLong nat str
  | NoPanels str | TooManyArranged str nat nat
  | NeedsPanels str | NameLength | NameControl | TabTwice str | NoTabs | TooManyTabs

fun read_words :: "str \<Rightarrow> panel_id list \<Rightarrow> str list \<Rightarrow> layout_error + panel_id list" where
  "read_words name ps [] = Inr ps"
| "read_words name ps (w # ws) = (case parse_panel w of
     None \<Rightarrow> Inl (NotAPanel (trim w))
   | Some p \<Rightarrow> if p \<in> set ps then Inl (PanelTwice p name) else read_words name (ps @ [p]) ws)"

fun read_lines :: "str \<Rightarrow> bool \<Rightarrow> nat \<Rightarrow> panel_id list \<Rightarrow> nat list \<Rightarrow> str list
    \<Rightarrow> layout_error + panel_id list \<times> nat list" where
  "read_lines name arranged i ps rows [] = Inr (ps, rows)"
| "read_lines name arranged i ps rows (line # lines) =
     sbind (read_words name ps (filter (\<lambda>w. trim w \<noteq> []) (split_on 44 line))) (\<lambda>ps'.
       let count = length ps' - length ps in
       if arranged \<and> count = 0 then Inl (RowEmpty (i + 1) name)
       else if arranged \<and> count > MAX_ROW_PANELS then Inl (RowFull (i + 1) name count)
       else if count > 255 then Inl (RowTooLong (i + 1) name)
       else read_lines name arranged (i + 1) ps' (rows @ [count]) lines)"

definition strip_mark :: "str \<Rightarrow> str \<times> bool" where
  "strip_mark xs = (let e = trim_end xs in
     if e \<noteq> [] \<and> last e = ROW_SEPARATOR then (butlast e, True) else (xs, False))"

definition parse_rows :: "str \<Rightarrow> str \<Rightarrow> layout_error + panel_id list \<times> nat list option" where
  "parse_rows name xs = (case strip_mark xs of (body, marked) \<Rightarrow>
     let lines = split_on ROW_SEPARATOR body; arranged = (length lines > 1 \<or> marked) in
     sbind (read_lines name arranged 0 [] [] lines) (\<lambda>(ps, rows).
       if ps = [] then Inl (NoPanels name)
       else if \<not> arranged then Inr (ps, None)
       else if length rows > MAX_ROWS \<or> length ps > MAX_ARRANGED_PANELS
       then Inl (TooManyArranged name (length ps) (length rows))
       else Inr (ps, Some rows)))"

definition taken :: "str \<Rightarrow> layout \<Rightarrow> bool" where
  "taken name tabs \<longleftrightarrow> list_ex (\<lambda>t. eq_ignore_ascii_case (tab_name t) name) tabs"

fun read_tabs :: "layout \<Rightarrow> str list \<Rightarrow> layout_error + layout" where
  "read_tabs tabs [] = Inr tabs"
| "read_tabs tabs (part # parts) = (case split_once 61 part of
     None \<Rightarrow> Inl (NeedsPanels (trim part))
   | Some (name0, xs) \<Rightarrow> let name = trim name0 in
       if name = [] \<or> length name > MAX_NAME then Inl NameLength
       else if list_ex is_control name then Inl NameControl
       else if taken name tabs then Inl (TabTwice name)
       else sbind (parse_rows name xs) (\<lambda>(ps, rows).
         read_tabs (tabs @ [\<lparr>tab_name = name, tab_panels = ps, tab_rows = rows\<rparr>]) parts))"

definition parse_layout :: "str \<Rightarrow> layout_error + layout" where
  "parse_layout text =
     sbind (read_tabs [] (filter (\<lambda>p. trim p \<noteq> []) (split_on 59 text))) (\<lambda>tabs.
       if tabs = [] then Inl NoTabs
       else if length tabs > MAX_TABS then Inl TooManyTabs
       else Inr tabs)"

definition from_stored :: "str option \<Rightarrow> layout \<times> layout_error option" where
  "from_stored text = (case map_option trim text of
     None \<Rightarrow> (default_layout, None)
   | Some t \<Rightarrow> if t = [] then (default_layout, None)
       else case parse_layout t of Inr l \<Rightarrow> (l, None) | Inl why \<Rightarrow> (default_layout, Some why))"

section \<open>The contract\<close>

definition wf_rows :: "nat \<Rightarrow> nat list \<Rightarrow> bool" where
  "wf_rows n rows \<longleftrightarrow> rows \<noteq> [] \<and> length rows \<le> MAX_ROWS \<and> set rows \<subseteq> {1, 2} \<and> sum_list rows = n"

definition wf_name :: "str \<Rightarrow> bool" where
  "wf_name name \<longleftrightarrow> name \<noteq> [] \<and> length name \<le> MAX_NAME \<and> trimmed name
     \<and> (\<forall>c\<in>set name. \<not> is_control c \<and> c \<noteq> 59 \<and> c \<noteq> 61)"

definition wf_panels :: "tab \<Rightarrow> bool" where
  "wf_panels t \<longleftrightarrow> tab_panels t \<noteq> [] \<and> distinct (tab_panels t)
     \<and> (case tab_rows t of None \<Rightarrow> True | Some rows \<Rightarrow> wf_rows (length (tab_panels t)) rows)"

definition name_key :: "tab \<Rightarrow> str" where
  "name_key t = map to_ascii_lower (tab_name t)"

definition wf_layout :: "layout \<Rightarrow> bool" where
  "wf_layout l \<longleftrightarrow> l \<noteq> [] \<and> length l \<le> MAX_TABS \<and> distinct (map name_key l)
     \<and> (\<forall>t\<in>set l. wf_name (tab_name t) \<and> wf_panels t)"

text \<open>One row of one panel is written without a mark, so it reads back as an automatic tab.\<close>

definition reread :: "tab \<Rightarrow> tab" where
  "reread t = (if tab_rows t = Some [1] then t\<lparr>tab_rows := None\<rparr> else t)"


section \<open>Panel words\<close>

lemma all_panels: "p \<in> set ALL_PANELS"
  by (cases p) (simp_all add: ALL_PANELS_def)

lemma panel_word_inj [simp]: "panel_word p = panel_word q \<longleftrightarrow> p = q"
  by (cases p; cases q; simp)

lemma panel_word_chars: "c \<in> set (panel_word p) \<Longrightarrow> c = 46 \<or> is_ascii_lower c"
  by (cases p) (auto simp: lit_def is_ascii_lower_def)

lemma panel_word_not_Nil [simp]: "panel_word p \<noteq> []"
  by (cases p) simp_all

lemma panel_word_visible: "c \<in> set (panel_word p) \<Longrightarrow> \<not> is_whitespace c"
  using panel_word_chars by (fastforce simp: is_whitespace_def is_ascii_lower_def)

lemma trim_visible: "(\<And>c. c \<in> set s \<Longrightarrow> \<not> is_whitespace c) \<Longrightarrow> trim s = s"
  by (rule trimmed_trim_id) (auto simp: trimmed_def)

lemma trim_panel_word [simp]: "trim (panel_word p) = panel_word p"
  by (intro trim_visible panel_word_visible)

lemma lower_panel_word [simp]: "map to_ascii_lower (panel_word p) = panel_word p"
  by (rule map_idI) (use panel_word_chars in \<open>fastforce simp: to_ascii_lower_def is_ascii_upper_def is_ascii_lower_def\<close>)

lemma find_unique: "x \<in> set xs \<Longrightarrow> (\<And>y. P y \<longleftrightarrow> y = x) \<Longrightarrow> find P xs = Some x"
  by (induction xs) auto

lemma parse_panel_word [simp]: "parse_panel (panel_word p) = Some p"
  unfolding parse_panel_def Let_def by (rule find_unique) (auto simp: all_panels)

section \<open>Reading\<close>

lemma read_words_sound:
  "read_words name ps ws = Inr qs \<Longrightarrow> distinct ps \<Longrightarrow> distinct qs \<and> (\<exists>r. qs = ps @ r)"
  by (induction name ps ws rule: read_words.induct) (auto split: option.splits if_splits)

lemma read_words_print:
  "distinct (ps @ qs) \<Longrightarrow> read_words name ps (map panel_word qs) = Inr (ps @ qs)"
  by (induction qs arbitrary: ps) auto

lemma read_lines_sound:
  assumes "read_lines name arranged i ps rows lines = Inr (qs, rows')" "distinct ps"
  shows "distinct qs \<and> length rows' = length rows + length lines
    \<and> (\<exists>new. rows' = rows @ new \<and> length qs = length ps + sum_list new \<and> (arranged \<longrightarrow> set new \<subseteq> {1, 2}))"
  using assms
proof (induction name arranged i ps rows lines rule: read_lines.induct)
  case (2 name arranged i ps rows line lines)
  let ?words = "filter (\<lambda>w. trim w \<noteq> []) (split_on 44 line)"
  from "2.prems"(1) obtain ps' where w: "read_words name ps ?words = Inr ps'"
    by (auto simp: sbind_Inr_iff)
  define count where "count = length ps' - length ps"
  from read_words_sound[OF w "2.prems"(2)] have ps': "distinct ps'" "length ps' = length ps + count"
    by (auto simp: count_def)
  have "(if arranged \<and> count = 0 then Inl (RowEmpty (i + 1) name)
      else if arranged \<and> count > MAX_ROW_PANELS then Inl (RowFull (i + 1) name count)
      else if count > 255 then Inl (RowTooLong (i + 1) name)
      else read_lines name arranged (i + 1) ps' (rows @ [count]) lines) = Inr (qs, rows')"
    using "2.prems"(1) w by (simp only: read_lines.simps sbind_simps Let_def count_def)
  then have rest: "read_lines name arranged (i + 1) ps' (rows @ [count]) lines = Inr (qs, rows')"
    and count: "arranged \<longrightarrow> count \<in> {1, 2}" "\<not> (arranged \<and> count = 0)" "\<not> (arranged \<and> count > 2)" "\<not> count > 255"
    by (auto split: if_splits)
  from "2.IH"[OF count_def _ _ _ rest ps'(1)] count(2-4)
  have "distinct qs \<and> length rows' = length (rows @ [count]) + length lines
    \<and> (\<exists>new. rows' = (rows @ [count]) @ new \<and> length qs = length ps' + sum_list new \<and> (arranged \<longrightarrow> set new \<subseteq> {1, 2}))"
    by blast
  then obtain new where "distinct qs" "length rows' = Suc (length rows + length lines)"
    "rows' = rows @ count # new" "length qs = length ps' + sum_list new" "arranged \<longrightarrow> set new \<subseteq> {1, 2}"
    by auto
  with ps' count(1) show ?case by (auto intro!: exI[of _ "count # new"])
qed simp

lemma parse_rows_sound:
  assumes "parse_rows name xs = Inr (ps, rows)"
  shows "wf_panels \<lparr>tab_name = n, tab_panels = ps, tab_rows = rows\<rparr>"
proof -
  obtain body marked where m: "strip_mark xs = (body, marked)" by (cases "strip_mark xs")
  define lines where "lines = split_on ROW_SEPARATOR body"
  define arranged where "arranged = (length lines > 1 \<or> marked)"
  from assms m obtain rows' where r: "read_lines name arranged 0 [] [] lines = Inr (ps, rows')"
    and res: "(if ps = [] then Inl (NoPanels name) else if \<not> arranged then Inr (ps, None)
       else if length rows' > MAX_ROWS \<or> length ps > MAX_ARRANGED_PANELS
       then Inl (TooManyArranged name (length ps) (length rows')) else Inr (ps, Some rows')) = Inr (ps, rows)"
    unfolding parse_rows_def Let_def prod.case lines_def[symmetric] arranged_def[symmetric]
    by (force simp: sbind_Inr_iff lines_def arranged_def split: if_splits)
  have "lines \<noteq> []" by (simp add: lines_def)
  with read_lines_sound[OF r] res show ?thesis
    by (auto simp: wf_panels_def wf_rows_def split: if_splits)
qed

lemma taken_iff: "taken name tabs \<longleftrightarrow> map to_ascii_lower name \<in> name_key ` set tabs"
  by (auto simp: taken_def list_ex_iff eq_ignore_ascii_case_def name_key_def image_iff) metis

lemma split_on_free_parts: "p \<in> set (split_on d s) \<Longrightarrow> d \<notin> set p"
  by (induction s arbitrary: p) (auto split: if_splits list.splits)

lemma split_once_Some: "split_once d s = Some (a, b) \<Longrightarrow> s = a @ d # b \<and> d \<notin> set a"
  by (induction s arbitrary: a b) (auto split: if_splits)

definition wf_tabs :: "layout \<Rightarrow> bool" where
  "wf_tabs l \<longleftrightarrow> distinct (map name_key l) \<and> (\<forall>t\<in>set l. wf_name (tab_name t) \<and> wf_panels t)"

lemma read_tabs_sound:
  "read_tabs tabs parts = Inr l \<Longrightarrow> wf_tabs tabs \<Longrightarrow> \<forall>p\<in>set parts. 59 \<notin> set p \<Longrightarrow> wf_tabs l"
proof (induction tabs parts rule: read_tabs.induct)
  case (2 tabs part parts)
  from "2.prems"(1) obtain name0 xs where s: "split_once 61 part = Some (name0, xs)"
    by (auto split: option.splits)
  let ?name = "trim name0"
  from "2.prems"(1) s obtain ps rows where
    n: "\<not> (?name = [] \<or> length ?name > MAX_NAME)" "\<not> list_ex is_control ?name" "\<not> taken ?name tabs" and
    r: "parse_rows ?name xs = Inr (ps, rows)" and
    rest: "read_tabs (tabs @ [\<lparr>tab_name = ?name, tab_panels = ps, tab_rows = rows\<rparr>]) parts = Inr l"
    by (auto simp: Let_def sbind_Inr_iff split: if_splits)
  have "set ?name \<subseteq> set name0" by (rule set_trim)
  moreover have "59 \<notin> set name0" "61 \<notin> set name0"
    using split_once_Some[OF s] "2.prems"(3) by auto
  ultimately have "wf_name ?name"
    using n by (auto simp: wf_name_def trimmed_trim list_ex_iff)
  with parse_rows_sound[OF r] n(3) "2.prems"(2)
  have "wf_tabs (tabs @ [\<lparr>tab_name = ?name, tab_panels = ps, tab_rows = rows\<rparr>])"
    by (auto simp: wf_tabs_def taken_iff name_key_def)
  with "2.IH"[OF s refl refl n rest] "2.prems"(3) show ?case by simp
qed simp

section \<open>Printing and reading back\<close>

lemma join_with_last:
  "ps \<noteq> [] \<Longrightarrow> last ps \<noteq> [] \<Longrightarrow> join_with d ps \<noteq> [] \<and> last (join_with d ps) = last (last ps)"
proof (induction d ps rule: join_with.induct)
  case (3 d p q ps)
  then have "join_with d (q # ps) \<noteq> []" "last (join_with d (q # ps)) = last (last (q # ps))" by auto
  then show ?case by simp
qed auto

lemma line_chars: "c \<in> set (join_with 44 (map panel_word ps)) \<Longrightarrow> c = 44 \<or> c = 46 \<or> is_ascii_lower c"
  using set_join_with[of 44 "map panel_word ps"] panel_word_chars by fastforce

lemma line_last:
  assumes "ps \<noteq> []"
  shows "join_with 44 (map panel_word ps) \<noteq> []
    \<and> \<not> is_whitespace (last (join_with 44 (map panel_word ps))) \<and> last (join_with 44 (map panel_word ps)) \<noteq> ROW_SEPARATOR"
proof -
  let ?w = "panel_word (last ps)"
  from assms have l: "last (map panel_word ps) = ?w" by (simp add: last_map)
  have "last ?w \<in> set ?w" by simp
  then have "\<not> is_whitespace (last ?w)" "last ?w \<noteq> ROW_SEPARATOR"
    using panel_word_visible[of "last ?w" "last ps"] panel_word_chars[of "last ?w" "last ps"]
    by (auto simp: is_ascii_lower_def)
  with join_with_last[of "map panel_word ps" 44] assms show ?thesis unfolding l by simp
qed

lemma line_words: "filter (\<lambda>w. trim w \<noteq> []) (split_on 44 (join_with 44 (map panel_word ps))) = map panel_word ps"
proof (cases "ps = []")
  case False
  have "44 \<notin> set (panel_word p)" for p
    using panel_word_chars by (fastforce simp: is_ascii_lower_def)
  then have "split_on 44 (join_with 44 (map panel_word ps)) = map panel_word ps"
    using False by (intro split_on_join) auto
  then show ?thesis by simp
qed (simp add: trim_def trim_start_def trim_end_def)

lemma read_line:
  "distinct (ps @ qs) \<Longrightarrow> qs \<noteq> [] \<Longrightarrow> length qs \<le> 255 \<Longrightarrow> arranged \<longrightarrow> length qs \<le> 2 \<Longrightarrow>
    read_lines name arranged i ps rows (join_with 44 (map panel_word qs) # lines)
    = read_lines name arranged (i + 1) (ps @ qs) (rows @ [length qs]) lines"
  by (auto simp: line_words read_words_print Let_def)

lemma read_lines_print:
  "distinct (ps @ qs) \<Longrightarrow> set rows \<subseteq> {1, 2} \<Longrightarrow> sum_list rows = length qs \<Longrightarrow>
    read_lines name True i ps before (map (join_with 44 \<circ> map panel_word) (take_rows rows qs)) = Inr (ps @ qs, before @ rows)"
proof (induction rows arbitrary: i ps before qs)
  case (Cons n rows)
  let ?q = "take n qs" and ?r = "drop n qs"
  have d: "distinct (ps @ ?q)" "distinct ((ps @ ?q) @ ?r)"
    using Cons.prems(1) by (auto dest: in_set_takeD in_set_dropD)
  have n: "length ?q = n" "?q \<noteq> []" "n \<le> 2" "n \<le> 255" using Cons.prems by (auto simp: min_def)
  from Cons.IH[OF d(2)] Cons.prems n(1) have
    "read_lines name True (i + 1) (ps @ ?q) (before @ [n]) (map (join_with 44 \<circ> map panel_word) (take_rows rows ?r))
      = Inr (ps @ qs, before @ n # rows)" by (simp add: comp_def)
  then show ?case
    unfolding take_rows.simps list.map comp_def
    by (subst read_line) (use d n in \<open>auto simp: comp_def\<close>)
qed simp

lemma take_rows_map: "take_rows rows (map f xs) = map (map f) (take_rows rows xs)"
  by (induction rows arbitrary: xs) (auto simp: take_map drop_map)

lemma take_rows_nonempty: "set rows \<subseteq> {1, 2} \<Longrightarrow> sum_list rows \<le> length xs \<Longrightarrow> [] \<notin> set (take_rows rows xs)"
  by (induction rows arbitrary: xs) auto

lemma length_take_rows [simp]: "length (take_rows rows xs) = length rows"
  by (induction rows arbitrary: xs) auto

lemma length_panels: "distinct ps \<Longrightarrow> length ps \<le> 17" for ps :: "panel_id list"
proof -
  assume "distinct ps"
  then have "length ps = card (set ps)" by (simp add: distinct_card)
  also have "\<dots> \<le> card (set ALL_PANELS)" by (intro card_mono) (auto simp: all_panels)
  also have "\<dots> \<le> 17" by (rule order.trans[OF card_length]) (simp add: ALL_PANELS_def)
  finally show ?thesis .
qed

lemma strip_mark_none: "s \<noteq> [] \<Longrightarrow> \<not> is_whitespace (last s) \<Longrightarrow> last s \<noteq> ROW_SEPARATOR \<Longrightarrow> strip_mark s = (s, False)"
  by (simp add: strip_mark_def trim_end_id_if_last)

lemma strip_mark_some: "strip_mark (s @ [ROW_SEPARATOR]) = (s, True)"
  by (simp add: strip_mark_def trim_end_snoc is_whitespace_def)

lemma parse_rows_line:
  assumes "ps \<noteq> []" "distinct ps"
  shows "parse_rows name (join_with 44 (map panel_word ps)) = Inr (ps, None)"
proof -
  have "124 \<notin> set (join_with 44 (map panel_word ps))" using line_chars by (fastforce simp: is_ascii_lower_def)
  moreover have "strip_mark (join_with 44 (map panel_word ps)) = (join_with 44 (map panel_word ps), False)"
    using line_last[OF assms(1)] by (intro strip_mark_none) auto
  moreover have "read_lines name False 0 [] [] [join_with 44 (map panel_word ps)] = Inr (ps, [length ps])"
    using assms length_panels[OF assms(2)] by (subst read_line) auto
  ultimately show ?thesis
    using assms by (simp add: parse_rows_def split_on_free Let_def)
qed

lemma parse_rows_print:
  assumes "wf_panels t"
  shows "parse_rows name (panel_text t) = Inr (tab_panels t, tab_rows (reread t))"
proof (cases "tab_rows t")
  case None
  with assms parse_rows_line[of "tab_panels t" name] show ?thesis
    by (simp add: panel_text_def reread_def wf_panels_def)
next
  case (Some rows)
  with assms have wf: "rows \<noteq> []" "length rows \<le> 4" "set rows \<subseteq> {1, 2}" "sum_list rows = length (tab_panels t)"
    "distinct (tab_panels t)" "tab_panels t \<noteq> []"
    by (auto simp: wf_panels_def wf_rows_def)
  let ?lines = "map (join_with 44 \<circ> map panel_word) (take_rows rows (tab_panels t))"
  let ?text = "join_with 124 ?lines"
  have printed: "panel_text t = (if rows = [2] then ?text @ [124] else ?text)"
    by (simp add: panel_text_def Some take_rows_map)
  have "124 \<notin> set (join_with 44 (map panel_word ps))" for ps
    using line_chars by (fastforce simp: is_ascii_lower_def)
  then have split: "split_on 124 ?text = ?lines"
    by (intro split_on_join) (use wf in \<open>auto simp flip: length_greater_0_conv\<close>)
  have read: "read_lines name True 0 [] [] ?lines = Inr (tab_panels t, rows)"
    using read_lines_print[of "[]" "tab_panels t" rows name 0 "[]"] wf by simp
  have groups: "take_rows rows (tab_panels t) \<noteq> []" "[] \<notin> set (take_rows rows (tab_panels t))"
    using wf take_rows_nonempty[of rows "tab_panels t"] by (auto simp flip: length_greater_0_conv)
  then have l: "last (take_rows rows (tab_panels t)) \<noteq> []" by (metis last_in_set)
  have "strip_mark ?text = (?text, False)"
    using line_last[OF l] join_with_last[of ?lines 124] groups
    by (intro strip_mark_none) (simp_all add: last_map)
  moreover have "length (tab_panels t) \<le> 8"
  proof -
    have "sum_list rows \<le> 2 * length rows"
      using wf(3) by (induction rows) auto
    with wf show ?thesis by simp
  qed
  moreover have "rows = [1] \<Longrightarrow> ?thesis"
  proof -
    assume one: "rows = [1]"
    with wf have "?text = join_with 44 (map panel_word (tab_panels t))" by (simp add: take_all)
    with parse_rows_line[of "tab_panels t" name] wf one Some show ?thesis
      by (simp add: printed reread_def)
  qed
  moreover have "rows \<noteq> [1] \<Longrightarrow> rows \<noteq> [2] \<Longrightarrow> 1 < length rows"
    using wf by (cases rows; cases "tl rows") auto
  ultimately show ?thesis
    using wf read split
    by (cases "rows = [1]"; cases "rows = [2]")
       (simp_all add: parse_rows_def printed strip_mark_some Let_def reread_def Some)
qed

lemma take_rows_subset: "xs \<in> set (take_rows rows ys) \<Longrightarrow> set xs \<subseteq> set ys"
  by (induction rows arbitrary: ys) (auto dest: in_set_takeD in_set_dropD)

lemma panel_text_chars: "c \<in> set (panel_text t) \<Longrightarrow> c \<in> {44, 46, 124} \<or> is_ascii_lower c"
proof -
  assume c: "c \<in> set (panel_text t)"
  have join: "set (join_with 124 (map (join_with 44 \<circ> map panel_word) g)) \<subseteq> {44, 46, 124} \<union> Collect is_ascii_lower" for g
    using set_join_with[of 124 "map (join_with 44 \<circ> map panel_word) g"] line_chars by fastforce
  from c show ?thesis
  proof (cases "tab_rows t")
    case None
    with c line_chars show ?thesis by (auto simp: panel_text_def)
  next
    case (Some rows)
    with c join[of "take_rows rows (tab_panels t)"] show ?thesis
      by (auto simp: panel_text_def take_rows_map Let_def split: if_splits)
  qed
qed

lemma read_tabs_print:
  assumes "wf_tabs (tabs @ l)"
  shows "read_tabs tabs (map (\<lambda>t. tab_name t @ [61] @ panel_text t) l) = Inr (tabs @ map reread l)"
  using assms
proof (induction l arbitrary: tabs)
  case (Cons t l)
  have wf: "wf_name (tab_name t)" "wf_panels t" using Cons.prems by (auto simp: wf_tabs_def)
  have "61 \<notin> set (tab_name t)" using wf(1) by (auto simp: wf_name_def)
  then have s: "split_once 61 (tab_name t @ 61 # panel_text t) = Some (tab_name t, panel_text t)"
    by (rule split_once_append)
  have name: "trim (tab_name t) = tab_name t" "tab_name t \<noteq> []" "\<not> length (tab_name t) > MAX_NAME"
    "\<not> list_ex is_control (tab_name t)"
    using wf(1) by (auto simp: wf_name_def trimmed_trim_id list_ex_iff)
  have key: "\<not> taken (tab_name t) tabs"
    using Cons.prems by (auto simp: taken_iff wf_tabs_def name_key_def)
  have tab: "\<lparr>tab_name = tab_name t, tab_panels = tab_panels t, tab_rows = tab_rows (reread t)\<rparr> = reread t"
    by (simp add: reread_def)
  have re: "tab_name (reread t) = tab_name t" "name_key (reread t) = name_key t" "wf_panels (reread t)"
    using wf(2) by (auto simp: reread_def name_key_def wf_panels_def)
  have "wf_tabs ((tabs @ [reread t]) @ l)"
    using Cons.prems re wf by (auto simp: wf_tabs_def)
  from Cons.IH[OF this] s name key parse_rows_print[OF wf(2)] show ?case
    by (simp add: tab Let_def)
qed simp

lemma wf_layout_tabs: "wf_layout l \<longleftrightarrow> l \<noteq> [] \<and> length l \<le> MAX_TABS \<and> wf_tabs l"
  by (auto simp: wf_layout_def wf_tabs_def)

lemma tab_text_visible:
  assumes "wf_name (tab_name t)"
  shows "trim (tab_name t @ [61] @ panel_text t) \<noteq> []"
proof -
  have "trim s \<noteq> []" if "c \<in> set s" "\<not> is_whitespace c" for s c
  proof -
    have "trim_start s \<noteq> []" using that by (auto simp: trim_start_def dropWhile_eq_Nil_conv)
    then have "\<not> is_whitespace (hd (trim_start s))" "hd (trim_start s) \<in> set (rev (trim_start s))"
      by (simp_all add: trim_start_def hd_dropWhile)
    then show ?thesis by (auto simp: trim_def trim_end_def dropWhile_eq_Nil_conv simp del: set_rev)
  qed
  from this[of 61] show ?thesis by (simp add: is_whitespace_def)
qed

text \<open>
  C36. Whatever text the reader accepts is a well-formed layout: one to twelve tabs whose names
  differ by more than case, hold one to sixteen visible characters and neither of the two
  separators, and whose panels are distinct and fill the rows exactly, one or two to a row.
\<close>

theorem parse_layout_wf:
  assumes "parse_layout s = Inr l"
  shows "wf_layout l"
proof -
  from assms have "read_tabs [] (filter (\<lambda>p. trim p \<noteq> []) (split_on 59 s)) = Inr l" "l \<noteq> []" "length l \<le> MAX_TABS"
    by (auto simp: parse_layout_def sbind_Inr_iff split: if_splits)
  moreover have "\<forall>p\<in>set (filter (\<lambda>p. trim p \<noteq> []) (split_on 59 s)). 59 \<notin> set p"
    using split_on_free_parts[of _ 59 s] by auto
  ultimately show ?thesis
    using read_tabs_sound[of "[]" _ l] by (simp add: wf_layout_tabs wf_tabs_def)
qed

lemma parse_to_text:
  assumes "wf_layout l"
  shows "parse_layout (to_text l) = Inr (map reread l)"
proof -
  let ?texts = "map (\<lambda>t. tab_name t @ [61] @ panel_text t) l"
  have wf: "l \<noteq> []" "length l \<le> MAX_TABS" "wf_tabs l" using assms by (auto simp: wf_layout_tabs)
  have "59 \<notin> set p" if "p \<in> set ?texts" for p
  proof -
    from that obtain t where t: "t \<in> set l" "p = tab_name t @ [61] @ panel_text t" by auto
    then have "59 \<notin> set (tab_name t)" "59 \<notin> set (panel_text t)"
      using wf(3) panel_text_chars[of 59 t] by (auto simp: wf_tabs_def wf_name_def is_ascii_lower_def)
    with t show ?thesis by simp
  qed
  then have "split_on 59 (to_text l) = ?texts"
    unfolding to_text_def using wf(1) by (intro split_on_join) auto
  moreover have "filter (\<lambda>p. trim p \<noteq> []) ?texts = ?texts"
    using wf(3) tab_text_visible by (auto simp: wf_tabs_def filter_id_conv simp del: append.simps append_Cons)
  ultimately show ?thesis
    using read_tabs_print[of "[]" l] wf by (simp add: parse_layout_def)
qed

text \<open>
  C33. A well-formed layout survives being written to the configuration and read back, tab for
  tab, but for one shape: a tab arranged as a single row of one panel comes back automatic.
\<close>

theorem layout_round_trip:
  assumes "wf_layout l"
  shows "parse_layout (to_text l) = Inr (map reread l)"
  using assms by (rule parse_to_text)

lemma wf_default: "wf_layout default_layout"
  by (simp add: wf_layout_def default_layout_def name_key_def wf_name_def wf_panels_def wf_rows_def lit_def
      trimmed_def is_whitespace_def is_control_def to_ascii_lower_def is_ascii_upper_def)

text \<open>The witness: the layout a fresh start shows.\<close>

theorem layout_round_trip_witness: "parse_layout (to_text default_layout) = Inr default_layout"
proof -
  have "map reread default_layout = default_layout" by (simp add: default_layout_def reread_def)
  with layout_round_trip[OF wf_default] show ?thesis by simp
qed

lemma parse_single:
  "parse_layout (lit ''A=spend|'') = Inr [\<lparr>tab_name = lit ''A'', tab_panels = [Spend], tab_rows = Some [1]\<rparr>]"
proof -
  have "parse_panel [115, 112, 101, 110, 100] = Some Spend"
    using parse_panel_word[of Spend] by (simp add: lit_def)
  then show ?thesis
    by (simp add: parse_layout_def lit_def trim_def trim_end_def trim_start_def is_whitespace_def is_control_def
        taken_def parse_rows_def strip_mark_def)
qed

theorem parse_layout_wf_witness:
  "wf_layout [\<lparr>tab_name = lit ''A'', tab_panels = [Spend], tab_rows = Some [1]\<rparr>]"
  by (rule parse_layout_wf[OF parse_single])

text \<open>
  The one shape that does not survive is one the reader itself produces, from a text with
  the mark of a single row.
\<close>

theorem single_row_forgets:
  "parse_layout (lit ''A=spend|'') = Inr [\<lparr>tab_name = lit ''A'', tab_panels = [Spend], tab_rows = Some [1]\<rparr>]
   \<and> to_text [\<lparr>tab_name = lit ''A'', tab_panels = [Spend], tab_rows = Some [1]\<rparr>] = lit ''A=spend''
   \<and> parse_layout (lit ''A=spend'') = Inr [\<lparr>tab_name = lit ''A'', tab_panels = [Spend], tab_rows = None\<rparr>]"
proof -
  have "parse_panel [115, 112, 101, 110, 100] = Some Spend"
    using parse_panel_word[of Spend] by (simp add: lit_def)
  then have "parse_layout (lit ''A=spend'') = Inr [\<lparr>tab_name = lit ''A'', tab_panels = [Spend], tab_rows = None\<rparr>]"
    by (simp add: parse_layout_def lit_def trim_def trim_end_def trim_start_def is_whitespace_def is_control_def
        taken_def parse_rows_def strip_mark_def)
  then show ?thesis
    using parse_single by (simp add: to_text_def panel_text_def lit_def)
qed

end
