(* ===== verification/Arrange.thy ===== *)
theory Arrange
  imports Layout "HOL-Library.Multiset"
begin

text \<open>
  Rearranging the panels of one tab: \<^verbatim>\<open>crates/telemetry/src/tui/arrange.rs\<close>. An operation
  takes the cursor slot and answers with the changed tab and the new slot, or refuses. An
  index out of range and an unsigned subtraction below zero are the value \<open>Panic\<close>, and the
  main theorem is that no operation reaches it on a well-formed tab.
\<close>

section \<open>Failing\<close>

datatype refusal =
    BudgetStrip | RowEdge | TabTop | TabBottom | AtMostRows | AtMostArranged | AtMostBoth
  | NoRowBeside | AlreadyOn panel_id | OnePanel

datatype fault = Refused refusal | Panic

definition index_at :: "'a list \<Rightarrow> nat \<Rightarrow> fault + 'a" where
  "index_at xs i = (if i < length xs then Inr (xs ! i) else Inl Panic)"

definition swap_at :: "nat \<Rightarrow> nat \<Rightarrow> 'a list \<Rightarrow> fault + 'a list" where
  "swap_at i j xs = (if i < length xs \<and> j < length xs then Inr (xs[i := xs ! j, j := xs ! i]) else Inl Panic)"

definition insert_at :: "nat \<Rightarrow> 'a \<Rightarrow> 'a list \<Rightarrow> fault + 'a list" where
  "insert_at i x xs = (if i \<le> length xs then Inr (take i xs @ x # drop i xs) else Inl Panic)"

definition remove_at :: "nat \<Rightarrow> 'a list \<Rightarrow> fault + 'a list" where
  "remove_at i xs = (if i < length xs then Inr (take i xs @ drop (Suc i) xs) else Inl Panic)"

definition minus_one :: "nat \<Rightarrow> fault + nat" where
  "minus_one n = (if n = 0 then Inl Panic else Inr (n - 1))"

text \<open>\<^verbatim>\<open>usize::checked_add_signed\<close>, for sums below the largest \<^verbatim>\<open>usize\<close>.\<close>

definition checked_add_signed :: "nat \<Rightarrow> int \<Rightarrow> nat option" where
  "checked_add_signed n by = (if int n + by < 0 then None else Some (nat (int n + by)))"

fun position :: "('a \<Rightarrow> bool) \<Rightarrow> 'a list \<Rightarrow> nat option" where
  "position P [] = None"
| "position P (x # xs) = (if P x then Some 0 else map_option Suc (position P xs))"

section \<open>The grid\<close>

definition cells :: "tab \<Rightarrow> nat list \<times> nat list" where
  "cells t = (case tab_rows t of
     Some rows \<Rightarrow> (rows, [0..<length (tab_panels t)])
   | None \<Rightarrow> let shown = filter (\<lambda>i. tab_panels t ! i \<noteq> Budget) [0..<length (tab_panels t)]
             in (auto_rows (length shown), shown))"

definition grid :: "tab \<Rightarrow> nat list list" where
  "grid t = (case cells t of (rows, shown) \<Rightarrow> take_rows rows shown)"

fun locate_from :: "nat \<Rightarrow> nat \<Rightarrow> nat list \<Rightarrow> nat \<Rightarrow> (nat \<times> nat) option" where
  "locate_from start row [] a = None"
| "locate_from start row (n # ns) a =
     (if a < start + n then Some (row, a - start) else locate_from (start + n) (row + 1) ns a)"

definition locate :: "nat list \<Rightarrow> nat \<Rightarrow> nat \<times> nat" where
  "locate rows a = (case locate_from 0 0 rows a of Some p \<Rightarrow> p | None \<Rightarrow> (length rows - 1, 0))"

definition row_start :: "nat list \<Rightarrow> nat \<Rightarrow> fault + nat" where
  "row_start rows row = (if row \<le> length rows then Inr (sum_list (take row rows)) else Inl Panic)"

definition cell_of :: "nat list \<Rightarrow> nat \<Rightarrow> fault + nat" where
  "cell_of shown slot = (case position (\<lambda>i. i = slot) shown of
     Some c \<Rightarrow> Inr c | None \<Rightarrow> Inl (Refused BudgetStrip))"

section \<open>Moving\<close>

definition swap_panels :: "tab \<Rightarrow> nat \<Rightarrow> nat \<Rightarrow> fault + tab \<times> nat" where
  "swap_panels t slot target =
     sbind (swap_at slot target (tab_panels t)) (\<lambda>ps. Inr (t\<lparr>tab_panels := ps\<rparr>, target))"

definition move_sideways :: "tab \<Rightarrow> nat \<Rightarrow> int \<Rightarrow> fault + tab \<times> nat" where
  "move_sideways t slot by = (case cells t of (rows, shown) \<Rightarrow>
     sbind (cell_of shown slot) (\<lambda>c. case locate rows c of (row, col) \<Rightarrow>
     case checked_add_signed col by of None \<Rightarrow> Inl (Refused RowEdge)
     | Some to \<Rightarrow>
         sbind (index_at rows row) (\<lambda>n.
         if \<not> to < n then Inl (Refused RowEdge)
         else sbind (row_start rows row) (\<lambda>start.
              sbind (index_at shown (start + to)) (\<lambda>target. swap_panels t slot target)))))"

definition vertical_neighbour :: "tab \<Rightarrow> nat \<Rightarrow> int \<Rightarrow> fault + nat" where
  "vertical_neighbour t slot by = (case cells t of (rows, shown) \<Rightarrow>
     sbind (cell_of shown slot) (\<lambda>c. case locate rows c of (row, col) \<Rightarrow>
     case checked_add_signed row by of None \<Rightarrow> Inl (Refused (if by < 0 then TabTop else TabBottom))
     | Some to \<Rightarrow>
         if \<not> to < length rows then Inl (Refused (if by < 0 then TabTop else TabBottom))
         else sbind (row_start rows to) (\<lambda>start.
              sbind (index_at rows to) (\<lambda>n.
              sbind (minus_one n) (\<lambda>furthest. index_at shown (start + min col furthest))))))"

definition move_vertically :: "tab \<Rightarrow> nat \<Rightarrow> int \<Rightarrow> fault + tab \<times> nat" where
  "move_vertically t slot by = sbind (vertical_neighbour t slot by) (swap_panels t slot)"

section \<open>Widths\<close>

definition arranged :: "tab \<Rightarrow> nat \<Rightarrow> fault + nat list \<times> panel_id list \<times> nat \<times> nat" where
  "arranged t slot = (case tab_rows t of
     Some rows \<Rightarrow> Inr (rows, tab_panels t, slot, length rows)
   | None \<Rightarrow> (case position (\<lambda>p. p = Budget) (tab_panels t) of
       None \<Rightarrow> let rows = auto_rows (length (tab_panels t)) in Inr (rows, tab_panels t, slot, length rows)
     | Some budget \<Rightarrow>
         let rows = auto_rows (length (tab_panels t) - 1); joinable = length rows in
         if joinable \<ge> MAX_ROWS then Inl (Refused AtMostRows)
         else sbind (remove_at budget (tab_panels t)) (\<lambda>rest.
           let panels = rest @ [tab_panels t ! budget];
               slot' = (if slot = budget then length panels - 1 else if slot > budget then slot - 1 else slot)
           in Inr (rows @ [1], panels, slot', joinable))))"

text \<open>The row sizes after splitting or joining row \<open>row\<close>.\<close>

definition toggled :: "nat list \<Rightarrow> nat \<Rightarrow> nat \<Rightarrow> fault + nat list" where
  "toggled rows joinable row =
     sbind (index_at rows row) (\<lambda>n.
     if n = MAX_ROW_PANELS
     then if length rows \<ge> MAX_ROWS then Inl (Refused AtMostRows) else insert_at (row + 1) 1 (rows[row := 1])
     else if row + 1 < joinable \<and> row + 1 < length rows \<and> rows ! (row + 1) = 1
     then remove_at (row + 1) (rows[row := 2])
     else if row > 0 \<and> rows ! (row - 1) = 1
     then remove_at row (rows[row - 1 := 2])
     else Inl (Refused NoRowBeside))"

definition toggle_width :: "tab \<Rightarrow> nat \<Rightarrow> fault + tab \<times> nat" where
  "toggle_width t slot0 =
     (if length (tab_panels t) > MAX_ARRANGED_PANELS then Inl (Refused AtMostArranged)
      else sbind (arranged t slot0) (\<lambda>(rows, panels, slot, joinable).
        let row = fst (locate rows slot) in
        if row \<ge> joinable then Inl (Refused BudgetStrip)
        else sbind (toggled rows joinable row) (\<lambda>rows'.
          Inr (t\<lparr>tab_panels := panels, tab_rows := Some rows'\<rparr>, slot))))"

section \<open>Adding and removing\<close>

definition insert_point :: "tab \<Rightarrow> nat \<Rightarrow> fault + nat" where
  "insert_point t slot = (case tab_rows t of
     None \<Rightarrow> Inr (min (slot + 1) (length (tab_panels t)))
   | Some rows \<Rightarrow> let row = fst (locate rows slot) in
       sbind (row_start rows row) (\<lambda>start. sbind (index_at rows row) (\<lambda>n. Inr (start + n))))"

definition insert_after :: "tab \<Rightarrow> nat \<Rightarrow> panel_id \<Rightarrow> fault + tab \<times> nat" where
  "insert_after t slot p =
     (if p \<in> set (tab_panels t) then Inl (Refused (AlreadyOn p))
      else sbind (insert_point t slot) (\<lambda>a. case tab_rows t of
        None \<Rightarrow> sbind (insert_at a p (tab_panels t)) (\<lambda>ps. Inr (t\<lparr>tab_panels := ps\<rparr>, a))
      | Some rows \<Rightarrow>
          if length (tab_panels t) \<ge> MAX_ARRANGED_PANELS \<or> length rows \<ge> MAX_ROWS
          then Inl (Refused AtMostBoth)
          else sbind (insert_at (fst (locate rows slot) + 1) 1 rows) (\<lambda>rows'.
               sbind (insert_at a p (tab_panels t)) (\<lambda>ps.
               Inr (t\<lparr>tab_panels := ps, tab_rows := Some rows'\<rparr>, a)))))"

text \<open>The row sizes with one panel fewer in row \<open>row\<close>.\<close>

definition shrunk :: "nat list \<Rightarrow> nat \<Rightarrow> fault + nat list" where
  "shrunk rows row =
     sbind (index_at rows row) (\<lambda>n. sbind (minus_one n) (\<lambda>m.
     if m = 0 then remove_at row rows else Inr (rows[row := m])))"

definition remove_panel :: "tab \<Rightarrow> nat \<Rightarrow> fault + tab \<times> nat" where
  "remove_panel t slot =
     (if length (tab_panels t) = 1 then Inl (Refused OnePanel)
      else sbind (case tab_rows t of None \<Rightarrow> Inr None
                  | Some rows \<Rightarrow> sbind (shrunk rows (fst (locate rows slot))) (\<lambda>r. Inr (Some r))) (\<lambda>rows.
        sbind (remove_at slot (tab_panels t)) (\<lambda>ps.
        sbind (minus_one (length ps)) (\<lambda>furthest.
        Inr (t\<lparr>tab_panels := ps, tab_rows := rows\<rparr>, min slot furthest)))))"

section \<open>Not panicking\<close>

text \<open>No panic, and what holds of the answer when there is one.\<close>

definition holds :: "fault + 'a \<Rightarrow> ('a \<Rightarrow> bool) \<Rightarrow> bool" where
  "holds m Q \<longleftrightarrow> (case m of Inr x \<Rightarrow> Q x | Inl (Refused _) \<Rightarrow> True | Inl Panic \<Rightarrow> False)"

named_theorems holds_intro

lemma holds_Inr [simp]: "holds (Inr x) Q \<longleftrightarrow> Q x"
  by (simp add: holds_def)

lemma holds_Refused [simp]: "holds (Inl (Refused r)) Q"
  by (simp add: holds_def)

lemma holds_Panic [simp]: "\<not> holds (Inl Panic) Q"
  by (simp add: holds_def)

lemma holds_sbind [simp]: "holds (sbind m f) Q \<longleftrightarrow> holds m (\<lambda>x. holds (f x) Q)"
  by (simp add: holds_def sbind_def split: sum.split fault.split)

lemma holds_mono: "holds m P \<Longrightarrow> (\<And>x. P x \<Longrightarrow> Q x) \<Longrightarrow> holds m Q"
  by (simp add: holds_def split: sum.splits fault.splits)

lemma holds_no_panic: "holds m Q \<longleftrightarrow> m \<noteq> Inl Panic \<and> (\<forall>x. m = Inr x \<longrightarrow> Q x)"
  by (auto simp: holds_def split: sum.split fault.split)

lemma holds_index_at [simp]: "holds (index_at xs i) Q \<longleftrightarrow> i < length xs \<and> Q (xs ! i)"
  by (simp add: index_at_def)

lemma holds_insert_at [simp]: "holds (insert_at i x xs) Q \<longleftrightarrow> i \<le> length xs \<and> Q (take i xs @ x # drop i xs)"
  by (simp add: insert_at_def)

lemma holds_remove_at [simp]: "holds (remove_at i xs) Q \<longleftrightarrow> i < length xs \<and> Q (take i xs @ drop (Suc i) xs)"
  by (simp add: remove_at_def)

lemma holds_minus_one [simp]: "holds (minus_one n) Q \<longleftrightarrow> n \<noteq> 0 \<and> Q (n - 1)"
  by (simp add: minus_one_def)

lemma holds_row_start [simp]: "holds (row_start rows r) Q \<longleftrightarrow> r \<le> length rows \<and> Q (sum_list (take r rows))"
  by (simp add: row_start_def)

section \<open>The automatic grid\<close>

lemma sum_auto_rows_prefix:
  "k \<le> (n + 1) div 2 \<Longrightarrow> sum_list (map (\<lambda>i. if i * 2 + 1 < n then 2 else (1::nat)) [0..<k]) = min (2 * k) n"
  by (induction k) (auto simp: min_def)

lemma sum_auto_rows [simp]: "sum_list (auto_rows n) = n"
  using sum_auto_rows_prefix[of "(n + 1) div 2" n] by (simp add: auto_rows_def min_def) presburger

lemma set_auto_rows: "set (auto_rows n) \<subseteq> {1, 2}"
  by (auto simp: auto_rows_def)

lemma length_auto_rows: "length (auto_rows n) = (if n = 2 then 2 else (n + 1) div 2)"
  by (auto simp: auto_rows_def)

section \<open>Finding a cell\<close>

lemma locate_from_Some:
  "locate_from start row ns a = Some (r, c) \<Longrightarrow> start \<le> a \<Longrightarrow>
    row \<le> r \<and> r - row < length ns \<and> c < ns ! (r - row) \<and> a = start + sum_list (take (r - row) ns) + c"
proof (induction start row ns a rule: locate_from.induct)
  case (2 start row n ns a)
  show ?case
  proof (cases "a < start + n")
    case False
    with 2 have "row + 1 \<le> r \<and> r - (row + 1) < length ns \<and> c < ns ! (r - (row + 1))
        \<and> a = start + n + sum_list (take (r - (row + 1)) ns) + c"
      by simp
    moreover from this obtain k where "r = row + 1 + k" by (metis le_Suc_ex)
    ultimately show ?thesis by simp
  qed (use 2 in auto)
qed simp

lemma locate_from_total: "start \<le> a \<Longrightarrow> a < start + sum_list ns \<Longrightarrow> locate_from start row ns a \<noteq> None"
  by (induction start row ns a rule: locate_from.induct) auto

lemma locate_spec:
  assumes "a < sum_list rows" "locate rows a = (row, col)"
  shows "row < length rows \<and> col < rows ! row \<and> sum_list (take row rows) + col = a"
proof -
  from locate_from_total[of 0 a rows 0] assms have "locate_from 0 0 rows a = Some (row, col)"
    by (auto simp: locate_def split: option.splits)
  from locate_from_Some[OF this] show ?thesis by simp
qed

lemma sum_list_split: "r < length rows \<Longrightarrow> sum_list rows = sum_list (take r rows) + rows ! r + sum_list (drop (Suc r) rows)"
  for rows :: "nat list"
  using arg_cong[OF id_take_nth_drop[of r rows], of sum_list] by simp

lemma row_cell_bound: "row < length rows \<Longrightarrow> c < rows ! row \<Longrightarrow> sum_list (take row rows) + c < sum_list rows" for rows :: "nat list"
  using sum_list_split[of row rows] by simp

lemma position_Some: "position P xs = Some i \<Longrightarrow> i < length xs \<and> P (xs ! i)"
  by (induction xs arbitrary: i) (auto split: if_splits)

lemma position_None: "position P xs = None \<longleftrightarrow> (\<forall>x\<in>set xs. \<not> P x)"
  by (induction xs) auto

lemma holds_cell_of: "(\<And>c. c < length shown \<Longrightarrow> shown ! c = slot \<Longrightarrow> Q c) \<Longrightarrow> holds (cell_of shown slot) Q"
  by (auto simp: cell_of_def dest: position_Some split: option.split)

lemma cells_spec:
  assumes "wf_panels t" "cells t = (rows, shown)"
  shows "sum_list rows = length shown \<and> set rows \<subseteq> {1, 2} \<and> distinct shown \<and> (\<forall>i\<in>set shown. i < length (tab_panels t))"
  using assms set_auto_rows
  by (auto simp: cells_def wf_panels_def wf_rows_def Let_def split: option.splits)

section \<open>What every operation keeps\<close>

datatype arrange_op = Sideways int | Vertically int | ToggleWidth | AddPanel panel_id | RemovePanel

fun run_arrange :: "arrange_op \<Rightarrow> tab \<Rightarrow> nat \<Rightarrow> fault + tab \<times> nat" where
  "run_arrange (Sideways by) t slot = move_sideways t slot by"
| "run_arrange (Vertically by) t slot = move_vertically t slot by"
| "run_arrange ToggleWidth t slot = toggle_width t slot"
| "run_arrange (AddPanel p) t slot = insert_after t slot p"
| "run_arrange RemovePanel t slot = remove_panel t slot"

definition on_tab :: "tab \<Rightarrow> nat \<Rightarrow> bool" where
  "on_tab t slot \<longleftrightarrow> wf_panels t \<and> slot < length (tab_panels t)"

text \<open>The panels the tab then shows, and the panel the cursor is then on.\<close>

fun effect_of :: "arrange_op \<Rightarrow> tab \<Rightarrow> nat \<Rightarrow> tab \<times> nat \<Rightarrow> bool" where
  "effect_of (AddPanel p) t slot (t', slot') \<longleftrightarrow>
     mset (tab_panels t') = add_mset p (mset (tab_panels t)) \<and> tab_panels t' ! slot' = p"
| "effect_of RemovePanel t slot (t', slot') \<longleftrightarrow>
     mset (tab_panels t') = mset (tab_panels t) - {#tab_panels t ! slot#}"
| "effect_of _ t slot (t', slot') \<longleftrightarrow>
     mset (tab_panels t') = mset (tab_panels t) \<and> tab_panels t' ! slot' = tab_panels t ! slot"

definition arranges :: "arrange_op \<Rightarrow> tab \<Rightarrow> nat \<Rightarrow> tab \<times> nat \<Rightarrow> bool" where
  "arranges op t slot r \<longleftrightarrow>
     on_tab (fst r) (snd r) \<and> tab_name (fst r) = tab_name t \<and> effect_of op t slot r"

lemma swap_panels_ok:
  assumes "on_tab t slot" "target < length (tab_panels t)" "op = Sideways by \<or> op = Vertically by"
  shows "holds (swap_panels t slot target) (arranges op t slot)"
  using assms
  by (auto simp: swap_panels_def swap_at_def arranges_def on_tab_def wf_panels_def nth_list_update mset_swap
      split: option.splits)

lemma move_sideways_ok: "on_tab t slot \<Longrightarrow> holds (move_sideways t slot by) (arranges (Sideways by) t slot)"
proof -
  assume t: "on_tab t slot"
  obtain rows shown where c: "cells t = (rows, shown)" by (cases "cells t")
  have spec: "sum_list rows = length shown" "\<forall>i\<in>set shown. i < length (tab_panels t)"
    using cells_spec[OF _ c] t by (auto simp: on_tab_def)
  show ?thesis
    unfolding move_sideways_def c prod.case holds_sbind
  proof (rule holds_cell_of)
    fix a assume a: "a < length shown" "shown ! a = slot"
    obtain row col where l: "locate rows a = (row, col)" by (cases "locate rows a")
    with locate_spec[of a rows] a spec have row: "row < length rows" by simp
    then show "holds (case locate rows a of (row, col) \<Rightarrow> case checked_add_signed col by of
        None \<Rightarrow> Inl (Refused RowEdge)
      | Some to \<Rightarrow> sbind (index_at rows row) (\<lambda>n. if \<not> to < n then Inl (Refused RowEdge)
          else sbind (row_start rows row) (\<lambda>start. sbind (index_at shown (start + to)) (swap_panels t slot))))
      (arranges (Sideways by) t slot)"
      using row_cell_bound[OF row] spec t
      by (auto simp: l intro!: swap_panels_ok split: option.split)
  qed
qed

lemma vertical_neighbour_ok:
  assumes "on_tab t slot"
  shows "holds (vertical_neighbour t slot by) (\<lambda>target. target < length (tab_panels t))"
proof -
  obtain rows shown where c: "cells t = (rows, shown)" by (cases "cells t")
  have spec: "sum_list rows = length shown" "set rows \<subseteq> {1, 2}" "\<forall>i\<in>set shown. i < length (tab_panels t)"
    using cells_spec[OF _ c] assms by (auto simp: on_tab_def)
  have pos: "0 < rows ! to" if "to < length rows" for to
    using spec(2) nth_mem[OF that] by auto
  have "start + min col (rows ! to - 1) < length shown"
    if "to < length rows" "start = sum_list (take to rows)" for to start col
    using row_cell_bound[OF that(1), of "min col (rows ! to - 1)"] pos[OF that(1)] that spec(1) by simp
  then show ?thesis
    unfolding vertical_neighbour_def c prod.case holds_sbind
    using spec(3) pos by (intro holds_cell_of) (auto split: prod.split option.split)
qed

lemma move_vertically_ok: "on_tab t slot \<Longrightarrow> holds (move_vertically t slot by) (arranges (Vertically by) t slot)"
  unfolding move_vertically_def holds_sbind
  by (rule holds_mono[OF vertical_neighbour_ok]) (auto intro: swap_panels_ok)

lemma list_split_at: "i < length xs \<Longrightarrow> \<exists>ys zs. xs = ys @ xs ! i # zs \<and> length ys = i"
  by (rule exI[of _ "take i xs"], rule exI[of _ "drop (Suc i) xs"]) (simp add: id_take_nth_drop)

lemma toggled_ok:
  assumes "row < joinable" "joinable \<le> length rows" "length rows \<le> 4" "set rows \<subseteq> {1, 2}"
  shows "holds (toggled rows joinable row)
    (\<lambda>r. r \<noteq> [] \<and> length r \<le> 4 \<and> set r \<subseteq> {1, 2} \<and> sum_list r = sum_list rows)"
proof -
  have row: "row < length rows" using assms by simp
  then obtain ys zs where rows: "rows = ys @ rows ! row # zs" "length ys = row"
    using list_split_at by blast
  define n where "n = rows ! row"
  have n: "n \<in> {1, 2}" using assms(4) nth_mem[OF row] by (auto simp: n_def)
  have split: "rows = ys @ n # zs" using rows by (simp add: n_def)
  have set: "set ys \<subseteq> {1, 2}" "set zs \<subseteq> {1, 2}" using assms(4) split by auto
  show ?thesis
  proof (cases "n = 2")
    case True
    with assms(3) set rows(2) show ?thesis
      by (auto simp: toggled_def split list_update_append nth_append)
  next
    case False
    with n have one: "n = 1" by simp
    have after: "holds (remove_at (row + 1) (rows[row := 2])) (\<lambda>r. r \<noteq> [] \<and> length r \<le> 4 \<and> set r \<subseteq> {1, 2} \<and> sum_list r = sum_list rows)"
      if "row + 1 < length rows" "rows ! (row + 1) = 1"
    proof -
      from that split rows(2) obtain zs' where zs: "zs = 1 # zs'" by (cases zs) (auto simp: nth_append)
      with assms(3) set rows(2) one show ?thesis by (auto simp: split list_update_append)
    qed
    have before: "holds (remove_at row (rows[row - 1 := 2])) (\<lambda>r. r \<noteq> [] \<and> length r \<le> 4 \<and> set r \<subseteq> {1, 2} \<and> sum_list r = sum_list rows)"
      if "0 < row" "rows ! (row - 1) = 1"
    proof -
      from that(1) rows(2) obtain ys' k where ys: "ys = ys' @ [k]" by (cases ys rule: rev_cases) auto
      with that split rows(2) have "k = 1" by (auto simp: nth_append)
      with ys assms(3) set rows(2) one that(1) show ?thesis by (auto simp: split list_update_append)
    qed
    from False row show ?thesis
      unfolding toggled_def holds_sbind holds_index_at n_def[symmetric]
      using after before by auto
  qed
qed

lemma remove_mset: "i < length xs \<Longrightarrow> mset (take i xs @ drop (Suc i) xs) = mset xs - {#xs ! i#}"
proof -
  assume "i < length xs"
  then have "mset xs = mset (take i xs @ xs ! i # drop (Suc i) xs)" by (simp add: id_take_nth_drop[symmetric])
  then show ?thesis by simp
qed

lemma distinct_mset_eq: "mset xs = mset ys \<Longrightarrow> distinct xs \<longleftrightarrow> distinct ys"
  by (metis distinct_count_atmost_1 mset_eq_setD)

lemma arranged_ok:
  assumes "on_tab t slot" "length (tab_panels t) \<le> 8"
  shows "holds (arranged t slot) (\<lambda>(rows, panels, slot', joinable).
    mset panels = mset (tab_panels t) \<and> slot' < length panels \<and> panels ! slot' = tab_panels t ! slot
    \<and> length rows \<le> 4 \<and> set rows \<subseteq> {1, 2} \<and> sum_list rows = length panels \<and> joinable \<le> length rows)"
proof (cases "tab_rows t")
  case (Some rows)
  with assms show ?thesis by (auto simp: arranged_def on_tab_def wf_panels_def wf_rows_def)
next
  case None
  let ?ps = "tab_panels t"
  show ?thesis
  proof (cases "position (\<lambda>p. p = Budget) ?ps")
    case none: None
    with assms None set_auto_rows[of "length ?ps"] show ?thesis
      by (auto simp: arranged_def Let_def on_tab_def length_auto_rows)
  next
    case (Some b)
    then have b: "b < length ?ps" by (auto dest: position_Some)
    have perm: "mset (take b ?ps @ drop (Suc b) ?ps @ [?ps ! b]) = mset ?ps"
      using remove_mset[OF b] b by (simp add: union_assoc[symmetric] insert_DiffM)
    have len: "length (take b ?ps @ drop (Suc b) ?ps) = length ?ps - 1" using b by simp
    have slot: "slot < length ?ps" using assms by (simp add: on_tab_def)
    have cursor: "(take b ?ps @ drop (Suc b) ?ps @ [?ps ! b]) !
        (if slot = b then length ?ps - 1 else if slot > b then slot - 1 else slot) = ?ps ! slot"
      using b slot by (auto simp: nth_append min_def)
    show ?thesis
      using None Some b len perm cursor slot set_auto_rows[of "length ?ps - 1"]
      by (auto simp: arranged_def Let_def not_le)
  qed
qed

lemma toggle_width_ok:
  assumes t: "on_tab t slot"
  shows "holds (toggle_width t slot) (arranges ToggleWidth t slot)"
proof (cases "length (tab_panels t) \<le> 8")
  case True
  have finish: "holds (toggled rows joinable (fst (locate rows slot')))
      (\<lambda>rows'. arranges ToggleWidth t slot (t\<lparr>tab_panels := panels, tab_rows := Some rows'\<rparr>, slot'))"
    if p: "mset panels = mset (tab_panels t)" "slot' < length panels" "panels ! slot' = tab_panels t ! slot"
      "length rows \<le> 4" "set rows \<subseteq> {1, 2}" "sum_list rows = length panels" "joinable \<le> length rows"
      "fst (locate rows slot') < joinable"
    for rows panels slot' joinable
    using t p mset_eq_length[OF p(1)] distinct_mset_eq[OF p(1)]
    by (intro holds_mono[OF toggled_ok])
       (auto simp: arranges_def on_tab_def wf_panels_def wf_rows_def simp flip: length_greater_0_conv)
  have step: "holds (if joinable \<le> fst (locate rows slot') then Inl (Refused BudgetStrip)
      else sbind (toggled rows joinable (fst (locate rows slot')))
             (\<lambda>rows'. Inr (t\<lparr>tab_panels := panels, tab_rows := Some rows'\<rparr>, slot')))
      (arranges ToggleWidth t slot)"
    if "mset panels = mset (tab_panels t) \<and> slot' < length panels \<and> panels ! slot' = tab_panels t ! slot
      \<and> length rows \<le> 4 \<and> set rows \<subseteq> {1, 2} \<and> sum_list rows = length panels \<and> joinable \<le> length rows"
    for rows panels slot' joinable
    using that finish[of panels slot' rows joinable] by (cases "fst (locate rows slot') < joinable") simp_all
  from True have "toggle_width t slot = sbind (arranged t slot) (\<lambda>(rows, panels, slot', joinable).
      if joinable \<le> fst (locate rows slot') then Inl (Refused BudgetStrip)
      else sbind (toggled rows joinable (fst (locate rows slot')))
             (\<lambda>rows'. Inr (t\<lparr>tab_panels := panels, tab_rows := Some rows'\<rparr>, slot')))"
    by (simp add: toggle_width_def Let_def)
  then show ?thesis
    by (simp only: holds_sbind) (rule holds_mono[OF arranged_ok[OF t True]], clarify, rule step, blast)
qed (simp add: toggle_width_def)

lemma insert_after_ok:
  assumes t: "on_tab t slot"
  shows "holds (insert_after t slot p) (arranges (AddPanel p) t slot)"
proof (cases "p \<in> set (tab_panels t)")
  case False
  let ?ps = "tab_panels t"
  have put: "mset (take a ?ps @ p # drop a ?ps) = add_mset p (mset ?ps)" "distinct (take a ?ps @ p # drop a ?ps)"
    "a \<le> length ?ps \<Longrightarrow> (take a ?ps @ p # drop a ?ps) ! a = p" for a
  proof -
    have "mset (take a ?ps) + mset (drop a ?ps) = mset ?ps" by (simp flip: mset_append)
    then show m: "mset (take a ?ps @ p # drop a ?ps) = add_mset p (mset ?ps)" by simp
    from False t have "distinct (p # ?ps)" by (simp add: on_tab_def wf_panels_def)
    then show "distinct (take a ?ps @ p # drop a ?ps)"
      using m distinct_mset_eq[of "take a ?ps @ p # drop a ?ps" "p # ?ps"] by simp
  qed (simp add: nth_append)
  show ?thesis
  proof (cases "tab_rows t")
    case None
    with False t put show ?thesis
      by (auto simp: insert_after_def insert_point_def arranges_def on_tab_def wf_panels_def)
  next
    case (Some rows)
    with t have wf: "set rows \<subseteq> {1, 2}" "sum_list rows = length ?ps" "slot < sum_list rows"
      by (auto simp: on_tab_def wf_panels_def wf_rows_def)
    obtain row col where l: "locate rows slot = (row, col)" by (cases "locate rows slot")
    from locate_spec[OF wf(3) l] have row: "row < length rows" by simp
    have bound: "sum_list (take row rows) + rows ! row \<le> length ?ps"
      using sum_list_split[OF row] wf(2) by simp
    have rows': "set (take (Suc row) rows @ 1 # drop (Suc row) rows) \<subseteq> {1, 2}"
      "sum_list (take (Suc row) rows @ 1 # drop (Suc row) rows) = Suc (length ?ps)"
      using wf(1,2) subsetD[OF wf(1) nth_mem[OF row]] sum_list_split[OF row] row
      by (auto simp: take_Suc_conv_app_nth dest!: in_set_takeD in_set_dropD)
    show ?thesis
      using False Some t l row bound put rows'
      by (auto simp: insert_after_def insert_point_def Let_def arranges_def on_tab_def wf_panels_def wf_rows_def)
  qed
qed (simp add: insert_after_def)

lemma shrunk_ok:
  assumes "row < length rows" "set rows \<subseteq> {1, 2}" "length rows \<le> 4" "1 < sum_list rows"
  shows "holds (shrunk rows row) (wf_rows (sum_list rows - 1))"
proof -
  from list_split_at[OF assms(1)] obtain ys zs where rows: "rows = ys @ rows ! row # zs" "length ys = row" by blast
  define n where "n = rows ! row"
  have n: "n \<in> {1, 2}" using assms(2) nth_mem[OF assms(1)] by (auto simp: n_def)
  have split: "rows = ys @ n # zs" using rows by (simp add: n_def)
  have "holds (shrunk (ys @ n # zs) row) (wf_rows (sum_list (ys @ n # zs) - 1))"
    using assms(2-4) n rows(2) unfolding split
    by (auto simp: shrunk_def list_update_append wf_rows_def)
  then show ?thesis by (simp add: split)
qed

lemma remove_panel_ok:
  assumes t: "on_tab t slot"
  shows "holds (remove_panel t slot) (arranges RemovePanel t slot)"
proof (cases "length (tab_panels t) = 1")
  case False
  let ?ps = "tab_panels t" and ?rest = "take slot (tab_panels t) @ drop (Suc slot) (tab_panels t)"
  have slot: "slot < length ?ps" "1 < length ?ps" "distinct ?ps"
    using t False by (auto simp: on_tab_def wf_panels_def)
  have rest: "mset ?rest = mset ?ps - {#?ps ! slot#}" "length ?rest = length ?ps - 1" "distinct ?rest"
    using remove_mset[OF slot(1)] slot set_take_disj_set_drop_if_distinct[of ?ps slot "Suc slot"] by auto
  show ?thesis
  proof (cases "tab_rows t")
    case None
    with False slot rest show ?thesis
      by (auto simp: remove_panel_def arranges_def on_tab_def wf_panels_def)
  next
    case (Some rows)
    with t have wf: "set rows \<subseteq> {1, 2}" "sum_list rows = length ?ps" "length rows \<le> 4" "slot < sum_list rows"
      by (auto simp: on_tab_def wf_panels_def wf_rows_def)
    have row: "fst (locate rows slot) < length rows"
      using locate_spec[OF wf(4)] by (cases "locate rows slot") auto
    have "holds (shrunk rows (fst (locate rows slot))) (wf_rows (length ?ps - 1))"
      using shrunk_ok[OF row wf(1,3)] wf(2) slot by simp
    then show ?thesis
      using False Some slot rest
      by (auto simp: remove_panel_def arranges_def on_tab_def wf_panels_def elim!: holds_mono)
  qed
qed (simp add: remove_panel_def)

lemma run_arrange_ok: "on_tab t slot \<Longrightarrow> holds (run_arrange op t slot) (arranges op t slot)"
  by (cases op) (auto intro: move_sideways_ok move_vertically_ok toggle_width_ok insert_after_ok remove_panel_ok)

text \<open>
  C34. On a well-formed tab with the cursor on one of its panels, no arranging operation panics.
  One that is not refused leaves a well-formed tab with the cursor on one of its panels and the
  name unchanged; moves and width changes keep exactly the panels and take the cursor along
  with its panel, adding adds exactly the one panel and puts the cursor on it, and removing
  takes exactly the one under the cursor.
\<close>

theorem arranging_is_safe:
  assumes "wf_panels t" "slot < length (tab_panels t)"
  shows "run_arrange op t slot \<noteq> Inl Panic
    \<and> (\<forall>t' slot'. run_arrange op t slot = Inr (t', slot') \<longrightarrow>
         wf_panels t' \<and> slot' < length (tab_panels t') \<and> tab_name t' = tab_name t \<and> effect_of op t slot (t', slot'))"
proof -
  have "holds (run_arrange op t slot) (arranges op t slot)"
    using assms by (intro run_arrange_ok) (simp add: on_tab_def)
  then have r: "run_arrange op t slot \<noteq> Inl Panic" "run_arrange op t slot = Inr x \<Longrightarrow> arranges op t slot x" for x
    unfolding holds_no_panic by blast+
  from r(1) show ?thesis
    using r(2)[of "(_, _)"] unfolding arranges_def on_tab_def fst_conv snd_conv by blast
qed

theorem arranging_is_safe_witness:
  "wf_panels \<lparr>tab_name = lit ''A'', tab_panels = [Spend, Tokens], tab_rows = Some [2]\<rparr>"
proof -
  let ?t = "\<lparr>tab_name = lit ''A'', tab_panels = [Spend, Tokens], tab_rows = None\<rparr>"
  have "run_arrange ToggleWidth ?t 1 = Inr (\<lparr>tab_name = lit ''A'', tab_panels = [Spend, Tokens], tab_rows = Some [2]\<rparr>, 1)"
    by (simp add: toggle_width_def arranged_def auto_rows_def toggled_def index_at_def remove_at_def locate_def Let_def)
  moreover have "wf_panels ?t" "1 < length (tab_panels ?t)" by (simp_all add: wf_panels_def)
  note arranging_is_safe[OF this, of ToggleWidth]
  ultimately show ?thesis by blast
qed

section \<open>There and back\<close>

lemma sbind_InrE: "sbind m f = Inr y \<Longrightarrow> (\<And>x. m = Inr x \<Longrightarrow> f x = Inr y \<Longrightarrow> R) \<Longrightarrow> R"
  by (cases m) auto

lemma index_at_Inr: "index_at xs i = Inr x \<longleftrightarrow> i < length xs \<and> xs ! i = x"
  by (simp add: index_at_def)

lemma swap_at_Inr: "swap_at i j xs = Inr ys \<longleftrightarrow> i < length xs \<and> j < length xs \<and> ys = xs[i := xs ! j, j := xs ! i]"
  by (auto simp: swap_at_def)

lemma row_start_eq: "r \<le> length rows \<Longrightarrow> row_start rows r = Inr (sum_list (take r rows))"
  by (simp add: row_start_def)

lemma position_nth: "distinct xs \<Longrightarrow> c < length xs \<Longrightarrow> position (\<lambda>i. i = xs ! c) xs = Some c"
  by (induction xs arbitrary: c) (auto simp: nth_Cons split: nat.splits)

lemma locate_from_eq:
  "r < length ns \<Longrightarrow> c < ns ! r \<Longrightarrow> locate_from start row ns (start + sum_list (take r ns) + c) = Some (row + r, c)"
proof (induction ns arbitrary: start row r)
  case (Cons n ns)
  show ?case
  proof (cases r)
    case (Suc k)
    with Cons.prems Cons.IH[of k "start + n" "row + 1"] show ?thesis by (simp add: ac_simps)
  qed (use Cons.prems in simp)
qed simp

lemma locate_eq: "r < length rows \<Longrightarrow> c < rows ! r \<Longrightarrow> locate rows (sum_list (take r rows) + c) = (r, c)"
  using locate_from_eq[of r rows c 0 0] by (simp add: locate_def)

text \<open>What a successful sideways move is: a swap of two cells of one row.\<close>

lemma move_sideways_Inr:
  assumes t: "on_tab t slot" and m: "move_sideways t slot by = Inr (t', slot')" and c: "cells t = (rows, shown)"
  shows "\<exists>row col to. row < length rows \<and> col < rows ! row \<and> to < rows ! row \<and> int to = int col + by
    \<and> shown ! (sum_list (take row rows) + col) = slot \<and> shown ! (sum_list (take row rows) + to) = slot'
    \<and> t' = t\<lparr>tab_panels := (tab_panels t)[slot := tab_panels t ! slot', slot' := tab_panels t ! slot]\<rparr>"
proof -
  have sum: "sum_list rows = length shown" using cells_spec[OF _ c] t by (simp add: on_tab_def)
  from m obtain a where a: "cell_of shown slot = Inr a"
    by (auto simp: move_sideways_def c elim: sbind_InrE)
  then have cell: "a < length shown" "shown ! a = slot"
    by (auto simp: cell_of_def dest: position_Some split: option.splits)
  obtain row col where l: "locate rows a = (row, col)" by (cases "locate rows a")
  from locate_spec[of a rows row col] l cell sum have row: "row < length rows" "col < rows ! row" "sum_list (take row rows) + col = a"
    by auto
  from m a obtain to where to: "checked_add_signed col by = Some to"
    by (auto simp: move_sideways_def c l split: option.splits)
  from m a to row(1) have lt: "to < rows ! row"
    by (auto simp: move_sideways_def c l index_at_def split: if_splits)
  from m a to row(1) lt have "sbind (index_at shown (sum_list (take row rows) + to)) (swap_panels t slot) = Inr (t', slot')"
    by (simp add: move_sideways_def c l index_at_def row_start_eq)
  then have "shown ! (sum_list (take row rows) + to) = slot'"
    "t' = t\<lparr>tab_panels := (tab_panels t)[slot := tab_panels t ! slot', slot' := tab_panels t ! slot]\<rparr>"
    by (auto simp: sbind_Inr_iff index_at_Inr swap_panels_def swap_at_Inr)
  moreover have "int to = int col + by" using to by (auto simp: checked_add_signed_def split: if_splits)
  ultimately show ?thesis using row lt cell(2) by blast
qed

lemma cells_swap:
  assumes "cells t = (rows, shown)" "i \<in> set shown" "j \<in> set shown" "i < length (tab_panels t)" "j < length (tab_panels t)"
  shows "cells (t\<lparr>tab_panels := (tab_panels t)[i := tab_panels t ! j, j := tab_panels t ! i]\<rparr>) = (rows, shown)"
proof (cases "tab_rows t")
  case None
  let ?ps = "tab_panels t" and ?qs = "(tab_panels t)[i := tab_panels t ! j, j := tab_panels t ! i]"
  have "?ps ! i \<noteq> Budget" "?ps ! j \<noteq> Budget" using assms(1-3) None by (auto simp: cells_def Let_def)
  then have "filter (\<lambda>k. ?qs ! k \<noteq> Budget) [0..<length ?ps] = filter (\<lambda>k. ?ps ! k \<noteq> Budget) [0..<length ?ps]"
    using assms(4,5) by (intro filter_cong) (auto simp: nth_list_update)
  with assms(1) None show ?thesis by (auto simp: cells_def Let_def)
qed (use assms in \<open>simp add: cells_def\<close>)

text \<open>
  Moving a panel sideways and then as far the other way puts the tab and the cursor back
  exactly, on automatic and arranged tabs alike.
\<close>

theorem sideways_there_and_back:
  assumes "wf_panels t" "slot < length (tab_panels t)" "move_sideways t slot by = Inr (t', slot')"
  shows "move_sideways t' slot' (- by) = Inr (t, slot)"
proof -
  obtain rows shown where c: "cells t = (rows, shown)" by (cases "cells t")
  have spec: "sum_list rows = length shown" "distinct shown" "\<forall>i\<in>set shown. i < length (tab_panels t)"
    using cells_spec[OF assms(1) c] by auto
  from move_sideways_Inr[OF _ assms(3) c] assms(1,2) obtain row col to where
    row: "row < length rows" "col < rows ! row" "to < rows ! row" "int to = int col + by"
    and cell: "shown ! (sum_list (take row rows) + col) = slot" "shown ! (sum_list (take row rows) + to) = slot'"
    and t': "t' = t\<lparr>tab_panels := (tab_panels t)[slot := tab_panels t ! slot', slot' := tab_panels t ! slot]\<rparr>"
    by (auto simp: on_tab_def)
  have in_shown: "sum_list (take row rows) + col < length shown" "sum_list (take row rows) + to < length shown"
    using row_cell_bound[OF row(1)] row spec(1) by auto
  then have shown: "slot \<in> set shown" "slot' \<in> set shown" using cell nth_mem by blast+
  then have len: "slot < length (tab_panels t)" "slot' < length (tab_panels t)" using spec(3) by auto
  have c': "cells t' = (rows, shown)" unfolding t' by (rule cells_swap[OF c shown len])
  have cell': "cell_of shown slot' = Inr (sum_list (take row rows) + to)"
    using position_nth[OF spec(2) in_shown(2)] by (simp add: cell_of_def cell)
  have there: "checked_add_signed to (- by) = Some col" using row(4) by (simp add: checked_add_signed_def)
  have "swap_panels t' slot' slot = Inr (t, slot)"
    using len by (auto simp: swap_panels_def swap_at_def t' nth_list_update list_update_swap
        intro!: tab.equality nth_equalityI)
  then show ?thesis
    using row in_shown(1) cell(1) cell' there
    by (simp add: move_sideways_def c' locate_eq index_at_def row_start_eq)
qed

theorem sideways_there_and_back_witness:
  "move_sideways \<lparr>tab_name = [], tab_panels = [Tokens, Spend], tab_rows = Some [2]\<rparr> 1 (- 1)
    = Inr (\<lparr>tab_name = [], tab_panels = [Spend, Tokens], tab_rows = Some [2]\<rparr>, 0)"
proof (rule sideways_there_and_back)
  show "move_sideways \<lparr>tab_name = [], tab_panels = [Spend, Tokens], tab_rows = Some [2]\<rparr> 0 1
    = Inr (\<lparr>tab_name = [], tab_panels = [Tokens, Spend], tab_rows = Some [2]\<rparr>, 1)"
    by code_simp
qed (simp_all add: wf_panels_def wf_rows_def)

end
