(* ===== verification/Editor.thy ===== *)
theory Editor
  imports Arrange
begin

text \<open>
  The layout editor: \<^verbatim>\<open>crates/telemetry/src/tui/editor.rs\<close>. One key at a time it edits a copy
  of the layout, through the operations of \<open>Arrange\<close>, and remembers the last twenty layouts.
  A panic of the code is \<open>None\<close>. Theorems: from a well-formed layout no sequence of keys
  panics, and the layout stays well formed, so it can always be stored; the editor refines a
  bounded history of layouts; and undo takes back any change.
\<close>

section \<open>State\<close>

abbreviation UNDO_DEPTH :: nat where "UNDO_DEPTH \<equiv> 20"

datatype key_code = KEsc | KEnter | KBackspace | KUp | KDown | KLeft | KRight | KChar rchar | KOther

datatype outcome = Stay | Close | ResetAll

text \<open>What the user is told, in the order of the code's messages.\<close>

datatype message =
    Said refusal | NothingToUndo | EveryPanelShown | AtMostTabs | KeepOneTab | NameNeeded | NameTaken str

record editor =
  ed_layout :: layout
  ed_tab :: nat
  ed_picker :: "nat option"
  ed_slot :: nat
  ed_undo :: "(layout \<times> nat) list"
  ed_rename :: "str option"
  ed_confirm_reset :: bool
  ed_message :: "message option"

definition new_editor :: "layout \<Rightarrow> nat \<Rightarrow> editor" where
  "new_editor l i = \<lparr>ed_layout = l, ed_tab = min i (length l - 1), ed_picker = None, ed_slot = 0, ed_undo = [],
     ed_rename = None, ed_confirm_reset = False, ed_message = None\<rparr>"

text \<open>The panels of the tab being edited, none when there is no such tab.\<close>

definition shown :: "editor \<Rightarrow> panel_id list" where
  "shown e = (if ed_tab e < length (ed_layout e) then tab_panels (ed_layout e ! ed_tab e) else [])"

definition tell :: "message \<Rightarrow> editor \<Rightarrow> editor" where
  "tell m e = e\<lparr>ed_message := Some m\<rparr>"

section \<open>Operations\<close>

definition clamp_slot :: "editor \<Rightarrow> editor" where
  "clamp_slot e = e\<lparr>ed_slot := min (ed_slot e) (length (shown e) - 1)\<rparr>"

definition undo :: "editor \<Rightarrow> editor" where
  "undo e = (if ed_undo e = [] then tell NothingToUndo e
     else case last (ed_undo e) of (l, i) \<Rightarrow>
       e\<lparr>ed_undo := butlast (ed_undo e), ed_tab := min i (length l - 1), ed_layout := l\<rparr>)"

definition go :: "int \<Rightarrow> editor \<Rightarrow> editor" where
  "go by e = e\<lparr>ed_tab := nat ((int (ed_tab e) + by) mod int (max (length (ed_layout e)) 1)), ed_slot := 0\<rparr>"

definition arrange :: "arrange_op \<Rightarrow> editor \<Rightarrow> editor option" where
  "arrange op e = (if \<not> ed_tab e < length (ed_layout e) then Some e
     else let t = ed_layout e ! ed_tab e in
       case run_arrange op t (min (ed_slot e) (length (tab_panels t) - 1)) of
         Inr (t', to) \<Rightarrow> Some (e\<lparr>ed_layout := (ed_layout e)[ed_tab e := t'], ed_slot := to\<rparr>)
       | Inl (Refused why) \<Rightarrow> Some (tell (Said why) e)
       | Inl Panic \<Rightarrow> None)"

definition look :: "int \<Rightarrow> editor \<Rightarrow> editor option" where
  "look by e = (if \<not> ed_tab e < length (ed_layout e) then Some e
     else case vertical_neighbour (ed_layout e ! ed_tab e) (ed_slot e) by of
       Inr to \<Rightarrow> Some (e\<lparr>ed_slot := to\<rparr>) | Inl (Refused _) \<Rightarrow> Some e | Inl Panic \<Rightarrow> None)"

definition available :: "editor \<Rightarrow> panel_id list" where
  "available e = filter (\<lambda>p. p \<notin> set (shown e)) ALL_PANELS"

definition open_picker :: "editor \<Rightarrow> editor" where
  "open_picker e = (if available e = [] then tell EveryPanelShown e else e\<lparr>ed_picker := Some 0\<rparr>)"

definition picker_key :: "key_code \<Rightarrow> editor \<Rightarrow> editor option" where
  "picker_key code e =
     (let choices = available e; furthest = length choices - 1;
          line = min (case ed_picker e of None \<Rightarrow> 0 | Some i \<Rightarrow> i) furthest
      in if code \<in> {KEsc, KChar 113} then Some (e\<lparr>ed_picker := None\<rparr>)
         else if code \<in> {KDown, KChar 106} then Some (e\<lparr>ed_picker := Some (min (line + 1) furthest)\<rparr>)
         else if code \<in> {KUp, KChar 107} then Some (e\<lparr>ed_picker := Some (line - 1)\<rparr>)
         else if code = KEnter
         then let e' = e\<lparr>ed_picker := None\<rparr> in
              if line < length choices then arrange (AddPanel (choices ! line)) e' else Some e'
         else Some e)"

definition move_tab :: "int \<Rightarrow> editor \<Rightarrow> editor option" where
  "move_tab by e = (let to = int (ed_tab e) + by in
     if 0 \<le> to \<and> nat to < length (ed_layout e)
     then case swap_at (ed_tab e) (nat to) (ed_layout e) of
         Inr l \<Rightarrow> Some (e\<lparr>ed_layout := l, ed_tab := nat to, ed_slot := 0\<rparr>) | Inl _ \<Rightarrow> None
     else Some e)"

definition numbered_name :: "nat \<Rightarrow> str" where
  "numbered_name i = lit ''Tab '' @ dec_nat i"

text \<open>
  The source searches from 1 without an end; a name is free among the first one more than there
  are tabs, \<open>fresh_name_free\<close> below.
\<close>

definition fresh_name :: "layout \<Rightarrow> str" where
  "fresh_name l = (case find (\<lambda>n. \<not> taken n l) (map numbered_name [1..<length l + 2]) of
     Some n \<Rightarrow> n | None \<Rightarrow> [])"

definition new_tab :: "editor \<Rightarrow> editor" where
  "new_tab e = (if length (ed_layout e) \<ge> MAX_TABS then tell AtMostTabs e
     else let first = (if ed_slot e < length (shown e) then shown e ! ed_slot e else hd ALL_PANELS);
              l = ed_layout e @ [\<lparr>tab_name = fresh_name (ed_layout e), tab_panels = [first], tab_rows = None\<rparr>]
          in e\<lparr>ed_layout := l, ed_tab := length l - 1, ed_slot := 0\<rparr>)"

definition delete_tab :: "editor \<Rightarrow> editor option" where
  "delete_tab e = (if length (ed_layout e) = 1 then Some (tell KeepOneTab e)
     else case remove_at (ed_tab e) (ed_layout e) of
       Inr l \<Rightarrow> if l = [] then None
               else Some (e\<lparr>ed_layout := l, ed_tab := min (ed_tab e) (length l - 1), ed_slot := 0\<rparr>)
     | Inl _ \<Rightarrow> None)"

definition name_taken :: "editor \<Rightarrow> str \<Rightarrow> bool" where
  "name_taken e new \<longleftrightarrow> list_ex (\<lambda>i. i \<noteq> ed_tab e \<and> eq_ignore_ascii_case (tab_name (ed_layout e ! i)) new)
     [0..<length (ed_layout e)]"

definition rename_tab :: "editor \<Rightarrow> str \<Rightarrow> editor" where
  "rename_tab e new = (if ed_tab e < length (ed_layout e)
     then e\<lparr>ed_layout := (ed_layout e)[ed_tab e := (ed_layout e ! ed_tab e)\<lparr>tab_name := new\<rparr>]\<rparr> else e)"

definition rename_key :: "key_code \<Rightarrow> editor \<Rightarrow> editor" where
  "rename_key code e = (case ed_rename e of None \<Rightarrow> e | Some name \<Rightarrow>
     (case code of
        KEsc \<Rightarrow> e\<lparr>ed_rename := None\<rparr>
      | KBackspace \<Rightarrow> e\<lparr>ed_rename := Some (butlast name)\<rparr>
      | KChar c \<Rightarrow>
          if \<not> is_control c \<and> c \<notin> {59, 61, 44, 124} \<and> length name < MAX_NAME
          then e\<lparr>ed_rename := Some (name @ [c])\<rparr> else e
      | KEnter \<Rightarrow> let new = trim name in
          if new = [] then tell NameNeeded e
          else if name_taken e new then tell (NameTaken new) e
          else (rename_tab e new)\<lparr>ed_rename := None, ed_message := None\<rparr>
      | _ \<Rightarrow> e))"

text \<open>The keys of the editor when nothing is open, in the order of the code.\<close>

definition plain_key :: "key_code \<Rightarrow> editor \<Rightarrow> (editor \<times> outcome) option" where
  "plain_key code e =
     (let stay = map_option (\<lambda>e'. (e', Stay)) in
      if code \<in> {KEsc, KChar 113} then Some (e, Close)
      else if code \<in> {KDown, KChar 106} then stay (look 1 e)
      else if code \<in> {KUp, KChar 107} then stay (look (- 1) e)
      else if code = KRight then stay (Some (go 1 e))
      else if code = KLeft then stay (Some (go (- 1) e))
      else if code = KChar 104 then stay (Some (e\<lparr>ed_slot := ed_slot e - 1\<rparr>))
      else if code = KChar 108 then stay (Some (e\<lparr>ed_slot := ed_slot e + 1\<rparr>))
      else if code = KChar 72 then stay (arrange (Sideways (- 1)) e)
      else if code = KChar 76 then stay (arrange (Sideways 1) e)
      else if code = KChar 75 then stay (arrange (Vertically (- 1)) e)
      else if code = KChar 74 then stay (arrange (Vertically 1) e)
      else if code = KChar 102 then stay (arrange ToggleWidth e)
      else if code = KChar 100 then stay (arrange RemovePanel e)
      else if code = KChar 97 then stay (Some (open_picker e))
      else if code = KChar 60 then stay (move_tab (- 1) e)
      else if code = KChar 62 then stay (move_tab 1 e)
      else if code = KChar 110 then stay (Some (new_tab e))
      else if code = KChar 120 then stay (delete_tab e)
      else if code = KChar 114 then stay (Some (e\<lparr>ed_rename :=
          if ed_tab e < length (ed_layout e) then Some (tab_name (ed_layout e ! ed_tab e)) else None\<rparr>))
      else if code = KChar 82 then stay (Some (e\<lparr>ed_confirm_reset := True\<rparr>))
      else Some (e, Stay))"

definition dispatch :: "key_code \<Rightarrow> editor \<Rightarrow> (editor \<times> outcome) option" where
  "dispatch code e =
     (if ed_rename e \<noteq> None then Some (rename_key code e, Stay)
      else if ed_confirm_reset e
      then Some (e\<lparr>ed_confirm_reset := False\<rparr>, if code = KChar 121 then ResetAll else Stay)
      else if ed_picker e \<noteq> None then map_option (\<lambda>e'. (e', Stay)) (picker_key code e)
      else plain_key code (e\<lparr>ed_message := None\<rparr>))"

definition is_undo :: "key_code \<Rightarrow> editor \<Rightarrow> bool" where
  "is_undo code e \<longleftrightarrow> ed_rename e = None \<and> ed_picker e = None \<and> \<not> ed_confirm_reset e \<and> code = KChar 117"

definition remember :: "layout \<Rightarrow> nat \<Rightarrow> editor \<Rightarrow> editor" where
  "remember before i e = (if ed_layout e \<noteq> before
     then e\<lparr>ed_undo := (if length (ed_undo e) = UNDO_DEPTH then tl (ed_undo e) else ed_undo e) @ [(before, i)]\<rparr>
     else e)"

definition press :: "key_code \<Rightarrow> editor \<Rightarrow> (editor \<times> outcome) option" where
  "press code e =
     (if is_undo code e then Some (clamp_slot (undo (e\<lparr>ed_message := None\<rparr>)), Stay)
      else map_option (\<lambda>(e', out). (clamp_slot (remember (ed_layout e) (ed_tab e) e'), out)) (dispatch code e))"

text \<open>A run of keys, until the window closes.\<close>

fun press_all :: "key_code list \<Rightarrow> editor \<Rightarrow> editor option" where
  "press_all [] e = Some e"
| "press_all (k # ks) e = Option.bind (press k e) (\<lambda>(e', out). if out = Stay then press_all ks e' else Some e')"

section \<open>The invariant\<close>

definition ok_place :: "layout \<times> nat \<Rightarrow> bool" where
  "ok_place p \<longleftrightarrow> wf_layout (fst p) \<and> snd p < length (fst p)"

text \<open>A name that, once trimmed, may be given to a tab.\<close>

definition ok_typing :: "str \<Rightarrow> bool" where
  "ok_typing name \<longleftrightarrow> length name \<le> MAX_NAME \<and> (\<forall>c\<in>set name. \<not> is_control c \<and> c \<noteq> 59 \<and> c \<noteq> 61)"

text \<open>The invariant between keys, and the part of it that holds inside one, before the cursor is clamped.\<close>

definition one_mode :: "editor \<Rightarrow> bool" where
  "one_mode e \<longleftrightarrow> (ed_rename e \<noteq> None \<longrightarrow> ed_picker e = None \<and> \<not> ed_confirm_reset e)
     \<and> (ed_confirm_reset e \<longrightarrow> ed_picker e = None)"

definition ok_inside :: "editor \<Rightarrow> bool" where
  "ok_inside e \<longleftrightarrow> ok_place (ed_layout e, ed_tab e) \<and> list_all ok_place (ed_undo e)
     \<and> length (ed_undo e) \<le> UNDO_DEPTH \<and> one_mode e \<and> (\<forall>name. ed_rename e = Some name \<longrightarrow> ok_typing name)"

definition ok_editor :: "editor \<Rightarrow> bool" where
  "ok_editor e \<longleftrightarrow> ok_inside e \<and> ed_slot e < length (shown e)"

named_theorems editor_simps
declare ok_inside_def [editor_simps] one_mode_def [editor_simps] ok_place_def [editor_simps] tell_def [editor_simps]

lemma wf_tab_at: "wf_layout l \<Longrightarrow> i < length l \<Longrightarrow> wf_panels (l ! i) \<and> wf_name (tab_name (l ! i))"
  by (simp add: wf_layout_def)

lemma shown_nonempty: "ok_inside e \<Longrightarrow> shown e \<noteq> []"
  using wf_tab_at[of "ed_layout e" "ed_tab e"] by (simp add: editor_simps shown_def wf_panels_def)

lemma min_last: "xs \<noteq> [] \<Longrightarrow> min k (length xs - Suc 0) < length xs"
  by (cases xs) (auto simp: min_def)

lemma ok_clamp: "ok_inside e \<Longrightarrow> ok_editor (clamp_slot e)"
  using shown_nonempty[of e] min_last[of "shown e" "ed_slot e"]
  by (simp add: ok_editor_def editor_simps clamp_slot_def shown_def)

lemma wf_layout_update:
  assumes "wf_layout l" "i < length l" "wf_panels t" "wf_name (tab_name t)"
    "\<And>j. j < length l \<Longrightarrow> j \<noteq> i \<Longrightarrow> name_key t \<noteq> name_key (l ! j)"
  shows "wf_layout (l[i := t])"
proof -
  have "distinct (map name_key (l[i := t]))"
    using assms(1,2,5) by (simp add: wf_layout_def map_update distinct_conv_nth nth_list_update) metis
  with assms show ?thesis
    using set_update_subset_insert[of l i t] by (auto simp: wf_layout_def)
qed

lemma name_keys_differ: "wf_layout l \<Longrightarrow> i < length l \<Longrightarrow> j < length l \<Longrightarrow> j \<noteq> i \<Longrightarrow> name_key (l ! i) \<noteq> name_key (l ! j)"
  by (auto simp: wf_layout_def distinct_conv_nth)

lemma ok_arrange:
  assumes "ok_inside e"
  shows "\<exists>e'. arrange op e = Some e' \<and> ok_inside e' \<and> ed_undo e' = ed_undo e
    \<and> ed_rename e' = ed_rename e \<and> ed_picker e' = ed_picker e \<and> ed_confirm_reset e' = ed_confirm_reset e"
proof -
  let ?t = "ed_layout e ! ed_tab e" and ?s = "min (ed_slot e) (length (tab_panels (ed_layout e ! ed_tab e)) - 1)"
  have e: "wf_layout (ed_layout e)" "ed_tab e < length (ed_layout e)" using assms by (auto simp: editor_simps)
  have t: "on_tab ?t ?s" using wf_tab_at[OF e] min_last[of "tab_panels ?t" "ed_slot e"]
    by (simp add: on_tab_def wf_panels_def)
  from run_arrange_ok[OF t, of op] consider why where "run_arrange op ?t ?s = Inl (Refused why)"
    | t' to where "run_arrange op ?t ?s = Inr (t', to)" "arranges op ?t ?s (t', to)"
    by (cases "run_arrange op ?t ?s") (auto simp: holds_def split: fault.splits)
  then show ?thesis
  proof cases
    case 1
    with e assms show ?thesis by (simp add: arrange_def editor_simps)
  next
    case 2
    then have t': "wf_panels t'" "tab_name t' = tab_name ?t" by (auto simp: arranges_def on_tab_def)
    then have "wf_layout ((ed_layout e)[ed_tab e := t'])"
      using e wf_tab_at[OF e] name_keys_differ[OF e] by (intro wf_layout_update) (auto simp: name_key_def)
    with 2 e assms show ?thesis by (simp add: arrange_def editor_simps)
  qed
qed

lemma ok_look:
  assumes "ok_inside e" "ed_slot e < length (shown e)"
  shows "\<exists>s. look by e = Some (e\<lparr>ed_slot := s\<rparr>)"
proof -
  have e: "wf_layout (ed_layout e)" "ed_tab e < length (ed_layout e)" using assms by (auto simp: editor_simps)
  with assms(2) wf_tab_at[OF e] have "on_tab (ed_layout e ! ed_tab e) (ed_slot e)" by (simp add: on_tab_def shown_def)
  from vertical_neighbour_ok[OF this, of "by"] e show ?thesis
    by (cases "vertical_neighbour (ed_layout e ! ed_tab e) (ed_slot e) by")
       (auto simp: look_def holds_def split: fault.splits intro: exI[of _ "ed_slot e"])
qed

lemma ok_go: "ok_inside e \<Longrightarrow> ok_inside (go by e)"
proof -
  assume e: "ok_inside e"
  then have "0 < length (ed_layout e)" by (auto simp: editor_simps)
  then have "(int (ed_tab e) + by) mod int (max (length (ed_layout e)) 1) < int (length (ed_layout e))"
    "0 \<le> (int (ed_tab e) + by) mod int (max (length (ed_layout e)) 1)"
    by (simp_all add: max_def)
  with e show ?thesis by (simp add: go_def editor_simps nat_less_iff)
qed

lemma ok_move_tab:
  assumes "ok_inside e"
  shows "\<exists>e'. move_tab by e = Some e' \<and> ok_inside e' \<and> ed_undo e' = ed_undo e
    \<and> ed_rename e' = ed_rename e \<and> ed_picker e' = ed_picker e \<and> ed_confirm_reset e' = ed_confirm_reset e"
proof (cases "0 \<le> int (ed_tab e) + by \<and> nat (int (ed_tab e) + by) < length (ed_layout e)")
  case True
  let ?i = "ed_tab e" and ?j = "nat (int (ed_tab e) + by)" and ?l = "ed_layout e"
  have e: "wf_layout ?l" "?i < length ?l" using assms by (auto simp: editor_simps)
  have "wf_layout (?l[?i := ?l ! ?j, ?j := ?l ! ?i])"
    using e True distinct_swap[of ?i "map name_key ?l" ?j] by (simp add: wf_layout_def map_update set_swap)
  with True e assms show ?thesis by (simp add: move_tab_def swap_at_def editor_simps Let_def)
qed (use assms in \<open>auto simp: move_tab_def Let_def\<close>)

lemma ok_delete_tab:
  assumes "ok_inside e"
  shows "\<exists>e'. delete_tab e = Some e' \<and> ok_inside e' \<and> ed_undo e' = ed_undo e
    \<and> ed_rename e' = ed_rename e \<and> ed_picker e' = ed_picker e \<and> ed_confirm_reset e' = ed_confirm_reset e"
proof (cases "length (ed_layout e) = 1")
  case False
  let ?l = "ed_layout e" and ?rest = "take (ed_tab e) (ed_layout e) @ drop (Suc (ed_tab e)) (ed_layout e)"
  have e: "wf_layout ?l" "ed_tab e < length ?l" using assms by (auto simp: editor_simps)
  then have rest: "length ?rest = length ?l - 1" "?rest \<noteq> []" using False by (auto simp flip: length_greater_0_conv)
  have "distinct (map name_key ?rest)"
    using e set_take_disj_set_drop_if_distinct[of "map name_key ?l" "ed_tab e" "Suc (ed_tab e)"]
      distinct_take[of "map name_key ?l" "ed_tab e"] distinct_drop[of "map name_key ?l" "Suc (ed_tab e)"]
    by (simp add: wf_layout_def take_map drop_map)
  then have "wf_layout ?rest"
    using e rest by (auto simp: wf_layout_def dest: in_set_takeD in_set_dropD)
  with False e rest assms show ?thesis by (auto simp: delete_tab_def remove_at_def editor_simps)
qed (use assms in \<open>simp add: delete_tab_def editor_simps\<close>)

lemma lower_numbered: "map to_ascii_lower (numbered_name i) = lit ''tab '' @ dec_nat i"
proof -
  have "map to_ascii_lower (dec_nat i) = dec_nat i"
    by (rule map_idI) (use dec_nat_digits in \<open>fastforce simp: to_ascii_lower_def is_ascii_upper_def is_ascii_digit_def\<close>)
  then show ?thesis by (simp add: numbered_name_def lit_def to_ascii_lower_def is_ascii_upper_def)
qed

lemma find_SomeD: "find P xs = Some x \<Longrightarrow> x \<in> set xs \<and> P x"
  by (induction xs) (auto split: if_splits)

lemma fresh_name_free: "\<not> taken (fresh_name l) l \<and> (\<exists>i<length l + 2. fresh_name l = numbered_name i)"
proof -
  let ?names = "map numbered_name [1..<length l + 2]"
  have "\<exists>n\<in>set ?names. \<not> taken n l"
  proof (rule ccontr)
    assume "\<not> ?thesis"
    then have "taken (numbered_name i) l" if "i \<in> {1..<length l + 2}" for i
      using that by (auto simp del: upt_Suc)
    then have "(\<lambda>i. lit ''tab '' @ dec_nat i) ` {1..<length l + 2} \<subseteq> name_key ` set l"
      by (auto simp: taken_iff lower_numbered)
    then have "card ((\<lambda>i. lit ''tab '' @ dec_nat i) ` {1..<length l + 2}) \<le> card (name_key ` set l)"
      by (intro card_mono) auto
    moreover have "card ((\<lambda>i. lit ''tab '' @ dec_nat i) ` {1..<length l + 2}) = length l + 1"
      by (subst card_image) (auto simp: inj_on_def dec_nat_inj)
    moreover have "card (name_key ` set l) \<le> length l"
      by (rule order.trans[OF card_image_le card_length]) simp
    ultimately show False by simp
  qed
  then obtain n where n: "find (\<lambda>n. \<not> taken n l) ?names = Some n"
    by (cases "find (\<lambda>n. \<not> taken n l) ?names") (auto simp: find_None_iff)
  from find_SomeD[OF this] have "n \<in> set ?names" "\<not> taken n l" by auto
  with n show ?thesis by (auto simp: fresh_name_def simp del: upt_Suc)
qed

lemma wf_numbered: "i < 100 \<Longrightarrow> wf_name (numbered_name i)"
proof -
  assume i: "i < 100"
  have "length (dec_nat i) \<le> 2"
  proof (cases "i < 10")
    case False
    with i have "i div 10 < 10" by simp
    with False show ?thesis by (simp add: dec_nat.simps[of i] dec_nat.simps[of "i div 10"])
  qed (simp add: dec_nat.simps[of i])
  moreover have "is_ascii_digit (last (dec_nat i))" by (rule dec_nat_digits[of _ i]) simp
  moreover have digit: "is_ascii_digit c \<Longrightarrow> \<not> is_whitespace c \<and> \<not> is_control c \<and> c \<noteq> 59 \<and> c \<noteq> 61" for c
    by (auto simp: is_ascii_digit_def is_whitespace_def is_control_def)
  moreover have "\<forall>c\<in>set (dec_nat i). \<not> is_control c \<and> c \<noteq> 59 \<and> c \<noteq> 61"
    using dec_nat_digits[of _ i] digit by blast
  ultimately show ?thesis
    by (simp add: wf_name_def numbered_name_def trimmed_def lit_def is_whitespace_def[of 84] is_control_def[of 32]
        is_control_def[of 84] is_control_def[of 97] is_control_def[of 98])
qed

lemma ok_new_tab:
  assumes "ok_inside e"
  shows "ok_inside (new_tab e)"
proof (cases "length (ed_layout e) \<ge> MAX_TABS")
  case False
  let ?l = "ed_layout e"
  from fresh_name_free[of ?l] obtain i where i: "\<not> taken (fresh_name ?l) ?l" "i < length ?l + 2" "fresh_name ?l = numbered_name i"
    by blast
  then have "wf_name (fresh_name ?l)" using False wf_numbered[of i] by simp
  then have "wf_layout (?l @ [\<lparr>tab_name = fresh_name ?l, tab_panels = [p], tab_rows = None\<rparr>])" for p
    using assms False i(1) by (auto simp: wf_layout_def editor_simps wf_panels_def taken_iff name_key_def)
  with assms False show ?thesis by (simp add: new_tab_def editor_simps Let_def)
qed (use assms in \<open>simp add: new_tab_def editor_simps\<close>)

lemma wf_name_trim: "ok_typing name \<Longrightarrow> trim name \<noteq> [] \<Longrightarrow> wf_name (trim name)"
  using set_trim[of name] length_trim_le[of name] by (auto simp: ok_typing_def wf_name_def trimmed_trim)

lemma ok_rename_tab:
  assumes "ok_inside e" "wf_name new" "\<not> name_taken e new"
  shows "ok_inside (rename_tab e new)"
proof -
  have e: "wf_layout (ed_layout e)" "ed_tab e < length (ed_layout e)" using assms by (auto simp: editor_simps)
  let ?t = "(ed_layout e ! ed_tab e)\<lparr>tab_name := new\<rparr>"
  have "wf_panels ?t" using wf_tab_at[OF e] by (simp add: wf_panels_def split: option.splits)
  moreover have "name_key ?t \<noteq> name_key (ed_layout e ! j)" if "j < length (ed_layout e)" "j \<noteq> ed_tab e" for j
    using assms(3) that by (auto simp: name_taken_def list_ex_iff eq_ignore_ascii_case_def name_key_def)
  ultimately have "wf_layout ((ed_layout e)[ed_tab e := ?t])"
    using e assms(2) by (intro wf_layout_update) auto
  with assms e show ?thesis by (simp add: rename_tab_def editor_simps)
qed

lemma ok_rename_key:
  assumes "ok_inside e"
  shows "ok_inside (rename_key code e)"
proof (cases "ed_rename e")
  case (Some name)
  with assms have name: "ok_typing name" by (simp add: editor_simps)
  then have less: "ok_typing (butlast name)" by (auto simp: ok_typing_def dest: in_set_butlastD)
  have more: "ok_typing (name @ [c])" if "\<not> is_control c" "c \<notin> {59, 61, 44, 124}" "length name < MAX_NAME" for c
    using name that by (auto simp: ok_typing_def)
  have renamed: "ok_inside ((rename_tab e (trim name))\<lparr>ed_rename := None, ed_message := None\<rparr>)"
    if "trim name \<noteq> []" "\<not> name_taken e (trim name)"
    using ok_rename_tab[OF assms wf_name_trim[OF name that(1)] that(2)] by (simp add: editor_simps)
  show ?thesis
    using assms less more renamed Some by (cases code) (auto simp: rename_key_def Let_def editor_simps)
qed (use assms in \<open>simp add: rename_key_def\<close>)

section \<open>Every key\<close>

definition idle :: "editor \<Rightarrow> bool" where
  "idle e \<longleftrightarrow> ed_rename e = None \<and> ed_picker e = None \<and> \<not> ed_confirm_reset e"

text \<open>What one key does before the history is written: only an idle editor has changed the layout.\<close>

definition stepped :: "editor \<Rightarrow> editor \<Rightarrow> bool" where
  "stepped e e' \<longleftrightarrow> ok_inside e' \<and> ed_undo e' = ed_undo e \<and> (ed_layout e' \<noteq> ed_layout e \<longrightarrow> idle e')"

definition answers :: "(editor \<times> outcome) option \<Rightarrow> editor \<Rightarrow> bool" where
  "answers m e \<longleftrightarrow> (\<exists>e' out. m = Some (e', out) \<and> stepped e e')"

lemma answers_if: "(P \<Longrightarrow> answers a e) \<Longrightarrow> (\<not> P \<Longrightarrow> answers b e) \<Longrightarrow> answers (if P then a else b) e"
  by simp

lemma answers_Some: "stepped e e' \<Longrightarrow> answers (Some (e', out)) e"
  by (auto simp: answers_def)

lemma answers_stay: "m = Some e' \<Longrightarrow> stepped e e' \<Longrightarrow> answers (map_option (\<lambda>e'. (e', Stay)) m) e"
  by (simp add: answers_Some)

lemma answers_arrange: "ok_inside e \<Longrightarrow> idle e \<Longrightarrow> answers (map_option (\<lambda>e'. (e', Stay)) (arrange op e)) e"
  using ok_arrange[of e op] by (auto intro!: answers_Some simp: stepped_def idle_def)

lemma answers_move_tab: "ok_inside e \<Longrightarrow> idle e \<Longrightarrow> answers (map_option (\<lambda>e'. (e', Stay)) (move_tab by e)) e"
  using ok_move_tab[of e "by"] by (auto intro!: answers_Some simp: stepped_def idle_def)

lemma answers_delete_tab: "ok_inside e \<Longrightarrow> idle e \<Longrightarrow> answers (map_option (\<lambda>e'. (e', Stay)) (delete_tab e)) e"
  using ok_delete_tab[of e] by (auto intro!: answers_Some simp: stepped_def idle_def)

lemma answers_look: "ok_editor e \<Longrightarrow> answers (map_option (\<lambda>e'. (e', Stay)) (look by e)) e"
  using ok_look[of e "by"] by (auto intro!: answers_Some simp: stepped_def editor_simps ok_editor_def)

lemma answers_plain_key:
  assumes "ok_editor e" "idle e"
  shows "answers (plain_key code e) e"
proof -
  have e: "ok_inside e" using assms by (simp add: ok_editor_def)
  have name: "ok_typing (tab_name (ed_layout e ! ed_tab e))" if "ed_tab e < length (ed_layout e)"
    using e wf_tab_at[OF _ that] by (simp add: editor_simps wf_name_def ok_typing_def)
  have go: "stepped e (go by e)" for "by"
    using ok_go[OF e] by (simp add: stepped_def go_def)
  have new: "stepped e (new_tab e)"
    using ok_new_tab[OF e] assms(2) by (simp add: stepped_def new_tab_def idle_def tell_def Let_def)
  have slot: "stepped e (e\<lparr>ed_slot := s\<rparr>)" for s using e by (simp add: stepped_def editor_simps)
  have picker: "stepped e (open_picker e)"
    using e assms(2) by (simp add: stepped_def editor_simps open_picker_def idle_def)
  have rename: "stepped e (e\<lparr>ed_rename := if ed_tab e < length (ed_layout e)
      then Some (tab_name (ed_layout e ! ed_tab e)) else None\<rparr>)"
    using e assms(2) name by (simp add: stepped_def editor_simps idle_def)
  have confirm: "stepped e (e\<lparr>ed_confirm_reset := True\<rparr>)"
    using e assms(2) by (simp add: stepped_def editor_simps idle_def)
  have same: "stepped e e" using e by (simp add: stepped_def)
  show ?thesis
    unfolding plain_key_def Let_def option.map
    by (intro answers_if answers_arrange answers_move_tab answers_delete_tab answers_look answers_Some
        assms e go new slot picker rename confirm same)
qed

lemma answers_picker_key:
  assumes "ok_inside e" "ed_rename e = None" "\<not> ed_confirm_reset e"
  shows "answers (map_option (\<lambda>e'. (e', Stay)) (picker_key code e)) e"
proof -
  let ?e = "e\<lparr>ed_picker := None\<rparr>"
  have "ok_inside ?e" using assms by (simp add: editor_simps)
  then have "answers (map_option (\<lambda>e'. (e', Stay)) (arrange op ?e)) e" for op
    using ok_arrange[of ?e op] assms by (auto intro!: answers_Some simp: stepped_def idle_def)
  then show ?thesis
    using assms by (auto simp: picker_key_def Let_def stepped_def editor_simps intro!: answers_Some)
qed

lemma answers_dispatch:
  assumes "ok_editor e"
  shows "answers (dispatch code e) e"
proof -
  have e: "ok_inside e" using assms by (simp add: ok_editor_def)
  show ?thesis
  proof (cases "ed_rename e")
    case (Some name)
    then have "ed_picker e = None" "\<not> ed_confirm_reset e" using e by (auto simp: editor_simps)
    with Some have "ed_undo (rename_key code e) = ed_undo e"
      "ed_layout (rename_key code e) \<noteq> ed_layout e \<longrightarrow> idle (rename_key code e)"
      by (cases code; simp add: rename_key_def rename_tab_def tell_def Let_def idle_def)+
    with ok_rename_key[OF e] Some show ?thesis by (simp add: dispatch_def stepped_def answers_Some)
  next
    case None
    let ?plain = "e\<lparr>ed_message := None\<rparr>"
    have "stepped e x = stepped ?plain x" for x by (simp add: stepped_def)
    moreover have "shown ?plain = shown e" by (simp add: shown_def)
    then have "ok_editor ?plain" using assms by (simp add: ok_editor_def editor_simps)
    ultimately have "idle e \<Longrightarrow> answers (plain_key code ?plain) e"
      using answers_plain_key[of ?plain code] by (simp add: answers_def idle_def)
    moreover have "stepped e (e\<lparr>ed_confirm_reset := False\<rparr>)"
      using e by (auto simp: stepped_def editor_simps)
    ultimately show ?thesis
      using None e answers_picker_key[OF e None]
      by (auto simp: dispatch_def idle_def intro: answers_Some)
  qed
qed

lemma ok_undo: "ok_inside e \<Longrightarrow> ok_inside (undo e)"
proof (cases "ed_undo e = []")
  case False
  assume e: "ok_inside e"
  obtain l i where l: "last (ed_undo e) = (l, i)" by (cases "last (ed_undo e)")
  from e have "list_all ok_place (butlast (ed_undo e) @ [last (ed_undo e)])"
    using False by (simp add: ok_inside_def)
  then have "list_all ok_place (butlast (ed_undo e))" "ok_place (l, i)" by (simp_all add: l)
  with False e l show ?thesis by (auto simp: undo_def editor_simps)
qed (simp add: undo_def editor_simps)

lemma ok_remember:
  assumes "ok_inside e" "stepped e e'"
  shows "ok_inside (remember (ed_layout e) (ed_tab e) e')"
proof -
  have "list_all ok_place (tl (ed_undo e))" using assms(1) by (cases "ed_undo e") (auto simp: ok_inside_def)
  with assms show ?thesis by (auto simp: remember_def stepped_def editor_simps)
qed

lemma press_ok: "ok_editor e \<Longrightarrow> \<exists>e' out. press code e = Some (e', out) \<and> ok_editor e'"
proof (cases "is_undo code e")
  case True
  assume "ok_editor e"
  then have "ok_inside (e\<lparr>ed_message := None\<rparr>)" by (simp add: ok_editor_def editor_simps)
  with True show ?thesis by (auto simp: press_def intro: ok_clamp ok_undo)
next
  case False
  assume e: "ok_editor e"
  from answers_dispatch[OF e, of code] obtain e' out where d: "dispatch code e = Some (e', out)" "stepped e e'"
    by (auto simp: answers_def)
  with e False show ?thesis
    by (auto simp: press_def ok_editor_def[of e] intro: ok_clamp ok_remember)
qed

lemma press_all_ok: "ok_editor e \<Longrightarrow> \<exists>e'. press_all ks e = Some e' \<and> ok_editor e'"
proof (induction ks arbitrary: e)
  case (Cons k ks)
  from press_ok[OF Cons.prems, of k] obtain e' out where "press k e = Some (e', out)" "ok_editor e'" by blast
  with Cons.IH[of e'] show ?case by simp
qed simp

lemma ok_new_editor: "wf_layout l \<Longrightarrow> ok_editor (new_editor l i)"
proof -
  assume l: "wf_layout l"
  then have "l \<noteq> []" by (simp add: wf_layout_def)
  with l have "ok_inside (new_editor l i)" using min_last[of l i] by (simp add: editor_simps new_editor_def)
  with shown_nonempty[OF this] show ?thesis by (simp add: ok_editor_def new_editor_def)
qed

section \<open>Properties\<close>

text \<open>
  C20. Open the editor on a well-formed layout and press any keys in any order: the code never
  panics, the cursor is always on a panel of the tab being edited, and the layout it would
  store is well formed and reads back as itself, up to the mark of a single row.
\<close>

theorem editor_never_breaks_the_layout:
  assumes "wf_layout l"
  shows "\<exists>e. press_all ks (new_editor l i) = Some e \<and> wf_layout (ed_layout e)
    \<and> ed_tab e < length (ed_layout e) \<and> ed_slot e < length (tab_panels (ed_layout e ! ed_tab e))
    \<and> parse_layout (to_text (ed_layout e)) = Inr (map reread (ed_layout e))"
proof -
  from press_all_ok[OF ok_new_editor[OF assms]] obtain e where
    e: "press_all ks (new_editor l i) = Some e" "ok_editor e" by blast
  then have "wf_layout (ed_layout e)" "ed_tab e < length (ed_layout e)" "ed_slot e < length (shown e)"
    by (auto simp: ok_editor_def editor_simps)
  with e(1) parse_to_text[of "ed_layout e"] show ?thesis by (auto simp: shown_def)
qed

theorem editor_never_breaks_the_layout_witness:
  "\<exists>e. press_all [KChar 102, KChar 100, KChar 120, KChar 117] (new_editor default_layout 0) = Some e
     \<and> wf_layout (ed_layout e)"
  using editor_never_breaks_the_layout[OF wf_default, of "[KChar 102, KChar 100, KChar 120, KChar 117]" 0] by blast

text \<open>
  The abstract machine: the current layout and the ones undo goes back to, newest first. It
  stays, or it takes a new layout and forgets the oldest past twenty, or it goes back by one.
\<close>

inductive history_step :: "layout list \<Rightarrow> layout list \<Rightarrow> bool" where
  stays: "history_step h h"
| edits: "wf_layout l \<Longrightarrow> l \<noteq> hd h \<Longrightarrow> history_step h (take (UNDO_DEPTH + 1) (l # h))"
| takes_back: "history_step (l # l' # h) (l' # h)"

definition history_of :: "editor \<Rightarrow> layout list" where
  "history_of e = ed_layout e # rev (map fst (ed_undo e))"

lemma history_of_clamp [simp]: "history_of (clamp_slot e) = history_of e"
  by (simp add: history_of_def clamp_slot_def)

lemma history_of_undo:
  "history_of (undo e) = (if ed_undo e = [] then history_of e else tl (history_of e))"
  by (cases "ed_undo e" rule: rev_cases) (auto simp: history_of_def undo_def tell_def split: prod.split)

lemma take_rev_tl: "length xs = Suc n \<Longrightarrow> take n (rev xs) = rev (tl xs)"
  by (cases xs) auto

lemma history_of_remember:
  assumes "ed_undo e' = ed_undo e" "length (ed_undo e) \<le> UNDO_DEPTH"
  shows "history_of (remember (ed_layout e) i e')
    = (if ed_layout e' = ed_layout e then history_of e' else take (UNDO_DEPTH + 1) (ed_layout e' # history_of e))"
proof -
  have "take 19 (rev (map fst (ed_undo e))) = rev (map fst (tl (ed_undo e)))" if "length (ed_undo e) = 20"
    using take_rev_tl[of "map fst (ed_undo e)" 19] that by (simp add: map_tl)
  with assms show ?thesis
    by (auto simp: history_of_def remember_def take_Cons' take_all)
qed

lemma press_cases:
  assumes "ok_editor e" "press code e = Some (e', out)"
  obtains (undone) "is_undo code e" "e' = clamp_slot (undo (e\<lparr>ed_message := None\<rparr>))"
  | (stepped) d where "\<not> is_undo code e" "stepped e d" "e' = clamp_slot (remember (ed_layout e) (ed_tab e) d)"
  using assms answers_dispatch[OF assms(1), of code] that
  by (auto simp: press_def answers_def split: if_splits)

text \<open>
  C24. Every key refines a step of the abstract history, and the undo key is exactly its step
  back: nothing else is ever forgotten, reordered or brought back.
\<close>

theorem editor_refines_history:
  assumes "ok_editor e" "press code e = Some (e', out)"
  shows "history_step (history_of e) (history_of e')
    \<and> (is_undo code e \<longrightarrow> history_of e' = (if tl (history_of e) = [] then history_of e else tl (history_of e)))"
  using assms
proof (cases rule: press_cases)
  case undone
  have "history_of e' = (if ed_undo e = [] then history_of e else tl (history_of e))"
    unfolding undone by (simp add: history_of_undo) (simp add: history_of_def)
  then show ?thesis
    by (cases "ed_undo e" rule: rev_cases) (auto simp: history_of_def intro: history_step.intros)
next
  case (stepped d)
  then have d: "ed_undo d = ed_undo e" "ok_inside d" by (auto simp: stepped_def)
  from assms(1) have "length (ed_undo e) \<le> UNDO_DEPTH" by (simp add: ok_editor_def editor_simps)
  from history_of_remember[OF d(1) this] stepped(3) have
    h: "history_of e' = (if ed_layout d = ed_layout e then history_of d else take (UNDO_DEPTH + 1) (ed_layout d # history_of e))"
    by simp
  show ?thesis
  proof (cases "ed_layout d = ed_layout e")
    case True
    with d h have "history_of e' = history_of e" by (simp add: history_of_def)
    with stepped(1) show ?thesis by (simp add: history_step.stays)
  next
    case False
    with d(2) have "history_step (history_of e) (take (UNDO_DEPTH + 1) (ed_layout d # history_of e))"
      by (intro history_step.edits) (auto simp: history_of_def editor_simps)
    with False h stepped(1) show ?thesis by simp
  qed
qed

text \<open>
  Whatever key changed the layout, pressing undo right after it brings back exactly the
  layout before and the tab that was being edited.
\<close>

theorem undo_takes_back:
  assumes "ok_editor e" "\<not> is_undo code e" "press code e = Some (e', out)" "ed_layout e' \<noteq> ed_layout e"
  shows "\<exists>e''. press (KChar 117) e' = Some (e'', Stay) \<and> ed_layout e'' = ed_layout e \<and> ed_tab e'' = ed_tab e"
  using assms(1,3)
proof (cases rule: press_cases)
  case (stepped d)
  have "ed_layout e' = ed_layout d" by (simp add: stepped clamp_slot_def remember_def)
  with assms(4) stepped(2) have d: "ed_layout d \<noteq> ed_layout e" "idle d" by (auto simp: stepped_def)
  then have last: "ed_undo e' \<noteq> []" "last (ed_undo e') = (ed_layout e, ed_tab e)"
    by (simp_all add: stepped clamp_slot_def remember_def)
  have "is_undo (KChar 117) e'"
    using d(2) by (simp add: stepped is_undo_def idle_def clamp_slot_def remember_def)
  moreover have "ed_tab e < length (ed_layout e)" using assms(1) by (simp add: ok_editor_def editor_simps)
  ultimately show ?thesis using last by (auto simp: press_def undo_def clamp_slot_def)
qed (use assms(2) in simp)

definition sample_editor :: editor where
  "sample_editor = new_editor default_layout 0"

lemma sample_press:
  "press (KChar 120) sample_editor = Some (new_editor (tl default_layout) 0\<lparr>ed_undo := [(default_layout, 0)]\<rparr>, Stay)"
  by (simp add: sample_editor_def press_def is_undo_def new_editor_def dispatch_def plain_key_def delete_tab_def
      remove_at_def remember_def clamp_slot_def shown_def default_layout_def)

lemma ok_sample: "ok_editor sample_editor"
  unfolding sample_editor_def by (rule ok_new_editor[OF wf_default])

theorem editor_refines_history_witness:
  "history_step [default_layout] [tl default_layout, default_layout]"
  using conjunct1[OF editor_refines_history[OF ok_sample sample_press]]
  by (simp add: sample_editor_def history_of_def new_editor_def)

theorem undo_takes_back_witness:
  "\<exists>e. press (KChar 117) (new_editor (tl default_layout) 0\<lparr>ed_undo := [(default_layout, 0)]\<rparr>) = Some (e, Stay)
     \<and> ed_layout e = default_layout"
proof -
  have "\<not> is_undo (KChar 120) sample_editor" by (simp add: is_undo_def)
  moreover have "ed_layout (new_editor (tl default_layout) 0\<lparr>ed_undo := [(default_layout, 0)]\<rparr>) \<noteq> ed_layout sample_editor"
    by (simp add: sample_editor_def new_editor_def default_layout_def)
  ultimately obtain e where "press (KChar 117) (new_editor (tl default_layout) 0\<lparr>ed_undo := [(default_layout, 0)]\<rparr>) = Some (e, Stay)"
    "ed_layout e = ed_layout sample_editor"
    using undo_takes_back[OF ok_sample _ sample_press] by blast
  then show ?thesis by (simp add: sample_editor_def new_editor_def)
qed

end
