(* ===== verification/Shell_Words.thy ===== *)
theory Shell_Words
  imports Prelude
begin

text \<open>
  The parts of \<^verbatim>\<open>crates/cli/src/common/shell.rs\<close> that work on words already read: which word
  names the program, options and redirections, quoting a text as a word, edits of character
  ranges and backslash escapes. \<open>lc\<close> is the Unicode lower case of the standard library, whose
  tables are a parameter.
\<close>

section \<open>Programs\<close>

definition SHELL_KEYWORDS :: "str list" where
  "SHELL_KEYWORDS = map lit [''if'', ''then'', ''else'', ''elif'', ''while'', ''until'', ''do'', ''!'', ''{'', ''}'']"

definition WRAPPERS :: "str list" where
  "WRAPPERS = map lit [''env'', ''command'', ''exec'', ''time'', ''nice'', ''timeout'', ''sudo'']"

definition RUNNERS :: "(str \<times> str list) list" where
  "RUNNERS = map (\<lambda>(n, os). (lit n, map lit os))
     [(''nohup'', []), (''xargs'', [''-I'', ''-L'', ''-n'', ''-P'', ''-d'', ''-E'', ''-s'', ''-a'']), (''setsid'', []),
      (''stdbuf'', [''-i'', ''-o'', ''-e'']), (''watch'', [''-n'', ''-d'']), (''parallel'', [''-j'', ''-S'']),
      (''ionice'', [''-c'', ''-n'', ''-p'', ''-P'', ''-u'']), (''caffeinate'', [''-t'', ''-w'']), (''unbuffer'', []),
      (''doas'', [''-u'', ''-C'']), (''chronic'', []), (''busybox'', [])]"

definition runner_value_options :: "str \<Rightarrow> str list option" where
  "runner_value_options program = map_option snd (find (\<lambda>(n, _). n = program) RUNNERS)"

definition is_dash_word :: "str \<Rightarrow> bool" where
  "is_dash_word w \<longleftrightarrow> utf8_len w > 1 \<and> w \<noteq> [] \<and> hd w = 45"

definition is_assignment :: "str \<Rightarrow> bool" where
  "is_assignment w \<longleftrightarrow> (case split_once 61 w of None \<Rightarrow> False
     | Some (name, _) \<Rightarrow> name \<noteq> [] \<and> list_all (\<lambda>c. is_ascii_alnum c \<or> c = 95) name)"

text \<open>The loop both option readers share: \<open>skips\<close> is what the caller skips besides options.\<close>

function skip_from :: "str list \<Rightarrow> str list \<Rightarrow> (str \<Rightarrow> bool) \<Rightarrow> nat \<Rightarrow> nat" where
  "skip_from ws takes_value skips i =
     (if \<not> i < length ws then i
      else let w = ws ! i in
        if w \<in> set takes_value then skip_from ws takes_value skips (i + 2)
        else if w = lit ''--'' then i + 1
        else if is_dash_word w \<or> skips w then skip_from ws takes_value skips (i + 1)
        else i)"
  by pat_completeness auto
termination by (relation "measure (\<lambda>(ws, _, _, i). length ws - i)") auto

declare skip_from.simps [simp del]

definition skip_options :: "str list \<Rightarrow> nat \<Rightarrow> str list \<Rightarrow> nat" where
  "skip_options ws from takes_value = min (skip_from ws takes_value (\<lambda>_. False) from) (length ws)"

text \<open>The index of the first element that satisfies the predicate.\<close>

fun first_index :: "('a \<Rightarrow> bool) \<Rightarrow> 'a list \<Rightarrow> nat option" where
  "first_index P [] = None"
| "first_index P (x # xs) = (if P x then Some 0 else map_option Suc (first_index P xs))"

definition is_script_option :: "str \<Rightarrow> bool" where
  "is_script_option w \<longleftrightarrow> starts_with w (lit ''-'') \<and> \<not> starts_with w (lit ''--'') \<and> 99 \<in> set w"

definition shell_script_at :: "str list \<Rightarrow> nat option" where
  "shell_script_at args = Option.bind (first_index is_script_option args)
     (\<lambda>i. if i + 1 < length args then Some (i + 1) else None)"

definition redirect_len :: "str \<Rightarrow> nat" where
  "redirect_len w = (let operator = dropWhile is_ascii_digit w in
     if operator = [] \<or> hd operator \<notin> {60, 62} then 0
     else if list_all (\<lambda>c. c \<in> {60, 62}) operator then 2 else 1)"

text \<open>\<^verbatim>\<open>Path::file_name\<close>: the last component when it is a name, on a path with \<^verbatim>\<open>/\<close> separators.\<close>

definition path_components :: "str \<Rightarrow> str list" where
  "path_components w = (case filter (\<lambda>p. p \<noteq> []) (split_on 47 w) of
     [] \<Rightarrow> []
   | p # ps \<Rightarrow> (if p = lit ''.'' \<and> \<not> starts_with w (lit ''/'') then [p] else filter (\<lambda>q. q \<noteq> lit ''.'') [p])
               @ filter (\<lambda>q. q \<noteq> lit ''.'') ps)"

definition file_name :: "str \<Rightarrow> str option" where
  "file_name w = (let cs = path_components w in
     if cs = [] \<or> last cs \<in> {lit ''.'', lit ''..''} then None else Some (last cs))"

definition program_name :: "(str \<Rightarrow> str) \<Rightarrow> str \<Rightarrow> str" where
  "program_name lc w = (case file_name w of None \<Rightarrow> [] | Some name \<Rightarrow> lc name)"

definition wrapper_value_options :: "str \<Rightarrow> str list" where
  "wrapper_value_options wrapper = map lit
     (if wrapper = lit ''env'' then [''-u'', ''-C'', ''--unset'', ''--chdir'']
      else if wrapper = lit ''exec'' then [''-a'']
      else if wrapper = lit ''nice'' then [''-n'', ''--adjustment'']
      else if wrapper = lit ''timeout'' then [''-s'', ''-k'', ''--signal'', ''--kill-after'']
      else if wrapper = lit ''sudo'' then [''-u'', ''-g'', ''-h'', ''-p'', ''-C'', ''-D'', ''-R'', ''-T'', ''-r'', ''-t'', ''-U'']
      else [])"

definition after_wrapper :: "(str \<Rightarrow> str) \<Rightarrow> str list \<Rightarrow> nat \<Rightarrow> nat" where
  "after_wrapper lc ws i =
     (let wrapper = program_name lc (ws ! i);
          n = skip_from ws (wrapper_value_options wrapper) (\<lambda>w. wrapper = lit ''env'' \<and> is_assignment w) (i + 1)
      in min (if wrapper = lit ''timeout'' then n + 1 else n) (length ws))"

lemma skip_from_ge: "i \<le> skip_from ws tv sk i"
  by (induction ws tv sk i rule: skip_from.induct) (subst skip_from.simps, auto simp: Let_def)

lemma after_wrapper_forward: "i < length ws \<Longrightarrow> i < after_wrapper lc ws i \<and> after_wrapper lc ws i \<le> length ws"
proof -
  assume "i < length ws"
  then show ?thesis
    using skip_from_ge[of "i + 1" ws "wrapper_value_options (program_name lc (ws ! i))"
        "\<lambda>w. program_name lc (ws ! i) = lit ''env'' \<and> is_assignment w"]
    by (auto simp: after_wrapper_def Let_def)
qed

function program_from :: "(str \<Rightarrow> str) \<Rightarrow> str list \<Rightarrow> nat \<Rightarrow> nat option" where
  "program_from lc ws i =
     (if \<not> i < length ws then None
      else let w = ws ! i in
        if redirect_len w > 0 then program_from lc ws (i + redirect_len w)
        else if is_assignment w \<or> w \<in> set SHELL_KEYWORDS then program_from lc ws (i + 1)
        else if program_name lc w \<in> set WRAPPERS then program_from lc ws (after_wrapper lc ws i)
        else Some i)"
  by pat_completeness auto
termination
  by (relation "measure (\<lambda>(_, ws, i). length ws - i)") (auto dest: after_wrapper_forward intro: diff_less_mono2)

declare program_from.simps [simp del]

definition program_index :: "(str \<Rightarrow> str) \<Rightarrow> str list \<Rightarrow> nat option" where
  "program_index lc ws = program_from lc ws 0"

lemma program_from_Some:
  "program_from lc ws i = Some j \<Longrightarrow> i \<le> j \<and> j < length ws \<and> redirect_len (ws ! j) = 0
     \<and> \<not> is_assignment (ws ! j) \<and> ws ! j \<notin> set SHELL_KEYWORDS \<and> program_name lc (ws ! j) \<notin> set WRAPPERS"
proof (induction lc ws i rule: program_from.induct)
  case (1 lc ws i)
  from "1.prems" have len: "i < length ws" by (subst (asm) program_from.simps) (auto split: if_splits)
  let ?w = "ws ! i"
  consider "redirect_len ?w > 0" | "redirect_len ?w = 0" "is_assignment ?w \<or> ?w \<in> set SHELL_KEYWORDS"
    | "redirect_len ?w = 0" "\<not> (is_assignment ?w \<or> ?w \<in> set SHELL_KEYWORDS)" "program_name lc ?w \<in> set WRAPPERS"
    | "redirect_len ?w = 0" "\<not> (is_assignment ?w \<or> ?w \<in> set SHELL_KEYWORDS)" "program_name lc ?w \<notin> set WRAPPERS"
    by linarith
  then show ?case
  proof cases
    case a: 1
    with "1.prems" len have "program_from lc ws (i + redirect_len ?w) = Some j"
      by (subst (asm) program_from.simps) simp
    with "1.IH"(1) len a show ?thesis by auto
  next
    case a: 2
    with "1.prems" len have "program_from lc ws (i + 1) = Some j"
      by (subst (asm) program_from.simps) simp
    with "1.IH"(2) len a show ?thesis by auto
  next
    case a: 3
    with "1.prems" len have "program_from lc ws (after_wrapper lc ws i) = Some j"
      by (subst (asm) program_from.simps) simp
    with "1.IH"(3) len a after_wrapper_forward[OF len, of lc] show ?thesis by auto
  next
    case a: 4
    with "1.prems" len have "j = i" by (subst (asm) program_from.simps) simp
    with a len show ?thesis by simp
  qed
qed

section \<open>Quoting\<close>

definition quote :: "str \<Rightarrow> str" where
  "quote t = [39] @ concat (map (\<lambda>c. if c = 39 then [39, 92, 39, 39] else [c]) t) @ [39]"

definition is_plain_char :: "rchar \<Rightarrow> bool" where
  "is_plain_char c \<longleftrightarrow> is_ascii_alnum c \<or> c \<in> set (lit ''/._-:@%+='')"

definition quoted_word :: "str \<Rightarrow> str" where
  "quoted_word t = (if list_all is_plain_char t \<and> t \<noteq> [] then t else quote t)"

section \<open>Edits\<close>

fun apply_each :: "str \<Rightarrow> nat \<Rightarrow> str \<Rightarrow> ((nat \<times> nat) \<times> str) list \<Rightarrow> str" where
  "apply_each chars i out [] = out @ drop i chars"
| "apply_each chars i out (((a, b), r) # edits) =
     (if a < i \<or> a > b \<or> b > length chars then apply_each chars i out edits
      else apply_each chars b (out @ take (a - i) (drop i chars) @ r) edits)"

definition apply_edits :: "str \<Rightarrow> ((nat \<times> nat) \<times> str) list \<Rightarrow> str" where
  "apply_edits t edits = apply_each t 0 [] (sort_key (\<lambda>((a, _), _). a) edits)"

section \<open>Escapes\<close>

definition simple_escape :: "rchar \<Rightarrow> rchar option" where
  "simple_escape e =
     (if e = 97 then Some 7 else if e = 98 then Some 8 else if e = 101 \<or> e = 69 then Some 27
      else if e = 102 then Some 12 else if e = 110 then Some 10 else if e = 114 then Some 13
      else if e = 116 then Some 9 else if e = 118 then Some 11
      else if e \<in> {92, 39, 34, 63} then Some e else None)"

definition digit_of :: "nat \<Rightarrow> rchar \<Rightarrow> nat option" where
  "digit_of radix c =
     (let d = (if is_ascii_digit c then Some (c - 48)
               else if is_ascii_lower c then Some (c - 87)
               else if is_ascii_upper c then Some (c - 55) else None)
      in case d of Some n \<Rightarrow> if n < radix then Some n else None | None \<Rightarrow> None)"

definition number_of :: "nat \<Rightarrow> str \<Rightarrow> nat" where
  "number_of radix ds = foldl (\<lambda>n c. n * radix + (case digit_of radix c of Some d \<Rightarrow> d | None \<Rightarrow> 0)) 0 ds"

text \<open>\<^verbatim>\<open>u32::from_str_radix\<close> on at most eight digits, then \<^verbatim>\<open>char::from_u32\<close>.\<close>

definition char_of_digits :: "nat \<Rightarrow> str \<Rightarrow> rchar option" where
  "char_of_digits radix ds =
     (let n = number_of radix ds in
      if ds = [] \<or> (55296 \<le> n \<and> n \<le> 57343) \<or> n > 1114111 then None else Some n)"

text \<open>The radix, the most digits, and whether the escape itself is the first digit.\<close>

definition numeric_escape :: "rchar \<Rightarrow> (nat \<times> nat \<times> bool) option" where
  "numeric_escape e =
     (if e = 120 then Some (16, 2, False) else if e = 117 then Some (16, 4, False)
      else if e = 85 then Some (16, 8, False) else if 48 \<le> e \<and> e \<le> 55 then Some (8, 3, True) else None)"

function unescape :: "str \<Rightarrow> str" where
  "unescape [] = []"
| "unescape [c] = [c]"
| "unescape (c # e # rest) =
     (if c \<noteq> 92 then c # unescape (e # rest)
      else case simple_escape e of
        Some x \<Rightarrow> x # unescape rest
      | None \<Rightarrow>
          (case numeric_escape e of
             None \<Rightarrow> 92 # e # unescape rest
           | Some (radix, most, itself) \<Rightarrow>
               let from = (if itself then e # rest else rest);
                   ds = takeWhile (\<lambda>d. digit_of radix d \<noteq> None) (take most from)
               in case char_of_digits radix ds of
                    Some x \<Rightarrow> x # unescape (drop (length ds) from)
                  | None \<Rightarrow> 92 # e # unescape from))"
  by pat_completeness auto
termination by (relation "measure length") auto

lemma unescape_plain: "92 \<notin> set s \<Longrightarrow> unescape s = s"
  by (induction s rule: unescape.induct) auto

end
