(* ===== verification/Shell_Scan.thy ===== *)
theory Shell_Scan
  imports Shell_Words
begin

text \<open>
  The scans of \<^verbatim>\<open>Lexer\<close> in \<^verbatim>\<open>crates/cli/src/common/shell.rs\<close>: the methods that only move its
  position over the characters of the line, as functions of the characters \<open>cs\<close> and a position
  \<open>a\<close> that return what they read and the new position. Each stays within the text; the one that
  reads a \<^verbatim>\<open>$( ... )\<close> copies exactly the characters it passes (\<open>copies\<close>), which is also why its
  mutual recursion ends.
\<close>

section \<open>Scans\<close>

definition peek :: "str \<Rightarrow> nat \<Rightarrow> rchar option" where
  "peek cs a = (if a < length cs then Some (cs ! a) else None)"

definition looking_at :: "str \<Rightarrow> nat \<Rightarrow> str \<Rightarrow> bool" where
  "looking_at cs a t \<longleftrightarrow> starts_with (drop a cs) t"

definition trim_end_matches :: "(rchar \<Rightarrow> bool) \<Rightarrow> str \<Rightarrow> str" where
  "trim_end_matches P s = rev (dropWhile P (rev s))"

text \<open>The text up to the closing quote, and the position after that quote.\<close>

definition single_quoted :: "str \<Rightarrow> nat \<Rightarrow> str \<times> nat" where
  "single_quoted cs a = (let t = takeWhile (\<lambda>c. c \<noteq> 39) (drop a cs) in (t, min (a + length t + 1) (length cs)))"

definition skip_comment :: "str \<Rightarrow> nat \<Rightarrow> nat" where
  "skip_comment cs a = a + length (takeWhile (\<lambda>c. c \<noteq> 10) (drop a cs))"

definition skip_blanks :: "str \<Rightarrow> nat \<Rightarrow> nat" where
  "skip_blanks cs a = a + length (takeWhile (\<lambda>c. c = 32 \<or> c = 9) (drop a cs))"

definition is_word_end :: "rchar \<Rightarrow> bool" where
  "is_word_end c \<longleftrightarrow> is_whitespace c \<or> c \<in> set (lit '';&|()<>'')"

text \<open>The delimiter of a heredoc, whether it was quoted, and the position after it.\<close>

function delimiter_from :: "str \<Rightarrow> nat \<Rightarrow> rchar option \<Rightarrow> bool \<Rightarrow> str \<Rightarrow> (str \<times> bool) \<times> nat" where
  "delimiter_from cs a q quoted d =
     (if \<not> a < length cs then ((d, quoted), a)
      else let c = cs ! a in
        if q = None \<and> (c = 39 \<or> c = 34) then delimiter_from cs (a + 1) (Some c) True d
        else if q = Some c then delimiter_from cs (a + 1) None quoted d
        else if q = None \<and> c = 92 then delimiter_from cs (a + 1) None True d
        else if q = None \<and> is_word_end c then ((d, quoted), a)
        else delimiter_from cs (a + 1) q quoted (d @ [c]))"
  by pat_completeness auto
termination by (relation "measure (\<lambda>(cs, a, _). length cs - a)") auto

declare delimiter_from.simps [simp del]

definition delimiter :: "str \<Rightarrow> nat \<Rightarrow> (str \<times> bool) \<times> nat" where
  "delimiter cs a = delimiter_from cs a None False []"

lemma delimiter_from_range:
  "snd (delimiter_from cs a q b d) \<ge> a \<and> (a \<le> length cs \<longrightarrow> snd (delimiter_from cs a q b d) \<le> length cs)"
proof (induction cs a q b d rule: delimiter_from.induct)
  case (1 cs a q b d)
  show ?case
  proof (cases "a < length cs")
    case True
    let ?c = "cs ! a"
    consider "q = None \<and> (?c = 39 \<or> ?c = 34)" | "\<not> (q = None \<and> (?c = 39 \<or> ?c = 34))" "q = Some ?c"
      | "\<not> (q = None \<and> (?c = 39 \<or> ?c = 34))" "q \<noteq> Some ?c" "q = None \<and> ?c = 92"
      | "\<not> (q = None \<and> (?c = 39 \<or> ?c = 34))" "q \<noteq> Some ?c" "\<not> (q = None \<and> ?c = 92)" "q = None \<and> is_word_end ?c"
      | "\<not> (q = None \<and> (?c = 39 \<or> ?c = 34))" "q \<noteq> Some ?c" "\<not> (q = None \<and> ?c = 92)" "\<not> (q = None \<and> is_word_end ?c)"
      by blast
    then show ?thesis
    proof cases
      case 1 with "1.IH"(1) True show ?thesis by (subst (1 2) delimiter_from.simps) (auto simp: Let_def)
    next
      case 2 with "1.IH"(2) True show ?thesis by (subst (1 2) delimiter_from.simps) (auto simp: Let_def)
    next
      case 3 with "1.IH"(3) True show ?thesis by (subst (1 2) delimiter_from.simps) (auto simp: Let_def)
    next
      case 4 with True show ?thesis by (subst (1 2) delimiter_from.simps) (auto simp: Let_def)
    next
      case 5 with "1.IH"(4) True show ?thesis by (subst (1 2) delimiter_from.simps) (auto simp: Let_def)
    qed
  qed (subst (1 2) delimiter_from.simps, simp)
qed

definition strip_leading_tabs :: "bool \<Rightarrow> str \<Rightarrow> str" where
  "strip_leading_tabs strip line = (if strip then dropWhile (\<lambda>c. c = 9) line else line)"

text \<open>The line at \<open>a\<close> with its line break: where the next one starts.\<close>

definition line_stop :: "str \<Rightarrow> nat \<Rightarrow> nat" where
  "line_stop cs a = min (a + length (takeWhile (\<lambda>c. c \<noteq> 10) (drop a cs)) + 1) (length cs)"

definition part :: "str \<Rightarrow> nat \<Rightarrow> nat \<Rightarrow> str" where
  "part cs a b = take (b - a) (drop a cs)"

lemma line_stop_range: "a < length cs \<Longrightarrow> a < line_stop cs a \<and> line_stop cs a \<le> length cs"
  by (auto simp: line_stop_def)

function skip_heredoc_body :: "str \<Rightarrow> nat \<Rightarrow> str \<Rightarrow> bool \<Rightarrow> str \<Rightarrow> str \<times> nat" where
  "skip_heredoc_body cs a delim strip t =
     (if \<not> a < length cs then (t, a)
      else let stop = line_stop cs a;
               line = part cs a stop;
               bare = strip_leading_tabs strip (trim_end_matches (\<lambda>c. c = 13 \<or> c = 10) line)
           in if bare = delim then (t @ line, stop) else skip_heredoc_body cs stop delim strip (t @ line))"
  by pat_completeness auto
termination
  by (relation "measure (\<lambda>(cs, a, _). length cs - a)") (auto dest: line_stop_range intro: diff_less_mono2)

declare skip_heredoc_body.simps [simp del]

lemma part_append: "a \<le> b \<Longrightarrow> b \<le> c \<Longrightarrow> part cs a b @ part cs b c = part cs a c"
proof -
  assume ab: "a \<le> b" "b \<le> c"
  have "take (c - a) (drop a cs) = take (b - a) (drop a cs) @ take (c - b) (drop (b - a) (drop a cs))"
    using take_add[of "b - a" "c - b" "drop a cs"] ab by simp
  with ab show ?thesis by (simp add: part_def)
qed

lemma part_snoc: "a \<le> b \<Longrightarrow> b < length cs \<Longrightarrow> part cs a b @ [cs ! b] = part cs a (Suc b)"
  using part_append[of a b "Suc b" cs] by (simp add: part_def take_Suc_conv_app_nth flip: Cons_nth_drop_Suc)

lemma part_empty [simp]: "part cs a a = []"
  by (simp add: part_def)

text \<open>What a scan that copies what it passes satisfies: it goes forward, stays in the text, and
  appends exactly the characters between its start and its end.\<close>

definition copies :: "str \<Rightarrow> nat \<Rightarrow> str \<Rightarrow> str \<times> nat \<Rightarrow> bool" where
  "copies cs a t r \<longleftrightarrow> a \<le> length cs \<longrightarrow> a \<le> snd r \<and> snd r \<le> length cs \<and> fst r = t @ part cs a (snd r)"

lemma copies_trans:
  "copies cs a t (t', b) \<Longrightarrow> copies cs b t' r \<Longrightarrow> copies cs a t r"
  unfolding copies_def by (metis append.assoc fst_conv le_trans part_append snd_conv)

lemma copies_step: "a < length cs \<Longrightarrow> copies cs (Suc a) (t @ [cs ! a]) r \<Longrightarrow> copies cs a t r"
  using copies_trans[of cs a t "t @ [cs ! a]" "Suc a" r] part_snoc[of a a cs]
  by (simp add: copies_def)

lemma copies_self [simp]: "copies cs a t (t, a)"
  by (simp add: copies_def)

lemma skip_heredoc_body_copies: "copies cs a t (skip_heredoc_body cs a delim strip t)"
proof (induction cs a delim strip t rule: skip_heredoc_body.induct)
  case (1 cs a delim strip t)
  show ?case
  proof (cases "a < length cs")
    case True
    have line: "copies cs a t (t @ part cs a (line_stop cs a), line_stop cs a)"
      using line_stop_range[OF True] by (simp add: copies_def)
    show ?thesis
      using "1.IH" True line copies_trans[OF line] by (subst skip_heredoc_body.simps) (auto simp: Let_def)
  qed (subst skip_heredoc_body.simps, simp)
qed

fun skip_bodies :: "str \<Rightarrow> nat \<Rightarrow> (str \<times> bool) list \<Rightarrow> str \<Rightarrow> str \<times> nat" where
  "skip_bodies cs a [] t = (t, a)"
| "skip_bodies cs a ((d, strip) # hs) t =
     (let (t', a') = skip_heredoc_body cs a d strip t in skip_bodies cs a' hs t')"

lemma skip_bodies_copies: "copies cs a t (skip_bodies cs a hs t)"
proof (induction cs a hs t rule: skip_bodies.induct)
  case (2 cs a d strip hs t)
  then show ?case
    using skip_heredoc_body_copies[of cs a t d strip]
    by (auto split: prod.split intro: copies_trans)
qed simp

lemma copies_jump:
  "b \<le> e \<Longrightarrow> e \<le> length cs \<Longrightarrow> copies cs e (u @ part cs b e) r \<Longrightarrow> copies cs b u r"
  by (rule copies_trans[of cs b u "u @ part cs b e" e]) (simp add: copies_def)

lemma length_takeWhile_drop: "a \<le> length cs \<Longrightarrow> a + length (takeWhile P (drop a cs)) \<le> length cs"
  using length_takeWhile_le[of P "drop a cs"] by simp

lemma single_quoted_range:
  "a \<le> length cs \<Longrightarrow> a \<le> snd (single_quoted cs a) \<and> snd (single_quoted cs a) \<le> length cs"
  by (auto simp: single_quoted_def Let_def)

lemma skip_comment_range: "a \<le> length cs \<Longrightarrow> a \<le> skip_comment cs a \<and> skip_comment cs a \<le> length cs"
  by (auto simp: skip_comment_def length_takeWhile_drop)

lemma looking_at_length: "looking_at cs a t \<Longrightarrow> length t \<le> length cs - a"
  unfolding looking_at_def starts_with_prefix by (auto dest: prefix_length_le)

lemma looking_at_nth:
  assumes "looking_at cs a t" "i < length t"
  shows "a + i < length cs \<and> cs ! (a + i) = t ! i"
proof -
  have t: "take (length t) (drop a cs) = t"
    using assms(1) by (simp add: looking_at_def starts_with_def)
  from assms have i: "a + i < length cs"
    using looking_at_length[OF assms(1)] by simp
  have "t ! i = take (length t) (drop a cs) ! i" by (simp add: t)
  also have "\<dots> = cs ! (a + i)" using assms(2) i by simp
  finally show ?thesis using i by simp
qed

lemma copies_if:
  "(P \<Longrightarrow> copies cs a t x) \<Longrightarrow> (\<not> P \<Longrightarrow> copies cs a t y) \<Longrightarrow> copies cs a t (if P then x else y)"
  by simp

lemma delimiter_range:
  "a \<le> length cs \<Longrightarrow> a \<le> snd (delimiter cs (skip_blanks cs a)) \<and> snd (delimiter cs (skip_blanks cs a)) \<le> length cs"
  using delimiter_from_range[of "skip_blanks cs a" cs None False "[]"] length_takeWhile_drop[of a cs]
  by (auto simp: delimiter_def skip_blanks_def)

text \<open>\<^verbatim>\<open>Lexer::substitution\<close> after its first line, and \<^verbatim>\<open>Lexer::skip_double_quoted\<close>: they call each
  other on what is left of the text.\<close>

definition opens_heredoc :: "str \<Rightarrow> nat \<Rightarrow> bool" where
  "opens_heredoc cs a \<longleftrightarrow> looking_at cs a (lit ''<'') \<and> \<not> looking_at cs a (lit ''<<'')"

function substitution_from :: "str \<Rightarrow> bool \<Rightarrow> nat \<Rightarrow> str \<Rightarrow> int \<Rightarrow> (str \<times> bool) list \<Rightarrow> str \<times> nat"
  and skip_double_quoted :: "str \<Rightarrow> nat \<Rightarrow> str \<Rightarrow> str \<times> nat" where
  "substitution_from cs arith a t depth hs =
     (if \<not> a < length cs then (t, a)
      else let c = cs ! a; b = a + 1; u = t @ [c] in
        if c = 40 then substitution_from cs arith b u (depth + 1) hs
        else if c = 41 then
          (if depth - 1 = 0 then (u, b) else substitution_from cs arith b u (depth - 1) hs)
        else if arith then substitution_from cs arith b u depth hs
        else if c = 92 then
          (case peek cs b of None \<Rightarrow> substitution_from cs arith b u depth hs
           | Some d \<Rightarrow> substitution_from cs arith (b + 1) (u @ [d]) depth hs)
        else if c = 39 then
          (let e = snd (single_quoted cs b) in substitution_from cs arith e (u @ part cs b e) depth hs)
        else if c = 34 then
          (let r = skip_double_quoted cs b u in substitution_from cs arith (snd r) (fst r) depth hs)
        else if c = 35 \<and> (b < 2 \<or> is_whitespace (cs ! (b - 2))) then
          (let e = skip_comment cs b in substitution_from cs arith e (u @ part cs b e) depth hs)
        else if c = 60 \<and> opens_heredoc cs b then
          (let strip = looking_at cs b (lit ''<-'');
               r = delimiter cs (skip_blanks cs (b + 1 + of_bool strip))
           in substitution_from cs arith (snd r) (u @ part cs b (snd r)) depth (hs @ [(fst (fst r), strip)]))
        else if c = 10 then
          (let r = skip_bodies cs b hs u in substitution_from cs arith (snd r) (fst r) depth [])
        else substitution_from cs arith b u depth hs)"
| "skip_double_quoted cs a t =
     (if \<not> a < length cs then (t, a)
      else let c = cs ! a; b = a + 1; u = t @ [c] in
        if c = 34 then (u, b)
        else if c = 92 then
          (case peek cs b of None \<Rightarrow> skip_double_quoted cs b u
           | Some d \<Rightarrow> skip_double_quoted cs (b + 1) (u @ [d]))
        else if c = 36 \<and> looking_at cs b (lit ''('') then
          (let r = substitution_from cs (looking_at cs b (lit ''(('')) b [] 0 []
           in skip_double_quoted cs (snd r) (u @ fst r))
        else skip_double_quoted cs b u)"
  by pat_completeness auto

lemma heredoc_range:
  assumes "opens_heredoc cs b"
  shows "b < snd (delimiter cs (skip_blanks cs (b + 1 + of_bool (looking_at cs b (lit ''<-'')))))
     \<and> snd (delimiter cs (skip_blanks cs (b + 1 + of_bool (looking_at cs b (lit ''<-''))))) \<le> length cs"
proof -
  have "b + 1 + of_bool (looking_at cs b (lit ''<-'')) \<le> length cs"
    using assms looking_at_length[of cs b "lit ''<''"] looking_at_length[of cs b "lit ''<-''"]
    by (auto simp: opens_heredoc_def)
  from delimiter_range[OF this] show ?thesis by simp
qed

lemma substitution_copies_dom:
  "substitution_from_skip_double_quoted_dom (Inl (cs, arith, a, t, depth, hs)) \<Longrightarrow>
     copies cs a t (substitution_from cs arith a t depth hs)"
  "substitution_from_skip_double_quoted_dom (Inr (cs, a, t)) \<Longrightarrow>
     copies cs a t (skip_double_quoted cs a t)"
proof (induction cs arith a t depth hs and cs a t rule: substitution_from_skip_double_quoted.pinduct)
  case (1 cs arith a t depth hs)
  let ?c = "cs ! a" let ?b = "a + 1" let ?u = "t @ [cs ! a]"
  show ?case
  proof (cases "a < length cs")
    case True
    have jump: "copies cs a t r" if "?b \<le> e" "e \<le> length cs" "copies cs e (?u @ part cs ?b e) r" for e r
      using copies_step[of a cs t r] copies_jump[of ?b e cs ?u r] that True by simp
    have one: "copies cs a t r" if "copies cs ?b ?u r" for r
      using copies_step[of a cs t r] that True by simp
    from True have b: "?b \<le> length cs" by simp
    have via: "copies cs a t r" if "copies cs ?b ?u (v, e)" "copies cs e v r" for v e r
      using one copies_trans that by blast
    have escape: "copies cs ?b ?u (?u @ [d], ?b + 1)" if "peek cs ?b = Some d" for d
      using that part_snoc[of ?b ?b cs] by (auto simp: copies_def peek_def split: if_splits)
    have heredoc: "?b \<le> snd r \<and> snd r \<le> length cs"
      if "opens_heredoc cs ?b" "r = delimiter cs (skip_blanks cs (?b + 1 + of_bool (looking_at cs ?b (lit ''<-''))))" for r
      using heredoc_range[OF that(1)] that(2) by simp
    show ?thesis
      apply (subst substitution_from.psimps[OF "1.hyps"])
      unfolding Let_def
      apply (rule copies_if, simp)
      apply (rule copies_if, rule one, (rule "1.IH"(1); simp))
      apply (rule copies_if, rule copies_if, rule one, rule copies_self, rule one, (rule "1.IH"(2); simp))
      apply (rule copies_if, rule one, (rule "1.IH"(3); simp))
      apply (rule copies_if)
      subgoal
        apply (split option.split, intro conjI allI impI)
         apply (rule one, (rule "1.IH"(4); simp))
        apply (rule via, erule escape, (rule "1.IH"(5); simp))
        done
      apply (rule copies_if, rule jump, rule conjunct1[OF single_quoted_range[OF b]],
          rule conjunct2[OF single_quoted_range[OF b]], (rule "1.IH"(6); simp))
      apply (rule copies_if, rule via[where v = "fst (skip_double_quoted cs ?b ?u)" and e = "snd (skip_double_quoted cs ?b ?u)"])
        apply (subst prod.collapse, (rule "1.IH"(7); simp))
       apply ((rule "1.IH"(8); simp))
      apply (rule copies_if, rule jump, rule conjunct1[OF skip_comment_range[OF b]],
          rule conjunct2[OF skip_comment_range[OF b]], (rule "1.IH"(9); simp))
      apply (rule copies_if)
      subgoal
        by (rule jump, erule heredoc[OF conjunct2, OF _ refl, THEN conjunct1], erule heredoc[OF conjunct2, OF _ refl, THEN conjunct2], (rule "1.IH"(10); simp))
      apply (rule copies_if, rule via, subst prod.collapse, rule skip_bodies_copies, (rule "1.IH"(11); simp))
      apply (rule one, (rule "1.IH"(12); simp))
      done
  qed (simp add: "1.hyps" substitution_from.psimps)
next
  case (2 cs a t)
  let ?b = "a + 1" let ?u = "t @ [cs ! a]"
  show ?case
  proof (cases "a < length cs")
    case True
    have one: "copies cs a t r" if "copies cs ?b ?u r" for r
      using copies_step[of a cs t r] that True by simp
    have via: "copies cs a t r" if "copies cs ?b ?u (v, e)" "copies cs e v r" for v e r
      using one copies_trans that by blast
    have escape: "copies cs ?b ?u (?u @ [d], ?b + 1)" if "peek cs ?b = Some d" for d
      using that part_snoc[of ?b ?b cs] by (auto simp: copies_def peek_def split: if_splits)
    have inner: "copies cs ?b ?u (?u @ fst r, snd r)" if "copies cs ?b [] r" for r
      using that by (simp add: copies_def)
    show ?thesis
      apply (subst skip_double_quoted.psimps[OF "2.hyps"])
      unfolding Let_def
      apply (rule copies_if, simp)
      apply (rule copies_if, rule one, rule copies_self)
      apply (rule copies_if)
      subgoal
        apply (split option.split, intro conjI allI impI)
         apply (rule one, (rule "2.IH"(1); simp))
        apply (rule via, erule escape, (rule "2.IH"(2); simp))
        done
      apply (rule copies_if, rule via, rule inner, (rule "2.IH"(3); simp), (rule "2.IH"(4); simp))
      apply (rule one, (rule "2.IH"(5); simp))
      done
  qed (simp add: "2.hyps" skip_double_quoted.psimps)
qed

lemma substitution_total: "All substitution_from_skip_double_quoted_dom"
proof (relation "measure (\<lambda>x. case x of Inl (cs, _, a, _) \<Rightarrow> length cs - a | Inr (cs, a, _) \<Rightarrow> length cs - a)",
    goal_cases)
  case (7 cs arith a t depth hs)
  then show ?case using single_quoted_range[of "a + 1" cs] by auto
next
  case (9 cs arith a t depth hs)
  then show ?case using substitution_copies_dom(2)[of cs "a + 1" "t @ [cs ! a]"] by (auto simp: copies_def)
next
  case (10 cs arith a t depth hs)
  then show ?case using skip_comment_range[of "a + 1" cs] by auto
next
  case (11 cs arith a t depth hs)
  then show ?case using heredoc_range[of cs "a + 1"] by auto
next
  case (12 cs arith a t depth hs)
  then show ?case using skip_bodies_copies[of cs "a + 1" "t @ [cs ! a]" hs] by (auto simp: copies_def)
next
  case (17 cs a t)
  then show ?case using substitution_copies_dom(1)[of cs "looking_at cs (a + 1) (lit ''(('')" "a + 1" "[]" 0 "[]"] by (auto simp: copies_def)
qed (auto simp: peek_def split: if_splits)

termination substitution_from
  by (rule substitution_total)

declare substitution_from.simps [simp del] skip_double_quoted.simps [simp del]

lemma substitution_from_copies: "copies cs a t (substitution_from cs arith a t depth hs)"
  by (rule substitution_copies_dom) (use substitution_total in blast)

definition substitution :: "str \<Rightarrow> nat \<Rightarrow> str \<times> nat" where
  "substitution cs a = substitution_from cs (looking_at cs a (lit ''(('')) a [] 0 []"

lemma substitution_range:
  "a \<le> length cs \<Longrightarrow> a \<le> snd (substitution cs a) \<and> snd (substitution cs a) \<le> length cs
     \<and> fst (substitution cs a) = part cs a (snd (substitution cs a))"
  using substitution_from_copies[of cs a "[]" "looking_at cs a (lit ''(('')" 0 "[]"]
  by (simp add: substitution_def copies_def)

section \<open>Double quotes and \<^verbatim>\<open>$'...'\<close>\<close>

text \<open>The text of the string, whether it holds an expansion, and the position after it.\<close>

function double_quoted :: "str \<Rightarrow> nat \<Rightarrow> str \<Rightarrow> bool \<Rightarrow> (str \<times> bool) \<times> nat" where
  "double_quoted cs a t dyn =
     (if \<not> a < length cs then ((t, dyn), a)
      else let c = cs ! a; b = a + 1 in
        if c = 34 then ((t, dyn), b)
        else if c = 92 then
          (case peek cs b of
             Some d \<Rightarrow> if d \<in> {36, 96, 34, 92} then double_quoted cs (b + 1) (t @ [d]) dyn
                       else if d = 10 then double_quoted cs (b + 1) t dyn
                       else double_quoted cs b (t @ [92]) dyn
           | None \<Rightarrow> double_quoted cs b (t @ [92]) dyn)
        else if c = 36 \<and> looking_at cs b (lit ''('') then
          (let r = substitution cs b in double_quoted cs (snd r) (t @ [36] @ fst r) True)
        else if c = 36 \<or> c = 96 then double_quoted cs b (t @ [c]) True
        else double_quoted cs b (t @ [c]) dyn)"
  by pat_completeness auto
termination
proof (relation "measure (\<lambda>(cs, a, _). length cs - a)", goal_cases)
  case (6 cs a t dyn)
  then show ?case using substitution_range[of "a + 1" cs] by auto
qed (auto simp: peek_def split: if_splits)

declare double_quoted.simps [simp del]

text \<open>A scan that goes forward and stays in the text.\<close>

definition forward :: "str \<Rightarrow> nat \<Rightarrow> 'a \<times> nat \<Rightarrow> bool" where
  "forward cs a r \<longleftrightarrow> a \<le> snd r \<and> snd r \<le> length cs"

lemma forward_if: "(P \<Longrightarrow> forward cs a x) \<Longrightarrow> (\<not> P \<Longrightarrow> forward cs a y) \<Longrightarrow> forward cs a (if P then x else y)"
  by simp

lemma forward_from: "a \<le> b \<Longrightarrow> forward cs b r \<Longrightarrow> forward cs a r"
  by (simp add: forward_def)

lemma forward_end: "a \<le> b \<Longrightarrow> b \<le> length cs \<Longrightarrow> forward cs a (t, b)"
  by (simp add: forward_def)

lemma double_quoted_forward: "a \<le> length cs \<Longrightarrow> forward cs a (double_quoted cs a t dyn)"
proof (induction cs a t dyn rule: double_quoted.induct)
  case (1 cs a t dyn)
  show ?case
  proof (cases "a < length cs")
    case True
    from True have b: "a + 1 \<le> length cs" by simp
    have peek: "peek cs (a + 1) = Some d \<Longrightarrow> a + 1 + 1 \<le> length cs" for d
      by (auto simp: peek_def split: if_splits)
    show ?thesis
      apply (subst double_quoted.simps)
      unfolding Let_def
      apply (rule forward_if, simp add: True)
      apply (rule forward_if, rule forward_end, simp, rule b)
      apply (rule forward_if)
      subgoal
        apply (split option.split, intro conjI allI impI)
         apply (rule forward_from[of _ "a + 1"], simp, rule "1.IH"(1); simp add: b)
        apply (frule peek, rule forward_if)
         apply (rule forward_from[of _ "a + 1 + 1"], simp, rule "1.IH"(2); simp)
        apply (rule forward_if)
         apply (rule forward_from[of _ "a + 1 + 1"], simp, rule "1.IH"(3); simp)
        apply (rule forward_from[of _ "a + 1"], simp, rule "1.IH"(4); simp add: b)
        done
      apply (rule forward_if)
       apply (rule forward_from[of _ "snd (substitution cs (a + 1))"])
        apply (use substitution_range[OF b] in simp)
       apply (rule "1.IH"(5); use substitution_range[OF b] True in simp)
      apply (rule forward_if)
       apply (rule forward_from[of _ "a + 1"], simp, rule "1.IH"(6); simp add: b)
      apply (rule forward_from[of _ "a + 1"], simp, rule "1.IH"(7); simp add: b)
      done
  qed (use "1.prems" in \<open>simp add: double_quoted.simps forward_def\<close>)
qed

text \<open>The raw body of \<^verbatim>\<open>$'...'\<close>: a backslash keeps the character after it.\<close>

function ansi_raw :: "str \<Rightarrow> nat \<Rightarrow> str \<Rightarrow> str \<times> nat" where
  "ansi_raw cs a raw =
     (if \<not> a < length cs then (raw, a)
      else let c = cs ! a; b = a + 1 in
        if c = 39 then (raw, b)
        else if c = 92 then
          (case peek cs b of Some d \<Rightarrow> ansi_raw cs (b + 1) (raw @ [c, d]) | None \<Rightarrow> ansi_raw cs b (raw @ [c]))
        else ansi_raw cs b (raw @ [c]))"
  by pat_completeness auto
termination by (relation "measure (\<lambda>(cs, a, _). length cs - a)") (auto simp: peek_def split: if_splits)

declare ansi_raw.simps [simp del]

lemma ansi_raw_forward: "a \<le> length cs \<Longrightarrow> forward cs a (ansi_raw cs a raw)"
proof (induction cs a raw rule: ansi_raw.induct)
  case (1 cs a raw)
  show ?case
  proof (cases "a < length cs")
    case True
    have peek: "peek cs (a + 1) = Some d \<Longrightarrow> a + 1 + 1 \<le> length cs" for d
      by (auto simp: peek_def split: if_splits)
    show ?thesis
      apply (subst ansi_raw.simps)
      unfolding Let_def
      apply (rule forward_if, simp add: True)
      apply (rule forward_if, rule forward_end, simp, use True in simp)
      apply (rule forward_if)
      subgoal
        apply (split option.split, intro conjI allI impI)
         apply (rule forward_from[of _ "a + 1"], simp, rule "1.IH"(1); simp)
        apply (frule peek, rule forward_from[of _ "a + 1 + 1"], simp, rule "1.IH"(2); simp)
        done
      apply (rule forward_from[of _ "a + 1"], simp, rule "1.IH"(3); simp)
      done
  qed (use "1.prems" in \<open>simp add: ansi_raw.simps forward_def\<close>)
qed

definition ansi_quoted :: "str \<Rightarrow> nat \<Rightarrow> str \<times> nat" where
  "ansi_quoted cs a = (let (raw, b) = ansi_raw cs a [] in (unescape raw, b))"

section \<open>The texts of substitutions\<close>

text \<open>The text up to the closing backtick: a backslash only escapes \<^verbatim>\<open>$\<close>, a backtick or another
  backslash.\<close>

function backtick_from :: "str \<Rightarrow> nat \<Rightarrow> str \<Rightarrow> str \<times> nat" where
  "backtick_from cs a inner =
     (if \<not> a < length cs then (inner, a)
      else let c = cs ! a; b = a + 1 in
        if c = 96 then (inner, b)
        else case (if c = 92 then peek cs b else None) of
            None \<Rightarrow> backtick_from cs b (inner @ [c])
          | Some d \<Rightarrow> if d \<in> {36, 96, 92} then backtick_from cs (b + 1) (inner @ [d])
                      else backtick_from cs b (inner @ [c]))"
  by pat_completeness auto
termination by (relation "measure (\<lambda>(cs, a, _). length cs - a)") (auto simp: peek_def split: if_splits)

declare backtick_from.simps [simp del]

lemma backtick_from_ge: "a \<le> snd (backtick_from cs a inner)"
proof (induction cs a inner rule: backtick_from.induct)
  case (1 cs a inner)
  show ?case
  proof (cases "a < length cs \<and> cs ! a \<noteq> 96")
    case True
    then have "cs ! a \<noteq> 96" and a: "\<not> \<not> a < length cs" by simp_all
    note IH = "1.IH"[OF a refl refl this(1)]
    show ?thesis
      using True IH(1) IH(2,3)
      by (subst backtick_from.simps) (fastforce simp: Let_def split: option.split)
  qed (auto simp: backtick_from.simps Let_def)
qed

definition without_prefix_char :: "rchar \<Rightarrow> str \<Rightarrow> str" where
  "without_prefix_char c s = (if s \<noteq> [] \<and> hd s = c then tl s else s)"

definition without_suffix_char :: "rchar \<Rightarrow> str \<Rightarrow> str" where
  "without_suffix_char c s = (if s \<noteq> [] \<and> last s = c then butlast s else s)"

function substitutions_from :: "str \<Rightarrow> bool \<Rightarrow> nat \<Rightarrow> bool \<Rightarrow> str list \<Rightarrow> str list" where
  "substitutions_from cs quotes a in_double found =
     (if \<not> a < length cs then found
      else let c = cs ! a; b = a + 1 in
        if c = 92 then substitutions_from cs quotes (if peek cs b = None then b else b + 1) in_double found
        else if c = 34 \<and> quotes then substitutions_from cs quotes b (\<not> in_double) found
        else if c = 39 \<and> quotes \<and> \<not> in_double then
          (let e = snd (single_quoted cs b) in substitutions_from cs quotes e in_double found)
        else if c = 36 \<and> looking_at cs b (lit ''(('') then
          (let r = substitution cs b
           in substitutions_from cs quotes (snd r) in_double (found @ substitutions_from (fst r) quotes 0 False []))
        else if c = 36 \<and> looking_at cs b (lit ''('') then
          (let r = substitution cs b
           in substitutions_from cs quotes (snd r) in_double
                (found @ [without_suffix_char 41 (without_prefix_char 40 (fst r))]))
        else if c = 96 then
          (let r = backtick_from cs b [] in substitutions_from cs quotes (snd r) in_double (found @ [fst r]))
        else substitutions_from cs quotes b in_double found)"
  by pat_completeness auto
termination
proof (relation "measures [\<lambda>(cs, _, _). length cs, \<lambda>(cs, _, a, _). length cs - a]", goal_cases)
  case (4 cs quotes a in_double found)
  then show ?case using single_quoted_range[of "a + 1" cs] by auto
next
  case (5 cs quotes a in_double found)
  then show ?case using substitution_range[of "a + 1" cs] by (auto simp: part_def)
next
  case (6 cs quotes a in_double found)
  then show ?case using substitution_range[of "a + 1" cs] by auto
next
  case (7 cs quotes a in_double found)
  then show ?case using substitution_range[of "a + 1" cs] by auto
next
  case (8 cs quotes a in_double found)
  then show ?case using backtick_from_ge[of "a + 1" cs "[]"] by auto
qed (auto simp: peek_def split: if_splits)

declare substitutions_from.simps [simp del]

definition substitutions :: "str \<Rightarrow> bool \<Rightarrow> str list" where
  "substitutions t quotes = substitutions_from t quotes 0 False []"

end
