(* ===== verification/Shell_Lexer.thy ===== *)
theory Shell_Lexer
  imports Shell_Scan
begin

text \<open>
  The reader of shell command lines, \<^verbatim>\<open>Lexer\<close> of \<^verbatim>\<open>crates/cli/src/common/shell.rs\<close>. The record
  has the fields of the struct and a flag \<open>lx_panic\<close> that an index out of range would set. One
  turn of the loop of \<^verbatim>\<open>Lexer::run\<close> is \<open>lex_step\<close>; \<open>run_lexer\<close> is the loop.
\<close>

section \<open>State\<close>

record span =
  sp_start :: nat
  sp_end :: nat
  sp_dynamic :: bool

record heredoc =
  hd_delimiter :: str
  hd_quoted :: bool
  hd_strip_tabs :: bool
  hd_text :: str
  hd_body :: "nat \<times> nat"

record command =
  cm_words :: "str list"
  cm_spans :: "span list"
  cm_heredocs :: "heredoc list"
  cm_piped :: bool
  cm_depth :: nat
  cm_group :: nat
  cm_line_end :: "nat option"
  cm_substitution :: bool
  cm_joined :: bool
  cm_opens :: bool

record opened =
  op_delimiter :: str
  op_strip_tabs :: bool
  op_quoted :: bool
  op_owner :: "nat option"

record lexer =
  lx_chars :: str
  lx_at :: nat
  lx_commands :: "command list"
  lx_words :: "str list"
  lx_spans :: "span list"
  lx_word :: "str option"
  lx_word_start :: nat
  lx_word_end :: nat
  lx_word_dynamic :: bool
  lx_opened :: "opened list"
  lx_opened_here :: "nat list"
  lx_piped_next :: bool
  lx_groups :: "nat list"
  lx_groups_opened :: nat
  lx_substitution_groups :: "bool list"
  lx_in_backtick :: bool
  lx_joined_next :: bool
  lx_opens_next :: bool
  lx_line_first :: nat
  lx_panic :: bool

definition new_lexer :: "str \<Rightarrow> lexer" where
  "new_lexer t = \<lparr>lx_chars = t, lx_at = 0, lx_commands = [], lx_words = [], lx_spans = [], lx_word = None,
     lx_word_start = 0, lx_word_end = 0, lx_word_dynamic = False, lx_opened = [], lx_opened_here = [],
     lx_piped_next = False, lx_groups = [], lx_groups_opened = 0, lx_substitution_groups = [],
     lx_in_backtick = False, lx_joined_next = False, lx_opens_next = False, lx_line_first = 0,
     lx_panic = False\<rparr>"

section \<open>Words and commands\<close>

definition begin_word :: "nat \<Rightarrow> lexer \<Rightarrow> lexer" where
  "begin_word start l = (if lx_word l = None
     then l\<lparr>lx_word := Some [], lx_word_start := start, lx_word_dynamic := False\<rparr> else l)"

definition push_str :: "str \<Rightarrow> lexer \<Rightarrow> lexer" where
  "push_str t l = l\<lparr>lx_word := Some ((case lx_word l of None \<Rightarrow> [] | Some w \<Rightarrow> w) @ t)\<rparr>"

definition end_word :: "lexer \<Rightarrow> lexer" where
  "end_word l = (case lx_word l of None \<Rightarrow> l
     | Some w \<Rightarrow> l\<lparr>lx_word := None, lx_words := lx_words l @ [w],
         lx_spans := lx_spans l @ [\<lparr>sp_start = lx_word_start l,
           sp_end = min (lx_word_end l) (length (lx_chars l)), sp_dynamic = lx_word_dynamic l\<rparr>]\<rparr>)"

text \<open>\<^verbatim>\<open>self.opened[at].owner = Some(index)\<close> for each index of \<open>here\<close>.\<close>

fun own :: "nat \<Rightarrow> nat list \<Rightarrow> opened list \<Rightarrow> opened list" where
  "own index [] os = os"
| "own index (i # here) os = own index here (os[i := (os ! i)\<lparr>op_owner := Some index\<rparr>])"

definition end_command :: "lexer \<Rightarrow> lexer" where
  "end_command l0 =
     (let l = end_word l0;
          here = lx_opened_here l;
          opens = lx_opens_next l;
          l = l\<lparr>lx_opened_here := [], lx_opens_next := False\<rparr> in
      if lx_words l = [] then l
      else let index = length (lx_commands l) in
        l\<lparr>lx_panic := (lx_panic l \<or> \<not> list_all (\<lambda>i. i < length (lx_opened l)) here),
          lx_opened := own index here (lx_opened l),
          lx_commands := lx_commands l @ [\<lparr>cm_words = lx_words l, cm_spans = lx_spans l, cm_heredocs = [],
             cm_piped = lx_piped_next l, cm_depth = length (lx_groups l),
             cm_group = (if lx_groups l = [] then 0 else last (lx_groups l)), cm_line_end = None,
             cm_substitution = (lx_in_backtick l \<or> True \<in> set (lx_substitution_groups l)),
             cm_joined = lx_joined_next l, cm_opens = opens\<rparr>],
          lx_words := [], lx_spans := [], lx_piped_next := False, lx_joined_next := False\<rparr>)"

section \<open>Heredocs\<close>

text \<open>\<^verbatim>\<open>Lexer::heredoc\<close>, which stands on the second \<^verbatim>\<open><\<close>.\<close>

definition read_heredoc :: "lexer \<Rightarrow> lexer" where
  "read_heredoc l =
     (let cs = lx_chars l; a = lx_at l + 1;
          strip = looking_at cs a (lit ''-'');
          ((d, quoted), e) = delimiter cs (skip_blanks cs (if strip then a + 1 else a));
          l = l\<lparr>lx_at := e\<rparr> in
      if d = [] then l
      else l\<lparr>lx_opened_here := lx_opened_here l @ [length (lx_opened l)],
             lx_opened := lx_opened l @ [\<lparr>op_delimiter = d, op_strip_tabs = strip, op_quoted = quoted,
                                          op_owner = None\<rparr>]\<rparr>)"

text \<open>The lines of a body: its text, where the body ends, and the position after it.\<close>

function body_lines :: "str \<Rightarrow> nat \<Rightarrow> str \<Rightarrow> bool \<Rightarrow> str \<Rightarrow> nat \<Rightarrow> str \<times> nat \<times> nat" where
  "body_lines cs a delim strip t end_at =
     (if \<not> a < length cs then (t, end_at, a)
      else let raw = takeWhile (\<lambda>c. c \<noteq> 10) (drop a cs);
               next = min (a + length raw + 1) (length cs);
               line = strip_leading_tabs strip (trim_end_matches (\<lambda>c. c = 13) raw)
           in if line = delim then (t, a, next) else body_lines cs next delim strip (t @ line @ [10]) next)"
  by pat_completeness auto
termination by (relation "measure (\<lambda>(cs, a, _). length cs - a)") auto

declare body_lines.simps [simp del]

definition add_heredoc :: "nat option \<Rightarrow> heredoc \<Rightarrow> command list \<Rightarrow> command list" where
  "add_heredoc owner h cmds = (case owner of None \<Rightarrow> cmds
     | Some i \<Rightarrow> if i < length cmds
                 then cmds[i := (cmds ! i)\<lparr>cm_heredocs := cm_heredocs (cmds ! i) @ [h]\<rparr>] else cmds)"

fun read_bodies :: "opened list \<Rightarrow> lexer \<Rightarrow> lexer" where
  "read_bodies [] l = l"
| "read_bodies (op # ops) l =
     (let start = lx_at l;
          (t, end_at, a) = body_lines (lx_chars l) start (op_delimiter op) (op_strip_tabs op) [] start;
          h = \<lparr>hd_delimiter = op_delimiter op, hd_quoted = op_quoted op, hd_strip_tabs = op_strip_tabs op,
               hd_text = t, hd_body = (start, end_at)\<rparr>
      in read_bodies ops (l\<lparr>lx_at := a, lx_commands := add_heredoc (op_owner op) h (lx_commands l)\<rparr>))"

definition read_heredoc_bodies :: "lexer \<Rightarrow> lexer" where
  "read_heredoc_bodies l = read_bodies (lx_opened l) (l\<lparr>lx_opened := []\<rparr>)"

section \<open>The loop\<close>

definition pop :: "'a list \<Rightarrow> 'a list" where
  "pop xs = butlast xs"

text \<open>The branches of the loop. \<open>start\<close> is the position of the character and \<open>lx_at\<close> is one past it.\<close>

definition do_escaped :: "nat \<Rightarrow> lexer \<Rightarrow> lexer" where
  "do_escaped start l = (case peek (lx_chars l) (lx_at l) of
       None \<Rightarrow> l
     | Some c \<Rightarrow> let l = l\<lparr>lx_at := lx_at l + 1\<rparr> in if c = 10 then l else push_str [c] (begin_word start l))"

definition do_single :: "nat \<Rightarrow> lexer \<Rightarrow> lexer" where
  "do_single start l = (let l = begin_word start l; (t, e) = single_quoted (lx_chars l) (lx_at l)
     in push_str t (l\<lparr>lx_at := e\<rparr>))"

definition do_double :: "nat \<Rightarrow> nat \<Rightarrow> lexer \<Rightarrow> lexer" where
  "do_double start skip l =
     (let l = begin_word start l;
          ((t, dyn), e) = double_quoted (lx_chars l) (lx_at l + skip) [] (lx_word_dynamic l)
      in push_str t (l\<lparr>lx_at := e, lx_word_dynamic := dyn\<rparr>))"

definition do_ansi :: "nat \<Rightarrow> lexer \<Rightarrow> lexer" where
  "do_ansi start l = (let l = begin_word start l; (t, e) = ansi_quoted (lx_chars l) (lx_at l + 1)
     in push_str t (l\<lparr>lx_at := e\<rparr>))"

definition do_arithmetic :: "nat \<Rightarrow> lexer \<Rightarrow> lexer" where
  "do_arithmetic start l =
     (let l = (begin_word start l)\<lparr>lx_word_dynamic := True\<rparr>; (t, e) = substitution (lx_chars l) (lx_at l)
      in push_str (36 # t) (l\<lparr>lx_at := e\<rparr>))"

definition do_dollar :: "nat \<Rightarrow> lexer \<Rightarrow> lexer" where
  "do_dollar start l = push_str [36] ((begin_word start l)\<lparr>lx_word_dynamic := True\<rparr>)"

definition do_here_string :: "nat \<Rightarrow> lexer \<Rightarrow> lexer" where
  "do_here_string start l =
     (let l = begin_word start (end_word l);
          l = push_str (lit ''<<<'') (l\<lparr>lx_at := lx_at l + 2\<rparr>)
      in end_word (l\<lparr>lx_word_end := lx_at l\<rparr>))"

definition do_pipe :: "lexer \<Rightarrow> lexer" where
  "do_pipe l =
     (let cs = lx_chars l; a = lx_at l;
          or_list = (looking_at cs a (lit ''|'') \<or> (a \<ge> 2 \<and> cs ! (a - 2) = 124));
          l = (if looking_at cs a (lit ''&'') then l\<lparr>lx_at := a + 1\<rparr> else l);
          l = end_command l
      in l\<lparr>lx_piped_next := \<not> or_list, lx_joined_next := False\<rparr>)"

definition do_separator :: "rchar \<Rightarrow> nat \<Rightarrow> lexer \<Rightarrow> lexer" where
  "do_separator c start l =
     (let l = (if c = 96 \<and> lx_word l \<noteq> None then l\<lparr>lx_word_dynamic := True\<rparr> else l);
          opens = (if c = 40 then start > 0 \<and> lx_chars l ! (start - 1) = 36
                   else if c = 96 then \<not> lx_in_backtick l else False);
          l = end_command (l\<lparr>lx_opens_next := opens\<rparr>);
          l = l\<lparr>lx_piped_next := False, lx_joined_next := False\<rparr>
      in if c = 40 then l\<lparr>lx_groups_opened := lx_groups_opened l + 1,
                         lx_groups := lx_groups l @ [lx_groups_opened l + 1],
                         lx_substitution_groups := lx_substitution_groups l @ [opens]\<rparr>
         else if c = 41 then l\<lparr>lx_groups := pop (lx_groups l),
                 lx_joined_next := (lx_substitution_groups l \<noteq> [] \<and> last (lx_substitution_groups l)),
                 lx_substitution_groups := pop (lx_substitution_groups l)\<rparr>
         else if c = 96 then l\<lparr>lx_in_backtick := \<not> lx_in_backtick l, lx_joined_next := lx_in_backtick l\<rparr>
         else l)"

definition do_newline :: "rchar \<Rightarrow> nat \<Rightarrow> lexer \<Rightarrow> lexer" where
  "do_newline c start l =
     (let l = (end_command l)\<lparr>lx_joined_next := False\<rparr> in
      if c \<noteq> 10 then l
      else let n = lx_line_first l; cmds = lx_commands l in
        read_heredoc_bodies (l\<lparr>
          lx_panic := (lx_panic l \<or> n > length cmds),
          lx_commands := take n cmds @ map (\<lambda>cm. cm\<lparr>cm_line_end := Some start\<rparr>) (drop n cmds),
          lx_line_first := length cmds\<rparr>))"

definition lex_step :: "lexer \<Rightarrow> lexer" where
  "lex_step l0 =
     (let start = lx_at l0; cs = lx_chars l0; c = cs ! start; a = start + 1; l = l0\<lparr>lx_at := a\<rparr>;
          l = (if c = 39 then do_single start l
               else if c = 34 then do_double start 0 l
               else if c = 92 then do_escaped start l
               else if c = 36 \<and> looking_at cs a [39] then do_ansi start l
               else if c = 36 \<and> looking_at cs a [34] then do_double start 1 l
               else if c = 36 \<and> looking_at cs a (lit ''(('') then do_arithmetic start l
               else if c = 36 then do_dollar start l
               else if c = 35 \<and> lx_word l = None then l\<lparr>lx_at := skip_comment cs a\<rparr>
               else if c = 60 \<and> looking_at cs a (lit ''<<'') then do_here_string start l
               else if c = 60 \<and> looking_at cs a (lit ''<'') then read_heredoc (end_word l)
               else if c = 124 then do_pipe l
               else if c \<in> {96, 59, 38, 40, 41} then do_separator c start l
               else if c = 10 \<or> c = 13 then do_newline c start l
               else if is_whitespace c then end_word l
               else push_str [c] (begin_word start l))
      in if lx_word l \<noteq> None then l\<lparr>lx_word_end := lx_at l\<rparr> else l)"

subsection \<open>Each turn goes forward\<close>

lemma begin_word_fields [simp]:
  "lx_chars (begin_word i l) = lx_chars l" "lx_at (begin_word i l) = lx_at l"
  "lx_commands (begin_word i l) = lx_commands l" "lx_opened (begin_word i l) = lx_opened l"
  "lx_opened_here (begin_word i l) = lx_opened_here l" "lx_line_first (begin_word i l) = lx_line_first l"
  "lx_panic (begin_word i l) = lx_panic l" "lx_words (begin_word i l) = lx_words l"
  "lx_spans (begin_word i l) = lx_spans l" "lx_groups (begin_word i l) = lx_groups l"
  "lx_groups_opened (begin_word i l) = lx_groups_opened l"
  "lx_substitution_groups (begin_word i l) = lx_substitution_groups l"
  "lx_word_end (begin_word i l) = lx_word_end l"
  "lx_word (begin_word i l) \<noteq> None"
  by (auto simp: begin_word_def)

lemma push_str_fields [simp]:
  "lx_chars (push_str t l) = lx_chars l" "lx_at (push_str t l) = lx_at l"
  "lx_commands (push_str t l) = lx_commands l" "lx_opened (push_str t l) = lx_opened l"
  "lx_opened_here (push_str t l) = lx_opened_here l" "lx_line_first (push_str t l) = lx_line_first l"
  "lx_panic (push_str t l) = lx_panic l" "lx_words (push_str t l) = lx_words l"
  "lx_spans (push_str t l) = lx_spans l" "lx_groups (push_str t l) = lx_groups l"
  "lx_groups_opened (push_str t l) = lx_groups_opened l"
  "lx_substitution_groups (push_str t l) = lx_substitution_groups l"
  "lx_word_start (push_str t l) = lx_word_start l" "lx_word_end (push_str t l) = lx_word_end l"
  "lx_word (push_str t l) \<noteq> None"
  by (simp_all add: push_str_def)

lemma end_word_fields [simp]:
  "lx_chars (end_word l) = lx_chars l" "lx_at (end_word l) = lx_at l"
  "lx_commands (end_word l) = lx_commands l" "lx_opened (end_word l) = lx_opened l"
  "lx_opened_here (end_word l) = lx_opened_here l" "lx_line_first (end_word l) = lx_line_first l"
  "lx_panic (end_word l) = lx_panic l" "lx_groups (end_word l) = lx_groups l"
  "lx_groups_opened (end_word l) = lx_groups_opened l"
  "lx_substitution_groups (end_word l) = lx_substitution_groups l"
  "lx_word (end_word l) = None"
  by (simp_all add: end_word_def split: option.splits)

lemma end_command_fields [simp]:
  "lx_chars (end_command l) = lx_chars l" "lx_at (end_command l) = lx_at l"
  "lx_opened_here (end_command l) = []" "lx_line_first (end_command l) = lx_line_first l"
  "lx_groups (end_command l) = lx_groups l" "lx_groups_opened (end_command l) = lx_groups_opened l"
  "lx_substitution_groups (end_command l) = lx_substitution_groups l"
  "lx_word (end_command l) = None" "lx_words (end_command l) = []"
  by (simp_all add: end_command_def Let_def)

lemma body_lines_range:
  "a \<le> length cs \<Longrightarrow> body_lines cs a d strip t e = (t', e', a') \<Longrightarrow> e = a \<Longrightarrow> a \<le> e' \<and> e' \<le> a' \<and> a' \<le> length cs"
proof (induction cs a d strip t e rule: body_lines.induct)
  case (1 cs a d strip t e)
  show ?case
  proof (cases "a < length cs")
    case True
    let ?raw = "takeWhile (\<lambda>c. c \<noteq> 10) (drop a cs)"
    let ?next = "min (a + length ?raw + 1) (length cs)"
    let ?line = "strip_leading_tabs strip (trim_end_matches (\<lambda>c. c = 13) ?raw)"
    show ?thesis
    proof (cases "?line = d")
      case line: True
      with True "1.prems" show ?thesis by (subst (asm) body_lines.simps) (auto simp: Let_def)
    next
      case line: False
      with True "1.prems"(2) have "body_lines cs ?next d strip (t @ ?line @ [10]) ?next = (t', e', a')"
        by (subst (asm) body_lines.simps) (simp add: Let_def)
      moreover have "?next \<le> length cs" by simp
      moreover have "\<not> \<not> a < length cs" using True by simp
      ultimately have "?next \<le> e' \<and> e' \<le> a' \<and> a' \<le> length cs"
        using "1.IH"[OF _ refl refl refl line] by blast
      with True show ?thesis by auto
    qed
  qed (use "1.prems" in \<open>subst (asm) body_lines.simps, auto\<close>)
qed

lemma read_bodies_fields [simp]:
  "lx_chars (read_bodies ops l) = lx_chars l" "lx_opened (read_bodies ops l) = lx_opened l"
  "lx_opened_here (read_bodies ops l) = lx_opened_here l"
  "lx_line_first (read_bodies ops l) = lx_line_first l" "lx_panic (read_bodies ops l) = lx_panic l"
  "lx_words (read_bodies ops l) = lx_words l" "lx_spans (read_bodies ops l) = lx_spans l"
  "lx_word (read_bodies ops l) = lx_word l" "lx_groups (read_bodies ops l) = lx_groups l"
  "lx_groups_opened (read_bodies ops l) = lx_groups_opened l"
  "lx_substitution_groups (read_bodies ops l) = lx_substitution_groups l"
  by (induction ops l rule: read_bodies.induct) (auto simp: Let_def split: prod.splits)

lemma read_bodies_at:
  "lx_at l \<le> length (lx_chars l) \<Longrightarrow>
     lx_at l \<le> lx_at (read_bodies ops l) \<and> lx_at (read_bodies ops l) \<le> length (lx_chars l)"
proof (induction ops l rule: read_bodies.induct)
  case (2 op ops l)
  obtain t e a where b: "body_lines (lx_chars l) (lx_at l) (op_delimiter op) (op_strip_tabs op) [] (lx_at l) = (t, e, a)"
    by (metis prod_cases3)
  from body_lines_range[OF "2.prems" b refl] have a: "lx_at l \<le> a" "a \<le> length (lx_chars l)" by auto
  from "2.IH"[OF refl b[symmetric] refl refl] a b show ?case by (auto simp: Let_def)
qed simp

text \<open>What a branch may do to the position: stay within the text and not go back.\<close>

definition moves :: "lexer \<Rightarrow> lexer \<Rightarrow> bool" where
  "moves l l' \<longleftrightarrow> lx_chars l' = lx_chars l \<and>
     (lx_at l \<le> length (lx_chars l) \<longrightarrow> lx_at l \<le> lx_at l' \<and> lx_at l' \<le> length (lx_chars l))"

lemma do_escaped_moves: "moves l (do_escaped i l)"
  by (auto simp: moves_def do_escaped_def peek_def Let_def split: option.splits if_splits)

lemma do_single_moves: "moves l (do_single i l)"
  using single_quoted_range[of "lx_at l" "lx_chars l"]
  by (auto simp: moves_def do_single_def split: prod.splits)

lemma do_double_moves: "lx_at l + k \<le> length (lx_chars l) \<Longrightarrow> moves l (do_double i k l)"
  using double_quoted_forward[of "lx_at l + k" "lx_chars l" "[]" "lx_word_dynamic (begin_word i l)"]
  by (auto simp: moves_def do_double_def forward_def Let_def split: prod.splits)

lemma do_ansi_moves: "lx_at l + 1 \<le> length (lx_chars l) \<Longrightarrow> moves l (do_ansi i l)"
  using ansi_raw_forward[of "lx_at l + 1" "lx_chars l" "[]"]
  by (auto simp: moves_def do_ansi_def ansi_quoted_def forward_def Let_def split: prod.splits)

lemma do_arithmetic_moves: "moves l (do_arithmetic i l)"
  using substitution_range[of "lx_at l" "lx_chars l"]
  by (auto simp: moves_def do_arithmetic_def Let_def split: prod.splits)

lemma do_dollar_moves: "moves l (do_dollar i l)"
  by (simp add: moves_def do_dollar_def)

lemma do_here_string_moves: "lx_at l + 2 \<le> length (lx_chars l) \<Longrightarrow> moves l (do_here_string i l)"
  by (simp add: moves_def do_here_string_def Let_def)

lemma read_heredoc_moves:
  assumes "lx_at l + 1 \<le> length (lx_chars l)" shows "moves l (read_heredoc l)"
proof -
  let ?cs = "lx_chars l" let ?a = "if looking_at (lx_chars l) (lx_at l + 1) (lit ''-'') then lx_at l + 1 + 1 else lx_at l + 1"
  have "?a \<le> length ?cs"
    using assms looking_at_length[of ?cs "lx_at l + 1" "lit ''-''"] by auto
  from delimiter_range[OF this] show ?thesis
    unfolding moves_def read_heredoc_def Let_def by (auto split: prod.splits)
qed

lemma do_pipe_moves: "moves l (do_pipe l)"
  using looking_at_length[of "lx_chars l" "lx_at l" "lit ''&''"]
  by (auto simp: moves_def do_pipe_def Let_def)

lemma do_separator_moves: "moves l (do_separator c i l)"
  by (simp add: moves_def do_separator_def Let_def)

lemma read_heredoc_bodies_moves: "moves l (read_heredoc_bodies l)"
  using read_bodies_at[of "l\<lparr>lx_opened := []\<rparr>"] by (simp add: moves_def read_heredoc_bodies_def)

lemma moves_same: "moves k l' \<Longrightarrow> lx_chars k = lx_chars l \<Longrightarrow> lx_at k = lx_at l \<Longrightarrow> moves l l'"
  by (simp add: moves_def)

lemma moves_if: "(P \<Longrightarrow> moves l x) \<Longrightarrow> (\<not> P \<Longrightarrow> moves l y) \<Longrightarrow> moves l (if P then x else y)"
  by simp

lemma do_newline_moves: "moves l (do_newline c i l)"
  unfolding do_newline_def Let_def
  by (rule moves_if, simp add: moves_def, rule moves_same[OF read_heredoc_bodies_moves]) simp_all

lemma end_word_moves: "moves l (end_word l)"
  by (simp add: moves_def)

lemma step_moves:
  assumes "lx_at l < length (lx_chars l)"
  shows "lx_chars (lex_step l) = lx_chars l" "lx_at l < lx_at (lex_step l)" "lx_at (lex_step l) \<le> length (lx_chars l)"
proof -
  let ?l = "l\<lparr>lx_at := lx_at l + 1\<rparr>" let ?cs = "lx_chars l" let ?a = "lx_at l + 1"
  have a: "?a \<le> length ?cs" using assms by simp
  have quote: "looking_at ?cs ?a [c] \<Longrightarrow> ?a + 1 \<le> length ?cs" for c
    using looking_at_length[of ?cs ?a "[c]"] a by simp
  have two: "looking_at ?cs ?a (lit ''<<'') \<Longrightarrow> ?a + 2 \<le> length ?cs"
    "looking_at ?cs ?a (lit ''<'') \<Longrightarrow> ?a + 1 \<le> length ?cs"
    using looking_at_length[of ?cs ?a "lit ''<<''"] looking_at_length[of ?cs ?a "lit ''<''"] a by auto
  have comment: "moves ?l (?l\<lparr>lx_at := skip_comment ?cs ?a\<rparr>)"
    using skip_comment_range[OF a] by (simp add: moves_def)
  have heredoc: "looking_at ?cs ?a (lit ''<'') \<Longrightarrow> moves ?l (read_heredoc (end_word ?l))"
    by (rule moves_same[OF read_heredoc_moves]) (use two(2) in simp_all)
  have end_moves: "moves ?l k \<Longrightarrow> moves ?l (if lx_word k \<noteq> None then k\<lparr>lx_word_end := lx_at k\<rparr> else k)" for k
    by (simp add: moves_def)
  have "moves ?l (lex_step l)"
    unfolding lex_step_def Let_def
    apply (rule end_moves)
    apply (rule moves_if, rule do_single_moves)
    apply (rule moves_if, rule do_double_moves, use a in simp)
    apply (rule moves_if, rule do_escaped_moves)
    apply (rule moves_if, rule do_ansi_moves, use quote[of 39] in simp)
    apply (rule moves_if, rule do_double_moves, use quote[of 34] in simp)
    apply (rule moves_if, rule do_arithmetic_moves)
    apply (rule moves_if, rule do_dollar_moves)
    apply (rule moves_if, rule comment)
    apply (rule moves_if, rule do_here_string_moves, use two(1) in simp)
    apply (rule moves_if, rule heredoc, simp)
    apply (rule moves_if, rule do_pipe_moves)
    apply (rule moves_if, rule do_separator_moves)
    apply (rule moves_if, rule do_newline_moves)
    apply (rule moves_if, rule end_word_moves)
    apply (simp add: moves_def)
    done
  with a show "lx_chars (lex_step l) = lx_chars l" "lx_at l < lx_at (lex_step l)" "lx_at (lex_step l) \<le> length (lx_chars l)"
    by (auto simp: moves_def)
qed

function run_lexer :: "lexer \<Rightarrow> lexer" where
  "run_lexer l = (if \<not> lx_at l < length (lx_chars l) then end_command l else run_lexer (lex_step l))"
  by pat_completeness auto
termination
  by (relation "measure (\<lambda>l. length (lx_chars l) - lx_at l)") (auto simp: step_moves intro: diff_less_mono2)

declare run_lexer.simps [simp del]

definition commands :: "str \<Rightarrow> command list" where
  "commands t = lx_commands (run_lexer (new_lexer t))"

definition simple_commands :: "str \<Rightarrow> str list list" where
  "simple_commands t = map cm_words (commands t)"

end
