(* ===== verification/Shell_Reads.thy ===== *)
theory Shell_Reads
  imports Shell_Lexer
begin

text \<open>
  What the reader of shell lines guarantees on every text: no index out of range, the end of the
  text is reached, every command has words, each word has a span, and the spans stand in the
  order of the text without overlapping.
\<close>

section \<open>The promise\<close>

definition command_ok :: "str \<Rightarrow> command \<Rightarrow> bool" where
  "command_ok t cm \<longleftrightarrow> cm_words cm \<noteq> [] \<and> length (cm_spans cm) = length (cm_words cm) \<and>
     list_all (\<lambda>h. fst (hd_body h) \<le> snd (hd_body h) \<and> snd (hd_body h) \<le> length t) (cm_heredocs cm) \<and>
     (cm_depth cm = 0 \<longleftrightarrow> cm_group cm = 0) \<and>
     (case cm_line_end cm of None \<Rightarrow> True
      | Some i \<Rightarrow> i < length t \<and> t ! i = 10 \<and> list_all (\<lambda>s. sp_end s \<le> i) (cm_spans cm))"

definition spans_ok :: "nat \<Rightarrow> span list \<Rightarrow> bool" where
  "spans_ok b ss \<longleftrightarrow> sorted_wrt (\<lambda>s u. sp_end s \<le> sp_start u) ss \<and>
     list_all (\<lambda>s. sp_start s < sp_end s \<and> sp_end s \<le> b) ss"

definition reads_well :: "str \<Rightarrow> command list \<Rightarrow> bool" where
  "reads_well t cmds \<longleftrightarrow> list_all (command_ok t) cmds \<and> spans_ok (length t) (concat (map cm_spans cmds))"

section \<open>The invariant of the loop\<close>

definition all_spans :: "lexer \<Rightarrow> span list" where
  "all_spans l = concat (map cm_spans (lx_commands l)) @ lx_spans l"

definition core :: "lexer \<Rightarrow> bool" where
  "core l \<longleftrightarrow> \<not> lx_panic l \<and> lx_line_first l \<le> length (lx_commands l) \<and>
     list_all (\<lambda>i. i < length (lx_opened l)) (lx_opened_here l) \<and> length (lx_spans l) = length (lx_words l) \<and>
     list_all (command_ok (lx_chars l)) (lx_commands l) \<and> 0 \<notin> set (lx_groups l)"

text \<open>At the start of a turn at position \<open>p\<close>, and at its end before \<^verbatim>\<open>word_end\<close> is set.\<close>

definition at_turn :: "nat \<Rightarrow> lexer \<Rightarrow> bool" where
  "at_turn p l \<longleftrightarrow> core l \<and> p \<le> length (lx_chars l) \<and>
     spans_ok (if lx_word l = None then p else lx_word_start l) (all_spans l) \<and>
     (lx_word l \<noteq> None \<longrightarrow> lx_word_start l < lx_word_end l \<and> lx_word_end l \<le> p)"

definition turned :: "lexer \<Rightarrow> bool" where
  "turned l \<longleftrightarrow> core l \<and> lx_at l \<le> length (lx_chars l) \<and>
     spans_ok (if lx_word l = None then lx_at l else lx_word_start l) (all_spans l) \<and>
     (lx_word l \<noteq> None \<longrightarrow> lx_word_start l < lx_at l)"

lemma spans_ok_mono: "spans_ok b ss \<Longrightarrow> b \<le> c \<Longrightarrow> spans_ok c ss"
  by (auto simp: spans_ok_def list_all_iff)

lemma spans_ok_snoc:
  "spans_ok b ss \<Longrightarrow> b \<le> sp_start s \<Longrightarrow> sp_start s < sp_end s \<Longrightarrow> sp_end s \<le> c \<Longrightarrow> spans_ok c (ss @ [s])"
  by (force simp: spans_ok_def list_all_iff sorted_wrt_append)

lemma turned_finish: "turned l \<Longrightarrow> at_turn (lx_at l) (if lx_word l \<noteq> None then l\<lparr>lx_word_end := lx_at l\<rparr> else l)"
  by (auto simp: turned_def at_turn_def core_def all_spans_def)

lemma at_turn_end_word: "at_turn p l \<Longrightarrow> at_turn p (end_word l) \<and> lx_word (end_word l) = None"
  by (auto simp: at_turn_def end_word_def core_def all_spans_def split: option.splits
      simp flip: append_assoc intro!: spans_ok_snoc)

lemma length_own [simp]: "length (own n here os) = length os"
  by (induction n here os rule: own.induct) auto

lemma last_pos: "gs \<noteq> [] \<Longrightarrow> 0 \<notin> set gs \<Longrightarrow> 0 < last (gs :: nat list)"
  by (metis last_in_set neq0_conv)

lemma at_turn_end_command:
  assumes "at_turn p l"
  shows "at_turn p (end_command l) \<and> lx_word (end_command l) = None"
proof -
  from at_turn_end_word[OF assms] have "at_turn p (end_word l)" by simp
  then show ?thesis
    by (auto simp: end_command_def Let_def at_turn_def core_def all_spans_def command_ok_def
        intro: last_pos)
qed

lemma at_turn_turned: "at_turn p l \<Longrightarrow> lx_word l = None \<Longrightarrow> p \<le> lx_at l \<Longrightarrow> lx_at l \<le> length (lx_chars l) \<Longrightarrow> turned l"
  by (auto simp: at_turn_def turned_def intro: spans_ok_mono)

lemma at_turn_stays: "at_turn p l \<Longrightarrow> p < lx_at l \<Longrightarrow> lx_at l \<le> length (lx_chars l) \<Longrightarrow> turned l"
  by (auto simp: at_turn_def turned_def intro: spans_ok_mono)

text \<open>Starting a word, or carrying on the one that is being read.\<close>

lemma begin_turned: "at_turn p l \<Longrightarrow> p < lx_at l \<Longrightarrow> lx_at l \<le> length (lx_chars l) \<Longrightarrow> turned (begin_word p l)"
  by (auto simp: at_turn_def turned_def begin_word_def core_def all_spans_def)

lemma push_turned: "turned l \<Longrightarrow> lx_word l \<noteq> None \<Longrightarrow> turned (push_str t l)"
  by (auto simp: turned_def push_str_def core_def all_spans_def)

lemma on_turned: "turned l \<Longrightarrow> lx_word l \<noteq> None \<Longrightarrow> lx_at l \<le> a \<Longrightarrow> a \<le> length (lx_chars l) \<Longrightarrow>
    turned (l\<lparr>lx_at := a, lx_word_dynamic := d\<rparr>) \<and> turned (l\<lparr>lx_at := a\<rparr>) \<and> turned (l\<lparr>lx_word_dynamic := d\<rparr>)"
  by (auto simp: turned_def core_def all_spans_def)

lemma at_turn_at [simp]: "at_turn p (l\<lparr>lx_at := a\<rparr>) = at_turn p l"
  by (simp add: at_turn_def core_def all_spans_def)

section \<open>The branches\<close>

text \<open>Within a turn: the character at \<open>p\<close> has been taken.\<close>

definition in_turn :: "nat \<Rightarrow> lexer \<Rightarrow> bool" where
  "in_turn p l \<longleftrightarrow> at_turn p l \<and> p < lx_at l \<and> lx_at l \<le> length (lx_chars l)"

lemma begin_word_Some [simp]: "\<exists>w. lx_word (begin_word i l) = Some w"
  by (auto simp: begin_word_def)

lemma in_turn_end_word: "in_turn p l \<Longrightarrow> in_turn p (end_word l)"
  by (simp add: in_turn_def at_turn_end_word)

lemma in_turn_end_command: "in_turn p l \<Longrightarrow> in_turn p (end_command l)"
  by (simp add: in_turn_def at_turn_end_command)

lemma in_turn_on: "in_turn p l \<Longrightarrow> lx_at l \<le> a \<Longrightarrow> a \<le> length (lx_chars l) \<Longrightarrow> in_turn p (l\<lparr>lx_at := a\<rparr>)"
  by (simp add: in_turn_def)

lemma in_turn_turned: "in_turn p l \<Longrightarrow> turned l"
  by (auto simp: in_turn_def intro: at_turn_stays)

lemma in_turn_begin: "in_turn p l \<Longrightarrow> turned (begin_word p l)"
  by (simp add: in_turn_def begin_turned)

text \<open>A branch that reads a piece of a word: what it reads and where it ends up.\<close>

lemma piece_turned:
  assumes "in_turn p l" "lx_at l \<le> a" "a \<le> length (lx_chars l)"
  shows "turned (push_str t ((begin_word p l)\<lparr>lx_at := a\<rparr>))"
    "turned (push_str t ((begin_word p l)\<lparr>lx_at := a, lx_word_dynamic := d\<rparr>))"
    "turned (push_str t ((begin_word p l)\<lparr>lx_word_dynamic := d, lx_at := a\<rparr>))"
    "turned (push_str t ((begin_word p l)\<lparr>lx_word_dynamic := d\<rparr>))"
  using in_turn_begin[OF assms(1)] assms(2,3) on_turned[of "begin_word p l" a d]
    on_turned[of "(begin_word p l)\<lparr>lx_word_dynamic := d\<rparr>" a d]
  by (auto intro!: push_turned)

lemma char_turned: "in_turn p l \<Longrightarrow> turned (push_str t (begin_word p l))"
  by (intro push_turned in_turn_begin) (simp_all)

lemma do_single_turned: "in_turn p l \<Longrightarrow> turned (do_single p l)"
  using single_quoted_range[of "lx_at l" "lx_chars l"]
  by (auto simp: do_single_def Let_def in_turn_def split: prod.splits intro!: piece_turned)

lemma do_double_turned: "in_turn p l \<Longrightarrow> lx_at l + k \<le> length (lx_chars l) \<Longrightarrow> turned (do_double p k l)"
  using double_quoted_forward[of "lx_at l + k" "lx_chars l" "[]" "lx_word_dynamic (begin_word p l)"]
  by (auto simp: do_double_def Let_def in_turn_def forward_def split: prod.splits intro!: piece_turned)

lemma do_escaped_turned: "in_turn p l \<Longrightarrow> turned (do_escaped p l)"
  using in_turn_on[of p l "lx_at l + 1"]
  by (auto simp: do_escaped_def peek_def Let_def intro: in_turn_turned char_turned)

lemma do_ansi_turned: "in_turn p l \<Longrightarrow> lx_at l + 1 \<le> length (lx_chars l) \<Longrightarrow> turned (do_ansi p l)"
  using ansi_raw_forward[of "lx_at l + 1" "lx_chars l" "[]"]
  by (auto simp: do_ansi_def ansi_quoted_def Let_def in_turn_def forward_def split: prod.splits intro!: piece_turned)

lemma do_arithmetic_turned: "in_turn p l \<Longrightarrow> turned (do_arithmetic p l)"
  using substitution_range[of "lx_at l" "lx_chars l"]
  by (auto simp: do_arithmetic_def Let_def in_turn_def split: prod.splits intro!: piece_turned)

lemma do_dollar_turned: "in_turn p l \<Longrightarrow> turned (do_dollar p l)"
  using piece_turned(4)[of p l "lx_at l" "[36]" True] by (auto simp: do_dollar_def in_turn_def)

lemma do_here_string_turned:
  assumes "in_turn p l" "lx_at l + 2 \<le> length (lx_chars l)"
  shows "turned (do_here_string p l)"
proof -
  let ?k = "push_str (lit ''<<<'') ((begin_word p (end_word l))\<lparr>lx_at := lx_at l + 2\<rparr>)"
  from assms have "turned ?k"
    by (intro piece_turned) (auto intro: in_turn_end_word)
  then have "at_turn (lx_at ?k) (?k\<lparr>lx_word_end := lx_at ?k\<rparr>)"
    using turned_finish[of ?k] by (simp del: not_None_eq)
  from at_turn_end_word[OF this] have "at_turn (lx_at ?k) (end_word (?k\<lparr>lx_word_end := lx_at ?k\<rparr>))"
    "lx_word (end_word (?k\<lparr>lx_word_end := lx_at ?k\<rparr>)) = None" by blast+
  from at_turn_turned[OF this] assms(2) show ?thesis
    by (simp add: do_here_string_def Let_def)
qed

lemma read_heredoc_turned:
  assumes "in_turn p l" "lx_at l + 1 \<le> length (lx_chars l)"
  shows "turned (read_heredoc l)"
proof -
  have "moves l (read_heredoc l)" by (rule read_heredoc_moves[OF assms(2)])
  then have "lx_at l \<le> lx_at (read_heredoc l)" "lx_at (read_heredoc l) \<le> length (lx_chars l)"
    using assms(1) by (auto simp: moves_def in_turn_def)
  moreover have "at_turn p (read_heredoc l)"
    using assms(1)
    by (auto simp: read_heredoc_def Let_def in_turn_def at_turn_def core_def all_spans_def list_all_iff split: prod.splits)
  ultimately have "in_turn p (read_heredoc l)"
    using assms(1) \<open>moves l (read_heredoc l)\<close> by (auto simp: in_turn_def moves_def)
  then show ?thesis by (rule in_turn_turned)
qed

lemma turned_flags: "turned (k\<lparr>lx_piped_next := a, lx_joined_next := b\<rparr>) = turned k"
  by (simp add: turned_def core_def all_spans_def)

lemma do_pipe_turned: "in_turn p l \<Longrightarrow> turned (do_pipe l)"
proof -
  assume l: "in_turn p l"
  let ?k = "if looking_at (lx_chars l) (lx_at l) (lit ''&'') then l\<lparr>lx_at := lx_at l + 1\<rparr> else l"
  have "in_turn p ?k"
    using l looking_at_length[of "lx_chars l" "lx_at l" "lit ''&''"] by (auto intro: in_turn_on)
  from in_turn_turned[OF in_turn_end_command[OF this]] show ?thesis
    unfolding do_pipe_def Let_def turned_flags .
qed

lemma turned_groups:
  assumes "turned k" "0 \<notin> set (lx_groups k')"
    "lx_chars k' = lx_chars k" "lx_at k' = lx_at k" "lx_commands k' = lx_commands k" "lx_words k' = lx_words k"
    "lx_spans k' = lx_spans k" "lx_word k' = lx_word k" "lx_word_start k' = lx_word_start k"
    "lx_opened k' = lx_opened k" "lx_opened_here k' = lx_opened_here k" "lx_line_first k' = lx_line_first k"
    "lx_panic k' = lx_panic k"
  shows "turned k'"
  using assms by (cases "lx_word k") (auto simp: turned_def core_def all_spans_def)

lemma regroup_turned:
  assumes "turned k" "0 \<notin> set (lx_groups k)"
  shows "turned (let l = k\<lparr>lx_piped_next := False, lx_joined_next := False\<rparr> in
         if c = 40 then l\<lparr>lx_groups_opened := lx_groups_opened l + 1,
                         lx_groups := lx_groups l @ [lx_groups_opened l + 1],
                         lx_substitution_groups := lx_substitution_groups l @ [opens]\<rparr>
         else if c = 41 then l\<lparr>lx_groups := pop (lx_groups l),
                 lx_joined_next := (lx_substitution_groups l \<noteq> [] \<and> last (lx_substitution_groups l)),
                 lx_substitution_groups := pop (lx_substitution_groups l)\<rparr>
         else if c = 96 then l\<lparr>lx_in_backtick := \<not> lx_in_backtick l, lx_joined_next := lx_in_backtick l\<rparr>
         else l)"
  by (rule turned_groups[OF assms(1)])
     (use assms(2) in \<open>auto simp: Let_def pop_def dest: in_set_butlastD\<close>)

lemma do_separator_turned: "in_turn p l \<Longrightarrow> turned (do_separator c p l)"
proof -
  assume l: "in_turn p l"
  have upd: "in_turn p k \<Longrightarrow> in_turn p (k\<lparr>lx_word_dynamic := d\<rparr>) \<and> in_turn p (k\<lparr>lx_opens_next := e\<rparr>)" for k d e
    by (cases "lx_word k") (auto simp: in_turn_def at_turn_def core_def all_spans_def)
  let ?k = "if c = 96 \<and> lx_word l \<noteq> None then l\<lparr>lx_word_dynamic := True\<rparr> else l"
  have k: "in_turn p ?k" using l upd by simp
  have "turned (end_command (?k\<lparr>lx_opens_next := e\<rparr>))" for e
    by (rule in_turn_turned[OF in_turn_end_command]) (use upd[OF k] in blast)
  moreover have "0 \<notin> set (lx_groups (end_command (?k\<lparr>lx_opens_next := e\<rparr>)))" for e
    using l by (simp add: in_turn_def at_turn_def core_def)
  ultimately show ?thesis
    unfolding do_separator_def Let_def by (rule regroup_turned[unfolded Let_def])
qed

lemma command_ok_add_heredoc:
  assumes "list_all (command_ok t) cmds" "fst (hd_body h) \<le> snd (hd_body h)" "snd (hd_body h) \<le> length t"
  shows "list_all (command_ok t) (add_heredoc owner h cmds)"
proof -
  have "command_ok t (cm\<lparr>cm_heredocs := cm_heredocs cm @ [h]\<rparr>)" if "command_ok t cm" for cm
    using that assms(2,3) by (auto simp: command_ok_def split: option.splits)
  with assms(1) show ?thesis
    by (auto simp: add_heredoc_def list_all_iff split: option.splits dest!: set_update_subset_insert[THEN subsetD])
qed

lemma spans_add_heredoc [simp]: "map cm_spans (add_heredoc owner h cmds) = map cm_spans cmds"
  by (auto simp: add_heredoc_def map_update split: option.splits intro: list_update_same_conv[THEN iffD2])

lemma length_add_heredoc [simp]: "length (add_heredoc owner h cmds) = length cmds"
  by (auto simp: add_heredoc_def split: option.splits)

lemma read_bodies_keep:
  assumes "list_all (command_ok (lx_chars l)) (lx_commands l)" "lx_at l \<le> length (lx_chars l)"
  shows "list_all (command_ok (lx_chars l)) (lx_commands (read_bodies ops l))
    \<and> map cm_spans (lx_commands (read_bodies ops l)) = map cm_spans (lx_commands l)
    \<and> length (lx_commands (read_bodies ops l)) = length (lx_commands l)"
  using assms
proof (induction ops l rule: read_bodies.induct)
  case (2 op ops l)
  obtain t e a where b: "body_lines (lx_chars l) (lx_at l) (op_delimiter op) (op_strip_tabs op) [] (lx_at l) = (t, e, a)"
    by (metis prod_cases3)
  from body_lines_range[OF "2.prems"(2) b refl] have a: "lx_at l \<le> e" "e \<le> a" "a \<le> length (lx_chars l)" by auto
  let ?h = "\<lparr>hd_delimiter = op_delimiter op, hd_quoted = op_quoted op, hd_strip_tabs = op_strip_tabs op,
               hd_text = t, hd_body = (lx_at l, e)\<rparr>"
  have "list_all (command_ok (lx_chars l)) (add_heredoc (op_owner op) ?h (lx_commands l))"
    by (rule command_ok_add_heredoc) (use "2.prems"(1) a in auto)
  with "2.IH"[OF refl b[symmetric] refl refl] a(3) b show ?case by (auto simp: Let_def)
qed simp

lemma read_heredoc_bodies_turned:
  assumes "at_turn p l" "lx_word l = None" "lx_opened_here l = []" "p \<le> lx_at l" "lx_at l \<le> length (lx_chars l)"
  shows "turned (read_heredoc_bodies l)"
proof -
  let ?k = "l\<lparr>lx_opened := []\<rparr>"
  have "at_turn p ?k" using assms(1,3) by (auto simp: at_turn_def core_def all_spans_def)
  then have "at_turn p (read_heredoc_bodies l)"
    using read_bodies_keep[of ?k "lx_opened l"] assms(2,5)
    by (simp add: at_turn_def core_def all_spans_def read_heredoc_bodies_def)
  moreover have "p \<le> lx_at (read_heredoc_bodies l)" "lx_at (read_heredoc_bodies l) \<le> length (lx_chars (read_heredoc_bodies l))"
    using read_heredoc_bodies_moves[of l] assms(4,5) by (auto simp: moves_def)
  moreover have "lx_word (read_heredoc_bodies l) = None" using assms(2) by (simp add: read_heredoc_bodies_def)
  ultimately show ?thesis using at_turn_turned by blast
qed

lemma set_line_end:
  assumes "list_all (command_ok t) cmds" "spans_ok p (concat (map cm_spans cmds))" "p < length t" "t ! p = 10"
  shows "list_all (command_ok t) (take n cmds @ map (\<lambda>cm. cm\<lparr>cm_line_end := Some p\<rparr>) (drop n cmds))"
  using assms by (auto simp: list_all_iff command_ok_def spans_ok_def dest: in_set_takeD in_set_dropD)

lemma map_take_drop_map: "(\<And>x. f (g x) = f x) \<Longrightarrow> map f (take n xs @ map g (drop n xs)) = map f xs"
  by (simp add: comp_def flip: take_map drop_map)

lemma do_newline_turned: "in_turn p l \<Longrightarrow> lx_chars l ! p = c \<Longrightarrow> turned (do_newline c p l)"
proof -
  assume l: "in_turn p l" and c: "lx_chars l ! p = c"
  let ?e = "(end_command l)\<lparr>lx_joined_next := False\<rparr>"
  have e: "in_turn p ?e" using in_turn_end_command[OF l] by (auto simp: in_turn_def at_turn_def core_def all_spans_def)
  let ?n = "lx_line_first ?e" let ?cmds = "lx_commands ?e"
  let ?k = "?e\<lparr>lx_panic := lx_panic ?e \<or> ?n > length ?cmds,
      lx_commands := take ?n ?cmds @ map (\<lambda>cm. cm\<lparr>cm_line_end := Some p\<rparr>) (drop ?n ?cmds),
      lx_line_first := length ?cmds\<rparr>"
  have "turned (read_heredoc_bodies ?k)" if "c = 10"
  proof (rule read_heredoc_bodies_turned[of p])
    have e': "at_turn p ?e" and p: "p < length (lx_chars l)" using e by (auto simp: in_turn_def)
    then have core: "core ?e" and spans: "spans_ok p (all_spans ?e)" by (auto simp: at_turn_def)
    from spans have "spans_ok p (concat (map cm_spans ?cmds))"
      by (simp add: all_spans_def spans_ok_def sorted_wrt_append)
    moreover from core have "list_all (command_ok (lx_chars l)) ?cmds" by (simp add: core_def)
    ultimately have "list_all (command_ok (lx_chars l)) (lx_commands ?k)"
      using set_line_end p c that by simp
    moreover have "map cm_spans (lx_commands ?k) = map cm_spans ?cmds"
      by (simp add: map_take_drop_map del: map_append)
    moreover have "length (lx_commands ?k) = length ?cmds" by simp
    ultimately show "at_turn p ?k"
      using e' core spans by (simp add: at_turn_def core_def all_spans_def del: map_append)
  qed (use e in \<open>auto simp: in_turn_def\<close>)
  then show ?thesis
    using in_turn_turned[OF e] by (simp add: do_newline_def Let_def)
qed

section \<open>The loop\<close>

lemma turned_if: "(P \<Longrightarrow> turned x) \<Longrightarrow> (\<not> P \<Longrightarrow> turned y) \<Longrightarrow> turned (if P then x else y)"
  by simp

lemma step_turn:
  assumes "at_turn (lx_at l) l" "lx_at l < length (lx_chars l)"
  shows "at_turn (lx_at (lex_step l)) (lex_step l)"
proof -
  let ?p = "lx_at l" let ?l = "l\<lparr>lx_at := lx_at l + 1\<rparr>" let ?cs = "lx_chars l" let ?a = "lx_at l + 1"
  have l: "in_turn ?p ?l" using assms by (simp add: in_turn_def)
  have a: "?a \<le> length ?cs" using assms(2) by simp
  have quote: "looking_at ?cs ?a [c] \<Longrightarrow> ?a + 1 \<le> length ?cs" for c
    using looking_at_length[of ?cs ?a "[c]"] a by simp
  have two: "looking_at ?cs ?a (lit ''<<'') \<Longrightarrow> ?a + 2 \<le> length ?cs"
    "looking_at ?cs ?a (lit ''<'') \<Longrightarrow> ?a + 1 \<le> length ?cs"
    using looking_at_length[of ?cs ?a "lit ''<<''"] looking_at_length[of ?cs ?a "lit ''<''"] a by auto
  have comment: "turned (?l\<lparr>lx_at := skip_comment ?cs ?a\<rparr>)"
    by (rule in_turn_turned[OF in_turn_on[OF l]]) (use skip_comment_range[OF a] in simp_all)
  have heredoc: "looking_at ?cs ?a (lit ''<'') \<Longrightarrow> turned (read_heredoc (end_word ?l))"
    by (rule read_heredoc_turned[OF in_turn_end_word[OF l]]) (use two(2) in simp)
  have finish: "turned k \<Longrightarrow> at_turn (lx_at (if lx_word k \<noteq> None then k\<lparr>lx_word_end := lx_at k\<rparr> else k))
      (if lx_word k \<noteq> None then k\<lparr>lx_word_end := lx_at k\<rparr> else k)" for k
    using turned_finish[of k] by (cases "lx_word k") simp_all
  show ?thesis
    unfolding lex_step_def Let_def
    apply (rule finish)
    apply (rule turned_if, rule do_single_turned[OF l])
    apply (rule turned_if, rule do_double_turned[OF l], use a in simp)
    apply (rule turned_if, rule do_escaped_turned[OF l])
    apply (rule turned_if, rule do_ansi_turned[OF l], use quote[of 39] in simp)
    apply (rule turned_if, rule do_double_turned[OF l], use quote[of 34] in simp)
    apply (rule turned_if, rule do_arithmetic_turned[OF l])
    apply (rule turned_if, rule do_dollar_turned[OF l])
    apply (rule turned_if, rule comment)
    apply (rule turned_if, rule do_here_string_turned[OF l], use two(1) in simp)
    apply (rule turned_if, rule heredoc, simp)
    apply (rule turned_if, rule do_pipe_turned[OF l])
    apply (rule turned_if, rule do_separator_turned[OF l])
    apply (rule turned_if, rule do_newline_turned[OF l], simp)
    apply (rule turned_if, rule in_turn_turned[OF in_turn_end_word[OF l]])
    apply (rule char_turned[OF l])
    done
qed

lemma run_lexer_inv:
  "at_turn (lx_at l) l \<Longrightarrow> lx_at l \<le> length (lx_chars l) \<Longrightarrow>
     at_turn (length (lx_chars l)) (run_lexer l) \<and> lx_word (run_lexer l) = None \<and> lx_words (run_lexer l) = []
       \<and> lx_at (run_lexer l) = length (lx_chars l) \<and> lx_chars (run_lexer l) = lx_chars l"
proof (induction l rule: run_lexer.induct)
  case (1 l)
  show ?case
  proof (cases "lx_at l < length (lx_chars l)")
    case True
    with "1.IH" step_turn[OF "1.prems"(1) True] step_moves[OF True] show ?thesis
      by (subst (1 2 3 4 5) run_lexer.simps) simp
  next
    case False
    with "1.prems" have "lx_at l = length (lx_chars l)" by simp
    with False at_turn_end_command[OF "1.prems"(1)] show ?thesis
      by (subst (1 2 3 4 5) run_lexer.simps) simp
  qed
qed

lemma new_lexer_turn: "at_turn 0 (new_lexer t)"
  by (simp add: new_lexer_def at_turn_def core_def all_spans_def spans_ok_def)

lemma run_new_lexer:
  "at_turn (length t) (run_lexer (new_lexer t)) \<and> lx_words (run_lexer (new_lexer t)) = []
     \<and> lx_at (run_lexer (new_lexer t)) = length t \<and> lx_chars (run_lexer (new_lexer t)) = t
     \<and> lx_word (run_lexer (new_lexer t)) = None"
  using run_lexer_inv[of "new_lexer t"] new_lexer_turn[of t] by (simp add: new_lexer_def)


text \<open>
  C37. The reader reaches the end of every text: its loop stops exactly at the last character,
  with no word left over.
\<close>

theorem shell_reader_ends:
  "lx_at (run_lexer (new_lexer t)) = length t \<and> lx_word (run_lexer (new_lexer t)) = None
     \<and> lx_words (run_lexer (new_lexer t)) = []"
  using run_new_lexer[of t] by blast

end
