(* ===== verification/Shell_Spelling.thy ===== *)
theory Shell_Spelling
  imports Shell_Reads
begin

text \<open>
  Words of a shell line as a person may write them: bare characters, backslashes, single and
  double quotes in any mix. \<open>spell\<close> is the text of a word and \<open>meaning\<close> the word it stands for.
  The reader of \<^verbatim>\<open>shell.rs\<close> recovers the meaning of every line spelled this way and the place
  of each word in the text, so quoting round-trips and a word can be rewritten in place.
\<close>

section \<open>Spellings\<close>

datatype quoted_piece = QChar rchar | QEscape rchar | QKeep rchar | QDollar rchar

datatype piece = Bare rchar | Dollar rchar | Backslash rchar | Single str | Double "quoted_piece list"

definition is_bare :: "rchar \<Rightarrow> bool" where
  "is_bare c \<longleftrightarrow> \<not> is_whitespace c \<and> c \<notin> {39, 34, 92, 36, 35, 60, 124, 96, 59, 38, 40, 41}"

fun qok :: "quoted_piece \<Rightarrow> bool" where
  "qok (QChar c) \<longleftrightarrow> c \<notin> {34, 92, 36}"
| "qok (QEscape c) \<longleftrightarrow> c \<in> {34, 92, 36, 96}"
| "qok (QKeep c) \<longleftrightarrow> c \<notin> {34, 92, 36, 96, 10}"
| "qok (QDollar c) \<longleftrightarrow> c \<notin> {34, 92, 36, 40}"

fun qsource :: "quoted_piece \<Rightarrow> str" where
  "qsource (QChar c) = [c]"
| "qsource (QEscape c) = [92, c]"
| "qsource (QKeep c) = [92, c]"
| "qsource (QDollar c) = [36, c]"

fun qvalue :: "quoted_piece \<Rightarrow> str" where
  "qvalue (QChar c) = [c]"
| "qvalue (QEscape c) = [c]"
| "qvalue (QKeep c) = [92, c]"
| "qvalue (QDollar c) = [36, c]"

fun qdynamic :: "quoted_piece \<Rightarrow> bool" where
  "qdynamic (QChar c) \<longleftrightarrow> c = 96"
| "qdynamic (QEscape c) \<longleftrightarrow> False"
| "qdynamic (QKeep c) \<longleftrightarrow> False"
| "qdynamic (QDollar c) \<longleftrightarrow> True"

fun piece_ok :: "piece \<Rightarrow> bool" where
  "piece_ok (Bare c) \<longleftrightarrow> is_bare c"
| "piece_ok (Dollar c) \<longleftrightarrow> is_bare c"
| "piece_ok (Backslash c) \<longleftrightarrow> c \<noteq> 10"
| "piece_ok (Single t) \<longleftrightarrow> 39 \<notin> set t"
| "piece_ok (Double qs) \<longleftrightarrow> list_all qok qs"

fun source :: "piece \<Rightarrow> str" where
  "source (Bare c) = [c]"
| "source (Dollar c) = [36, c]"
| "source (Backslash c) = [92, c]"
| "source (Single t) = 39 # t @ [39]"
| "source (Double qs) = 34 # concat (map qsource qs) @ [34]"

fun value_of :: "piece \<Rightarrow> str" where
  "value_of (Bare c) = [c]"
| "value_of (Dollar c) = [36, c]"
| "value_of (Backslash c) = [c]"
| "value_of (Single t) = t"
| "value_of (Double qs) = concat (map qvalue qs)"

fun dynamic :: "piece \<Rightarrow> bool" where
  "dynamic (Bare c) \<longleftrightarrow> False"
| "dynamic (Dollar c) \<longleftrightarrow> True"
| "dynamic (Backslash c) \<longleftrightarrow> False"
| "dynamic (Single t) \<longleftrightarrow> False"
| "dynamic (Double qs) \<longleftrightarrow> list_ex qdynamic qs"

definition spell :: "piece list \<Rightarrow> str" where
  "spell ps = concat (map source ps)"

definition meaning :: "piece list \<Rightarrow> str" where
  "meaning ps = concat (map value_of ps)"

definition word_ok :: "piece list \<Rightarrow> bool" where
  "word_ok ps \<longleftrightarrow> ps \<noteq> [] \<and> list_all piece_ok ps"

text \<open>A line: each word with the blanks in front of it.\<close>

type_synonym spelled_line = "(str \<times> piece list) list"

definition is_blank :: "rchar \<Rightarrow> bool" where
  "is_blank c \<longleftrightarrow> is_whitespace c \<and> c \<noteq> 10 \<and> c \<noteq> 13"

definition line_ok :: "spelled_line \<Rightarrow> bool" where
  "line_ok line \<longleftrightarrow> line \<noteq> [] \<and> list_all (\<lambda>(gap, w). list_all is_blank gap \<and> word_ok w) line
     \<and> list_all (\<lambda>(gap, _). gap \<noteq> []) (tl line)"

definition line_text :: "spelled_line \<Rightarrow> str" where
  "line_text line = concat (map (\<lambda>(gap, w). gap @ spell w) line)"

definition line_words :: "spelled_line \<Rightarrow> str list" where
  "line_words line = map (\<lambda>(_, w). meaning w) line"

fun line_spans :: "nat \<Rightarrow> spelled_line \<Rightarrow> span list" where
  "line_spans a [] = []"
| "line_spans a ((gap, w) # line) =
     \<lparr>sp_start = a + length gap, sp_end = a + length gap + length (spell w), sp_dynamic = list_ex dynamic w\<rparr>
       # line_spans (a + length gap + length (spell w)) line"

section \<open>Reading one piece\<close>

lemma drop_Cons: "drop a cs = c # r \<Longrightarrow> a < length cs \<and> cs ! a = c \<and> drop (Suc a) cs = r"
  by (auto simp: nth_via_drop drop_Suc drop_tl leI not_le dest: arg_cong[of _ _ length])

text \<open>The reader at position \<open>a\<close>: the word it is in, with its start and whether it expands, and
  what it has read of the first command.\<close>

definition reading :: "lexer \<Rightarrow> str \<Rightarrow> nat \<Rightarrow> (str \<times> nat \<times> bool) option \<Rightarrow> str list \<Rightarrow> span list \<Rightarrow> bool" where
  "reading l cs a cw ws ss \<longleftrightarrow> lx_chars l = cs \<and> lx_at l = a \<and> lx_words l = ws \<and> lx_spans l = ss \<and>
     (case cw of None \<Rightarrow> lx_word l = None
      | Some (w, start, dyn) \<Rightarrow> lx_word l = Some w \<and> lx_word_start l = start \<and> lx_word_dynamic l = dyn
           \<and> lx_word_end l = a) \<and>
     lx_commands l = [] \<and> lx_opened_here l = [] \<and> \<not> lx_piped_next l \<and> lx_groups l = [] \<and>
     lx_substitution_groups l = [] \<and> \<not> lx_in_backtick l \<and> \<not> lx_joined_next l \<and> \<not> lx_opens_next l"

fun extend :: "(str \<times> nat \<times> bool) option \<Rightarrow> nat \<Rightarrow> str \<Rightarrow> bool \<Rightarrow> str \<times> nat \<times> bool" where
  "extend None a v d = (v, a, d)"
| "extend (Some (w, start, dyn)) a v d = (w @ v, start, dyn \<or> d)"

lemma not_looking_at: "b < length cs \<Longrightarrow> cs ! b \<noteq> c \<Longrightarrow> \<not> looking_at cs b (c # t)"
  using looking_at_nth[of cs b "c # t" 0] by auto

lemma double_quoted_reads:
  "drop a cs = concat (map qsource qs) @ 34 # r \<Longrightarrow> list_all qok qs \<Longrightarrow>
     double_quoted cs a t dyn = ((t @ concat (map qvalue qs), dyn \<or> list_ex qdynamic qs), a + length (concat (map qsource qs)) + 1)"
proof (induction qs arbitrary: a t dyn)
  case Nil
  then show ?case by (subst double_quoted.simps) (auto dest: drop_Cons simp: Let_def)
next
  case (Cons q qs)
  show ?case
  proof (cases q)
    case (QChar c)
    with Cons show ?thesis
      by (subst double_quoted.simps) (auto dest!: drop_Cons simp: Let_def)
  next
    case (QEscape c)
    with Cons show ?thesis
      by (subst double_quoted.simps) (auto dest!: drop_Cons simp: Let_def peek_def)
  next
    case (QKeep c)
    with Cons.prems have c: "a < length cs" "cs ! a = 92" "Suc a < length cs" "cs ! Suc a = c"
      "drop (Suc (Suc a)) cs = concat (map qsource qs) @ 34 # r" "qok (QKeep c)" "list_all qok qs"
      by (auto dest!: drop_Cons)
    have "double_quoted cs a t dyn = double_quoted cs (Suc a) (t @ [92]) dyn"
      by (subst double_quoted.simps) (use c in \<open>auto simp: Let_def peek_def lit_def not_looking_at\<close>)
    also have "\<dots> = double_quoted cs (Suc (Suc a)) (t @ [92, c]) (dyn \<or> c = 96)"
      by (subst double_quoted.simps) (use c in \<open>auto simp: Let_def\<close>)
    finally show ?thesis using Cons.IH[OF c(5,7)] QKeep c(6) by simp
  next
    case (QDollar c)
    with Cons.prems have c: "a < length cs" "cs ! a = 36" "Suc a < length cs" "cs ! Suc a = c"
      "drop (Suc (Suc a)) cs = concat (map qsource qs) @ 34 # r" "qok (QDollar c)" "list_all qok qs"
      by (auto dest!: drop_Cons)
    have "double_quoted cs a t dyn = double_quoted cs (Suc a) (t @ [36]) True"
      by (subst double_quoted.simps) (use c in \<open>auto simp: Let_def peek_def lit_def not_looking_at\<close>)
    also have "\<dots> = double_quoted cs (Suc (Suc a)) (t @ [36, c]) (True \<or> c = 96)"
      by (subst double_quoted.simps) (use c in \<open>auto simp: Let_def\<close>)
    finally show ?thesis using Cons.IH[OF c(5,7)] QDollar by simp
  qed
qed

text \<open>One turn of the loop, on the character it stands on.\<close>

lemma run_step: "lx_at l < length (lx_chars l) \<Longrightarrow> run_lexer l = run_lexer (lex_step l)"
  by (subst run_lexer.simps) simp

lemma reading_at: "reading l cs a cw ws ss \<Longrightarrow> lx_at l = a \<and> lx_chars l = cs"
  by (simp add: reading_def)

lemma reading_bare:
  assumes "reading l cs a cw ws ss" "drop a cs = c # r" "is_bare c"
  shows "reading (lex_step l) cs (a + 1) (Some (extend cw a [c] False)) ws ss"
proof -
  have l: "lx_chars l = cs" "lx_at l = a" "a < length cs" "cs ! a = c"
    using reading_at[OF assms(1)] drop_Cons[OF assms(2)] by simp_all
  have c: "c \<noteq> 39" "c \<noteq> 34" "c \<noteq> 92" "c \<noteq> 36" "c \<noteq> 35" "c \<noteq> 60" "c \<noteq> 124" "c \<notin> {96, 59, 38, 40, 41}"
    "\<not> is_whitespace c" using assms(3) by (auto simp: is_bare_def)
  have w: "c \<noteq> 10" "c \<noteq> 13" using c(9) by (auto simp: is_whitespace_def)
  have "lex_step l = (let k = push_str [c] (begin_word a (l\<lparr>lx_at := a + 1\<rparr>)) in k\<lparr>lx_word_end := lx_at k\<rparr>)"
    using c w by (simp add: lex_step_def Let_def l)
  then show ?thesis
    using assms(1) by (cases "(cw, a, [c], False)" rule: extend.cases) (simp_all add: reading_def begin_word_def push_str_def Let_def)
qed

lemma reading_dollar:
  assumes "reading l cs a cw ws ss" "drop a cs = 36 # c # r" "c \<notin> {39, 34, 40}"
  shows "reading (lex_step l) cs (a + 1) (Some (extend cw a [36] True)) ws ss"
proof -
  have "a < length cs" "cs ! a = 36" "Suc a < length cs" "cs ! Suc a = c"
    using drop_Cons[OF assms(2)] by (auto dest: drop_Cons)
  with assms show ?thesis
    by (cases "(cw, a, [36 :: nat], True)" rule: extend.cases) (auto simp: lex_step_def do_dollar_def Let_def reading_def begin_word_def push_str_def lit_def not_looking_at)
qed

lemma reading_backslash:
  assumes "reading l cs a cw ws ss" "drop a cs = 92 # c # r" "c \<noteq> 10"
  shows "reading (lex_step l) cs (a + 2) (Some (extend cw a [c] False)) ws ss"
proof -
  have "a < length cs" "cs ! a = 92" "Suc a < length cs" "cs ! Suc a = c"
    using drop_Cons[OF assms(2)] by (auto dest: drop_Cons)
  with assms show ?thesis
    by (cases "(cw, a, [c], False)" rule: extend.cases) (auto simp: lex_step_def do_escaped_def peek_def Let_def reading_def begin_word_def push_str_def)
qed

lemma reading_single:
  assumes "reading l cs a cw ws ss" "drop a cs = 39 # t @ 39 # r" "39 \<notin> set t"
  shows "reading (lex_step l) cs (a + length t + 2) (Some (extend cw a t False)) ws ss"
proof -
  have a: "a < length cs" "cs ! a = 39" "drop (Suc a) cs = t @ 39 # r"
    using drop_Cons[OF assms(2)] by auto
  have t: "takeWhile (\<lambda>c. c \<noteq> 39) (t @ 39 # r) = t"
    using assms(3) by (auto simp: takeWhile_append)
  have "length (drop (Suc a) cs) = length t + 1 + length r" by (simp add: a)
  then have "Suc (Suc (a + length t)) \<le> length cs" by simp
  with t a have "single_quoted cs (Suc a) = (t, Suc (Suc (a + length t)))"
    by (simp add: single_quoted_def Let_def)
  with a assms(1) show ?thesis
    by (cases "(cw, a, t, False)" rule: extend.cases) (auto simp: lex_step_def do_single_def Let_def reading_def begin_word_def push_str_def)
qed

lemma reading_double:
  assumes "reading l cs a cw ws ss" "drop a cs = 34 # concat (map qsource qs) @ 34 # r" "list_all qok qs"
  shows "reading (lex_step l) cs (a + length (concat (map qsource qs)) + 2)
    (Some (extend cw a (concat (map qvalue qs)) (list_ex qdynamic qs))) ws ss"
proof -
  have a: "a < length cs" "cs ! a = 34" "drop (Suc a) cs = concat (map qsource qs) @ 34 # r"
    using drop_Cons[OF assms(2)] by auto
  show ?thesis using a(1,2) assms(1) double_quoted_reads[OF a(3) assms(3)]
    by (cases "(cw, a, concat (map qvalue qs), list_ex qdynamic qs)" rule: extend.cases) (auto simp: lex_step_def do_double_def Let_def reading_def begin_word_def push_str_def)
qed

lemma reading_piece:
  assumes "reading l cs a cw ws ss" "drop a cs = source p @ r" "piece_ok p"
  shows "\<exists>l'. run_lexer l = run_lexer l' \<and>
    reading l' cs (a + length (source p)) (Some (extend cw a (value_of p) (dynamic p))) ws ss"
proof -
  have run: "run_lexer l = run_lexer (lex_step l)"
    using assms(1,2) drop_Cons by (cases p) (auto intro!: run_step dest: reading_at drop_Cons)
  show ?thesis
  proof (cases p)
    case (Bare c)
    with assms run show ?thesis using reading_bare[of l cs a cw ws ss c r] by auto
  next
    case (Dollar c)
    with assms have s: "drop a cs = 36 # c # r" "c \<notin> {39, 34, 40}" "is_bare c" by (auto simp: is_bare_def)
    have one: "reading (lex_step l) cs (a + 1) (Some (extend cw a [36] True)) ws ss"
      by (rule reading_dollar[OF assms(1) s(1,2)])
    have c: "drop (a + 1) cs = c # r" "a + 1 < length cs" using drop_Cons[OF s(1)] by (auto dest: drop_Cons)
    have "run_lexer (lex_step l) = run_lexer (lex_step (lex_step l))"
      by (rule run_step) (use reading_at[OF one] c in simp)
    moreover have "extend (Some (extend cw a [36] True)) (a + 1) [c] False = extend cw a [36, c] True"
      by (cases cw) auto
    ultimately show ?thesis
      using run reading_bare[OF one c(1) s(3)] Dollar by auto
  next
    case (Backslash c)
    with assms run show ?thesis using reading_backslash[of l cs a cw ws ss c r] by auto
  next
    case (Single t)
    with assms run show ?thesis using reading_single[of l cs a cw ws ss t r] by auto
  next
    case (Double qs)
    with assms run show ?thesis using reading_double[of l cs a cw ws ss qs r] by auto
  qed
qed

lemma extend_extend: "extend (Some (extend cw a v d)) b w e = extend cw a (v @ w) (d \<or> e)"
  by (cases cw) auto

lemma reading_word:
  assumes "reading l cs a cw ws ss" "drop a cs = spell ps @ r" "list_all piece_ok ps" "ps \<noteq> []"
  shows "\<exists>l'. run_lexer l = run_lexer l' \<and>
    reading l' cs (a + length (spell ps)) (Some (extend cw a (meaning ps) (list_ex dynamic ps))) ws ss"
  using assms
proof (induction ps arbitrary: l a cw)
  case (Cons p ps)
  from Cons.prems obtain l1 where l1: "run_lexer l = run_lexer l1"
    "reading l1 cs (a + length (source p)) (Some (extend cw a (value_of p) (dynamic p))) ws ss"
    using reading_piece[of l cs a cw ws ss p "spell ps @ r"] by (auto simp: spell_def)
  show ?case
  proof (cases "ps = []")
    case True
    with l1 show ?thesis by (auto simp: spell_def meaning_def)
  next
    case False
    have "drop (length (source p)) (drop a cs) = spell ps @ r"
      using Cons.prems(2) by (simp add: spell_def)
    then have "drop (a + length (source p)) cs = spell ps @ r" by (simp add: add.commute)
    from Cons.IH[OF l1(2) this _ False] Cons.prems(3) l1(1) show ?thesis
      by (auto simp: spell_def meaning_def extend_extend add.assoc)
  qed
qed simp

lemma reading_blank:
  assumes "reading l cs a cw ws ss" "drop a cs = c # r" "is_blank c"
  shows "run_lexer l = run_lexer (lex_step l)"
    "reading (lex_step l) cs (a + 1) None (ws @ (case cw of None \<Rightarrow> [] | Some (w, _) \<Rightarrow> [w]))
      (ss @ (case cw of None \<Rightarrow> [] | Some (_, start, dyn) \<Rightarrow> [\<lparr>sp_start = start, sp_end = a, sp_dynamic = dyn\<rparr>]))"
proof -
  note a = drop_Cons[OF assms(2)]
  show "run_lexer l = run_lexer (lex_step l)"
    by (rule run_step) (use a reading_at[OF assms(1)] in simp)
  have c: "c \<notin> {39, 34, 92, 36, 35, 60, 124, 96, 59, 38, 40, 41, 10, 13}" "is_whitespace c"
    using assms(3) by (auto simp: is_blank_def is_whitespace_def)
  show "reading (lex_step l) cs (a + 1) None (ws @ (case cw of None \<Rightarrow> [] | Some (w, _) \<Rightarrow> [w]))
      (ss @ (case cw of None \<Rightarrow> [] | Some (_, start, dyn) \<Rightarrow> [\<lparr>sp_start = start, sp_end = a, sp_dynamic = dyn\<rparr>]))"
    using a assms(1) c
    by (cases cw) (auto simp: lex_step_def Let_def reading_def end_word_def)
qed

section \<open>Reading a line\<close>

fun pending_word :: "(str \<times> nat \<times> bool) option \<Rightarrow> str list" where
  "pending_word None = []"
| "pending_word (Some (w, _)) = [w]"

fun pending_span :: "(str \<times> nat \<times> bool) option \<Rightarrow> nat \<Rightarrow> span list" where
  "pending_span None a = []"
| "pending_span (Some (_, start, dyn)) a = [\<lparr>sp_start = start, sp_end = a, sp_dynamic = dyn\<rparr>]"

definition plain_command :: "str list \<Rightarrow> span list \<Rightarrow> command" where
  "plain_command ws ss = \<lparr>cm_words = ws, cm_spans = ss, cm_heredocs = [], cm_piped = False, cm_depth = 0,
     cm_group = 0, cm_line_end = None, cm_substitution = False, cm_joined = False, cm_opens = False\<rparr>"

lemma reading_gap:
  assumes "reading l cs a cw ws ss" "drop a cs = g @ r" "list_all is_blank g" "cw = None \<or> g \<noteq> []"
  shows "\<exists>l'. run_lexer l = run_lexer l' \<and>
    reading l' cs (a + length g) None (ws @ pending_word cw) (ss @ pending_span cw a)"
  using assms
proof (induction g arbitrary: l a cw ws ss)
  case Nil
  then show ?case by auto
next
  case (Cons c g)
  have blank: "run_lexer l = run_lexer (lex_step l)"
    "reading (lex_step l) cs (a + 1) None (ws @ pending_word cw) (ss @ pending_span cw a)"
    using reading_blank[of l cs a cw ws ss c "g @ r"] Cons.prems by (cases cw; auto)+
  have "drop (a + 1) cs = g @ r" using drop_Cons[of a cs c "g @ r"] Cons.prems by simp
  from Cons.IH[OF blank(2) this] Cons.prems blank(1) show ?case by auto
qed

lemma reading_end:
  assumes "reading l cs (length cs) cw ws ss" "ws @ pending_word cw \<noteq> []"
  shows "lx_commands (run_lexer l) = [plain_command (ws @ pending_word cw) (ss @ pending_span cw (length cs))]"
proof -
  have "run_lexer l = end_command l"
    by (subst run_lexer.simps) (use reading_at[OF assms(1)] in simp)
  with assms show ?thesis
    by (cases "(cw, length cs)" rule: pending_span.cases)
       (auto simp: end_command_def end_word_def Let_def reading_def plain_command_def)
qed

lemma reading_line:
  assumes "reading l cs a cw ws ss" "a \<le> length cs" "drop a cs = line_text line"
    "list_all (\<lambda>(gap, w). list_all is_blank gap \<and> word_ok w) line"
    "list_all (\<lambda>(gap, _). gap \<noteq> []) (if cw = None then tl line else line)"
    "ws @ pending_word cw @ line_words line \<noteq> []"
  shows "lx_commands (run_lexer l) =
    [plain_command (ws @ pending_word cw @ line_words line) (ss @ pending_span cw a @ line_spans a line)]"
  using assms
proof (induction line arbitrary: l a cw ws ss)
  case Nil
  then have "a = length cs" by (simp add: line_text_def)
  with Nil reading_end show ?case by (auto simp: line_words_def)
next
  case (Cons gw line)
  obtain g w where gw: "gw = (g, w)" by (cases gw)
  from Cons.prems have str: "drop a cs = g @ spell w @ line_text line" by (simp add: gw line_text_def)
  from Cons.prems gw have ok: "list_all is_blank g" "cw = None \<or> g \<noteq> []" "word_ok w" by auto
  from reading_gap[OF Cons.prems(1) str ok(1,2)] obtain l1 where l1: "run_lexer l = run_lexer l1"
    "reading l1 cs (a + length g) None (ws @ pending_word cw) (ss @ pending_span cw a)" by blast
  have "drop (length g) (drop a cs) = spell w @ line_text line" by (simp add: str)
  then have str1: "drop (a + length g) cs = spell w @ line_text line" by (simp add: add.commute)
  from reading_word[OF l1(2) str1] ok(3) obtain l2 where l2: "run_lexer l1 = run_lexer l2"
    "reading l2 cs (a + length g + length (spell w)) (Some (meaning w, a + length g, list_ex dynamic w))
      (ws @ pending_word cw) (ss @ pending_span cw a)" by (auto simp: word_ok_def)
  have "drop (length (spell w)) (drop (a + length g) cs) = line_text line" by (simp add: str1)
  then have str2: "drop (a + length g + length (spell w)) cs = line_text line" by (simp add: add.commute)
  have "length (drop a cs) = length (g @ spell w @ line_text line)" using str by simp
  then have len: "a + length g + length (spell w) \<le> length cs" using Cons.prems(2) by simp
  have gaps: "list_all (\<lambda>(gap, _). gap \<noteq> []) line" using Cons.prems(5) gw by (auto split: if_splits)
  from Cons.IH[OF l2(2) len str2] Cons.prems(4) gaps l1(1) l2(1) gw show ?case
    by (simp add: line_words_def)
qed

lemma reading_new: "reading (new_lexer t) t 0 None [] []"
  by (simp add: reading_def new_lexer_def)

lemma line_commands:
  assumes "line_ok line"
  shows "commands (line_text line) = [plain_command (line_words line) (line_spans 0 line)]"
  using reading_line[OF reading_new, of "line_text line" line] assms
  by (auto simp: commands_def line_ok_def line_words_def)

text \<open>
  C23. However the words of a line are spelled, with bare characters, backslashes, single and
  double quotes in any mix and blanks between them, the reader returns one command with exactly
  the meanings of the words, each with the place it has in the text and whether it expands.
\<close>

theorem spelled_line_is_read:
  assumes "line_ok line"
  shows "commands (line_text line) = [plain_command (line_words line) (line_spans 0 line)]"
  using line_commands[OF assms] .

theorem spelled_line_is_read_witness:
  "commands [97, 32, 92, 98] = [plain_command [lit ''a'', lit ''b'']
     [\<lparr>sp_start = 0, sp_end = 1, sp_dynamic = False\<rparr>, \<lparr>sp_start = 2, sp_end = 4, sp_dynamic = False\<rparr>]]"
  using spelled_line_is_read[of "[([], [Bare 97]), ([32], [Backslash 98])]"]
  by (simp add: line_ok_def word_ok_def is_bare_def is_blank_def is_whitespace_def line_text_def spell_def
      line_words_def meaning_def lit_def eval_nat_numeral)

section \<open>Quoting\<close>

text \<open>The spelling that \<^verbatim>\<open>quote\<close> and \<^verbatim>\<open>word\<close> choose.\<close>

fun quote_pieces :: "str \<Rightarrow> str \<Rightarrow> piece list" where
  "quote_pieces acc [] = [Single acc]"
| "quote_pieces acc (c # cs) =
     (if c = 39 then Single acc # Backslash 39 # quote_pieces [] cs else quote_pieces (acc @ [c]) cs)"

definition word_pieces :: "str \<Rightarrow> piece list" where
  "word_pieces t = (if list_all is_plain_char t \<and> t \<noteq> [] then map Bare t else quote_pieces [] t)"

lemma quote_pieces:
  "39 \<notin> set acc \<Longrightarrow> list_all piece_ok (quote_pieces acc t) \<and> meaning (quote_pieces acc t) = acc @ t \<and>
     spell (quote_pieces acc t) =
       [39] @ acc @ concat (map (\<lambda>c. if c = 39 then [39, 92, 39, 39] else [c]) t) @ [39] \<and> quote_pieces acc t \<noteq> []"
  by (induction acc t rule: quote_pieces.induct) (auto simp: meaning_def spell_def)

lemma plain_is_bare: "is_plain_char c \<Longrightarrow> is_bare c"
  by (auto simp: is_plain_char_def is_bare_def is_ascii_alnum_def is_ascii_digit_def is_ascii_upper_def
      is_ascii_lower_def is_whitespace_def lit_def)

lemma concat_singletons: "concat (map (\<lambda>c. [c]) t) = t"
  by (induction t) auto

lemma word_pieces:
  "word_ok (word_pieces t)" "meaning (word_pieces t) = t" "spell (word_pieces t) = quoted_word t"
  using quote_pieces[of "[]" t]
  by (auto simp: word_pieces_def word_ok_def quoted_word_def quote_def meaning_def spell_def comp_def
      concat_singletons list_all_iff plain_is_bare)

lemma word_pieces_static: "\<not> list_ex dynamic (word_pieces t)"
proof -
  have "\<not> list_ex dynamic (quote_pieces acc t)" for acc by (induction acc t rule: quote_pieces.induct) auto
  then show ?thesis by (auto simp: word_pieces_def list_ex_iff)
qed

definition quoted_line :: "str list \<Rightarrow> spelled_line" where
  "quoted_line ws = (case map word_pieces ws of [] \<Rightarrow> [] | p # ps \<Rightarrow> ([], p) # map (Pair [32]) ps)"

lemma quoted_line:
  assumes "ws \<noteq> []"
  shows "line_ok (quoted_line ws)" "line_text (quoted_line ws) = join_with 32 (map quoted_word ws)"
    "line_words (quoted_line ws) = ws"
proof -
  obtain w rest where ws: "ws = w # rest" using assms by (cases ws) auto
  have str: "line_text (map (Pair [32]) (map word_pieces us)) = concat (map (\<lambda>w. 32 # quoted_word w) us)" for us
    by (induction us) (auto simp: line_text_def word_pieces)
  have join: "join_with 32 (p # ps) = p @ concat (map ((#) 32) ps)" for p and ps :: "str list"
    by (induction ps arbitrary: p) auto
  show "line_text (quoted_line ws) = join_with 32 (map quoted_word ws)"
    using str[of rest] by (simp add: ws quoted_line_def join comp_def line_text_def word_pieces)
  show "line_ok (quoted_line ws)"
    by (auto simp: ws quoted_line_def line_ok_def list_all_iff word_pieces is_blank_def is_whitespace_def)
  show "line_words (quoted_line ws) = ws"
    by (simp add: ws quoted_line_def line_words_def word_pieces comp_def)
qed

text \<open>
  C22. Quoting round-trips: any words at all, written with \<^verbatim>\<open>shell::word\<close> and a space between
  them, are read back as one command with exactly those words. No character of a word, not a
  quote, a line break or a separator, can end it early or start another command.
\<close>

theorem quoted_words_round_trip:
  assumes "ws \<noteq> []"
  shows "simple_commands (join_with 32 (map quoted_word ws)) = [ws]"
  using line_commands[OF quoted_line(1)[OF assms]] quoted_line(2,3)[OF assms]
  by (simp add: simple_commands_def plain_command_def)

theorem quoted_words_round_trip_witness:
  "simple_commands (lit ''rm '' @ quote (lit ''a; b'' @ [39, 10])) = [[lit ''rm'', lit ''a; b'' @ [39, 10]]]"
  using quoted_words_round_trip[of "[lit ''rm'', lit ''a; b'' @ [39, 10]]"]
  by (simp add: quoted_word_def is_plain_char_def is_ascii_alnum_def is_ascii_digit_def is_ascii_lower_def
      is_ascii_upper_def lit_def)

end
