(* ===== verification/Shell_Edits.thy ===== *)
theory Shell_Edits
  imports Shell_Spelling "HOL-Library.Multiset"
begin

text \<open>
  Rewriting words in place, which is what the spans of the reader are for: \<^verbatim>\<open>apply_edits\<close> with
  quoted words put at the spans of a spelled line gives a line that reads back as the words with
  the replaced ones changed and all the others as they were.
\<close>

text \<open>The edits a caller makes: for each word, nothing or the word that takes its place.\<close>

definition word_edits :: "span list \<Rightarrow> str option list \<Rightarrow> ((nat \<times> nat) \<times> str) list" where
  "word_edits ss rs = concat (map (\<lambda>(s, r). case r of None \<Rightarrow> []
     | Some w \<Rightarrow> [((sp_start s, sp_end s), quoted_word w)]) (zip ss rs))"

definition replaced :: "str list \<Rightarrow> str option list \<Rightarrow> str list" where
  "replaced ws rs = map (\<lambda>(w, r). case r of None \<Rightarrow> w | Some v \<Rightarrow> v) (zip ws rs)"

definition respelled :: "spelled_line \<Rightarrow> str option list \<Rightarrow> spelled_line" where
  "respelled line rs = map (\<lambda>((g, p), r). (g, case r of None \<Rightarrow> p | Some v \<Rightarrow> word_pieces v)) (zip line rs)"

lemma respelled_ok: "line_ok line \<Longrightarrow> length rs = length line \<Longrightarrow> line_ok (respelled line rs)"
proof -
  assume ok: "line_ok line" and len: "length rs = length line"
  obtain gw rest r rs' where line: "line = gw # rest" "rs = r # rs'"
    using ok len by (cases line; cases rs) (auto simp: line_ok_def)
  have "list_all (\<lambda>(gap, w). list_all is_blank gap \<and> word_ok w) (respelled line rs)"
    using ok by (auto simp: respelled_def line_ok_def list_all_iff word_pieces(1) split: option.split dest!: set_zip_leftD)
  moreover have "list_all (\<lambda>(gap, _). gap \<noteq> []) (tl (respelled line rs))"
    using ok by (auto simp: respelled_def line_ok_def list_all_iff line split: option.split prod.splits dest!: set_zip_leftD)
  ultimately show ?thesis by (simp add: line_ok_def line respelled_def)
qed

lemma respelled_words: "length rs = length line \<Longrightarrow> line_words (respelled line rs) = replaced (line_words line) rs"
  by (induction line rs rule: list_induct2')
     (auto simp: respelled_def line_words_def replaced_def word_pieces(2) split: option.split)

lemma apply_word_edits:
  assumes "cs = pre @ line_text line" "i \<le> length pre" "length rs = length line"
  shows "apply_each cs i out (word_edits (line_spans (length pre) line) rs)
    = out @ drop i pre @ line_text (respelled line rs)"
  using assms
proof (induction line arbitrary: pre i out rs)
  case Nil
  then show ?case by (simp add: word_edits_def respelled_def line_text_def)
next
  case (Cons gw line)
  obtain g w where gw: "gw = (g, w)" by (cases gw)
  obtain r rs' where rs: "rs = r # rs'" using Cons.prems(3) by (cases rs) auto
  let ?pre = "pre @ g @ spell w"
  have cs: "cs = ?pre @ line_text line" using Cons.prems(1) by (simp add: gw line_text_def)
  have spans: "line_spans (length pre) ((g, w) # line) =
      \<lparr>sp_start = length pre + length g, sp_end = length ?pre, sp_dynamic = list_ex dynamic w\<rparr> # line_spans (length ?pre) line"
    by (simp add: add.assoc)
  show ?case
  proof (cases r)
    case None
    have "apply_each cs i out (word_edits (line_spans (length ?pre) line) rs')
        = out @ drop i ?pre @ line_text (respelled line rs')"
      by (rule Cons.IH[OF cs]) (use Cons.prems rs in auto)
    with Cons.prems(2) show ?thesis
      unfolding gw spans rs None by (simp add: word_edits_def respelled_def line_text_def)
  next
    case (Some v)
    have "take (length pre + length g - i) (drop i cs) = drop i pre @ g"
      using Cons.prems(2) by (simp add: cs)
    moreover have "apply_each cs (length ?pre) (out @ (drop i pre @ g) @ quoted_word v) (word_edits (line_spans (length ?pre) line) rs')
        = (out @ (drop i pre @ g) @ quoted_word v) @ drop (length ?pre) ?pre @ line_text (respelled line rs')"
      by (rule Cons.IH[OF cs]) (use Cons.prems rs in auto)
    moreover have "length ?pre \<le> length cs" by (simp add: cs)
    ultimately show ?thesis
      using Cons.prems(2) unfolding gw spans rs Some
      by (simp add: word_edits_def respelled_def line_text_def word_pieces(3))
  qed
qed

lemma line_spans_ge: "s \<in> set (line_spans a line) \<Longrightarrow> a \<le> sp_start s"
  by (induction a line rule: line_spans.induct) force+

lemma line_spans_sorted: "list_all (\<lambda>(_, w). word_ok w) line \<Longrightarrow> sorted_wrt (<) (map sp_start (line_spans a line))"
proof (induction a line rule: line_spans.induct)
  case (2 a gap w line)
  have "spell w \<noteq> []" using 2 by (cases w; cases "hd w") (auto simp: word_ok_def spell_def)
  then have "0 < length (spell w)" by simp
  then have "a + length gap < sp_start s" if "s \<in> set (line_spans (a + length gap + length (spell w)) line)" for s
    using line_spans_ge[OF that] \<open>0 < length (spell w)\<close> by linarith
  with 2 show ?case by simp
qed simp

lemma word_edits_sorted:
  "sorted_wrt (<) (map sp_start ss) \<Longrightarrow> sorted_wrt (<) (map (\<lambda>((a, _), _). a) (word_edits ss rs))"
proof (induction ss rs rule: list_induct2')
  case (4 s ss r rs)
  have "a \<in> (\<lambda>((a, _), _). a) ` set (word_edits ss rs) \<Longrightarrow> a \<in> sp_start ` set ss" for a
    by (auto simp: word_edits_def split: option.splits dest!: set_zip_leftD)
  with 4 show ?case by (cases r) (auto simp: word_edits_def dest: set_zip_leftD)
qed (simp_all add: word_edits_def)

lemma sort_edits:
  assumes "mset edits = mset es" "sorted_wrt (<) (map (\<lambda>((a, _), _). a :: nat) es)"
  shows "sort_key (\<lambda>((a, _), _). a) edits = es"
proof (rule sort_key_inj_key_eq[OF assms(1)])
  let ?f = "\<lambda>((a, _), _). a :: nat"
  have "distinct (map ?f es)" using assms(2) by (simp add: strict_sorted_iff)
  then have "inj_on ?f (set es)" by (simp add: distinct_map)
  then show "inj_on ?f (set edits)" using assms(1) by (metis set_mset_mset)
  show "sorted (map ?f es)" using assms(2) by (simp add: strict_sorted_iff)
qed

text \<open>
  C17. Words are rewritten in place: on any spelled line, editing the spans the reader gave with
  quoted replacements, any number of words at once and with the edits listed in any order, gives
  a line that reads back with exactly those words replaced and every other word as it was.
\<close>

theorem words_rewritten_in_place:
  assumes "line_ok line" "length rs = length line"
    and "mset edits = mset (word_edits (cm_spans (hd (commands (line_text line)))) rs)"
  shows "simple_commands (apply_edits (line_text line) edits) = [replaced (line_words line) rs]"
proof -
  let ?es = "word_edits (line_spans 0 line) rs"
  have "cm_spans (hd (commands (line_text line))) = line_spans 0 line"
    by (simp add: line_commands[OF assms(1)] plain_command_def)
  with assms have "sort_key (\<lambda>((a, _), _). a) edits = ?es"
    by (intro sort_edits word_edits_sorted line_spans_sorted) (auto simp: line_ok_def list_all_iff)
  then have "apply_edits (line_text line) edits = line_text (respelled line rs)"
    using apply_word_edits[of "line_text line" "[]" line 0 rs "[]"] assms(2) by (simp add: apply_edits_def)
  then show ?thesis
    using line_commands[OF respelled_ok[OF assms(1,2)]] respelled_words[OF assms(2)]
    by (simp add: simple_commands_def plain_command_def)
qed

theorem words_rewritten_in_place_witness:
  "simple_commands (apply_edits (lit ''git a'') [((4, 5), quote (lit ''b c''))]) = [[lit ''git'', lit ''b c'']]"
proof -
  let ?line = "[([], map Bare (lit ''git'')), ([32], [Bare 97])]"
  have ok: "line_ok ?line"
    by (simp add: line_ok_def word_ok_def is_bare_def is_blank_def is_whitespace_def lit_def)
  have t: "line_text ?line = lit ''git a''" by (simp add: line_text_def spell_def lit_def)
  have "word_edits (cm_spans (hd (commands (line_text ?line)))) [None, Some (lit ''b c'')] = [((4, 5), quote (lit ''b c''))]"
    unfolding line_commands[OF ok]
    by (simp add: plain_command_def word_edits_def spell_def lit_def quoted_word_def
        is_plain_char_def is_ascii_alnum_def is_ascii_digit_def is_ascii_lower_def is_ascii_upper_def)
  from words_rewritten_in_place[OF ok _ arg_cong[OF this[symmetric], of mset]] show ?thesis
    by (simp add: t) (simp add: line_words_def replaced_def meaning_def lit_def)
qed

end
