(* ===== verification/Rm_Guard.thy ===== *)
theory Rm_Guard
  imports Shell_Spelling
begin

text \<open>
  The guard on deletions of the file system root and of the home folder,
  \<^verbatim>\<open>crates/cli/src/hooks/rm_workspace_guard.rs\<close>. It reads the line with a reader of its own
  (\<open>guard_read\<close>), judges each simple command, and reads a \<^verbatim>\<open>sh -c\<close> script as a line again.
  \<open>deletes_root_or_home\<close> returns the script instead of calling back, so that \<open>denies\<close> is one
  recursion; it ends because a script is shorter than the line it is a word of.
\<close>

definition DELETERS :: "str list" where
  "DELETERS = map lit [''rm'', ''rmdir'', ''unlink'', ''shred'']"

definition GUARD_WRAPPERS :: "str list" where
  "GUARD_WRAPPERS = map lit [''sudo'', ''doas'', ''command'', ''env'', ''exec'', ''nohup'', ''time'', ''nice'',
     ''ionice'', ''timeout'', ''xargs'']"

definition KEYWORDS :: "str list" where
  "KEYWORDS = map lit [''{'', ''!'', ''if'', ''then'', ''do'', ''else'', ''elif'', ''while'', ''until'']"

definition GUARD_SHELLS :: "str list" where
  "GUARD_SHELLS = map lit [''sh'', ''bash'', ''zsh'', ''dash'', ''ksh'']"

section \<open>Reading\<close>

definition close_word :: "bool \<Rightarrow> str \<Rightarrow> str list \<Rightarrow> str list" where
  "close_word in_word w ws = (if in_word then ws @ [w] else ws)"

definition keep_word :: "bool \<Rightarrow> str \<Rightarrow> str" where
  "keep_word in_word w = (if in_word then [] else w)"

text \<open>The rest of the line, the open quote, whether a word is being read, that word, the words of
  the command and the commands before it.\<close>

function guard_read :: "str \<Rightarrow> rchar option \<Rightarrow> bool \<Rightarrow> str \<Rightarrow> str list \<Rightarrow> str list list \<Rightarrow> str list list" where
  "guard_read [] q iw w ws cmds = cmds @ [close_word iw w ws]"
| "guard_read (c # r) (Some q) iw w ws cmds =
     (if c = q then guard_read r None iw w ws cmds
      else if q = 34 \<and> c = 92 then
        (case r of [] \<Rightarrow> guard_read [] (Some q) iw w ws cmds
         | n # r' \<Rightarrow> if n = 10 then guard_read r' (Some q) iw w ws cmds
                    else guard_read r' (Some q) iw ((if n \<in> {34, 92, 36, 96} then w else w @ [92]) @ [n]) ws cmds)
      else guard_read r (Some q) iw (w @ [c]) ws cmds)"
| "guard_read (c # r) None iw w ws cmds =
     (if c = 39 \<or> c = 34 then guard_read r (Some c) True w ws cmds
      else if c = 92 then
        (case r of [] \<Rightarrow> guard_read [] None True w ws cmds
         | n # r' \<Rightarrow> if n = 10 then guard_read r' None iw w ws cmds else guard_read r' None True (w @ [n]) ws cmds)
      else if c = 35 \<and> \<not> iw then guard_read (drop 1 (dropWhile (\<lambda>d. d \<noteq> 10) r)) None iw w [] (cmds @ [ws])
      else if c \<in> {59, 38, 124, 10, 40, 41, 96} then
        guard_read r None False (keep_word iw w) [] (cmds @ [close_word iw w ws])
      else if is_whitespace c then guard_read r None False (keep_word iw w) (close_word iw w ws) cmds
      else guard_read r None True (w @ [c]) ws cmds)"
  by pat_completeness auto
termination
  by (relation "measure (\<lambda>(s, _). length s)")
     (auto simp: less_Suc_eq_le intro: le_trans[OF diff_le_self length_dropWhile_le])

definition guard_commands :: "str \<Rightarrow> str list list" where
  "guard_commands t = guard_read t None False [] [] []"

section \<open>Judging\<close>

text \<open>\<^verbatim>\<open>rsplit('/').next()\<close>.\<close>

definition base_name :: "str \<Rightarrow> str" where
  "base_name w = rev (takeWhile (\<lambda>c. c \<noteq> 47) (rev w))"

definition strip_suffix :: "str \<Rightarrow> str \<Rightarrow> str option" where
  "strip_suffix s p = (if suffix p s then Some (take (length s - length p) s) else None)"

definition TAILS :: "str list" where
  "TAILS = map lit [''/**'', ''/.*'', ''/*'', ''/.'', ''/'']"

fun first_some :: "('a \<Rightarrow> 'b option) \<Rightarrow> 'a list \<Rightarrow> 'b option" where
  "first_some f [] = None"
| "first_some f (x # xs) = (case f x of None \<Rightarrow> first_some f xs | Some y \<Rightarrow> Some y)"

lemma first_some_Some: "first_some f xs = Some y \<Longrightarrow> \<exists>x \<in> set xs. f x = Some y"
  by (induction xs) (auto split: option.splits)

function strip_tails :: "str \<Rightarrow> str" where
  "strip_tails path = (case first_some (strip_suffix path) TAILS of None \<Rightarrow> path | Some p \<Rightarrow> strip_tails p)"
  by pat_completeness auto
termination
proof (relation "measure length", goal_cases)
  case (2 path p)
  then obtain t where "t \<in> set TAILS" "strip_suffix path t = Some p" using first_some_Some[of _ TAILS p] by auto
  then show ?case by (auto simp: strip_suffix_def TAILS_def dest: suffix_length_le split: if_splits)
qed simp

declare strip_tails.simps [simp del]

definition trim_slashes :: "str \<Rightarrow> str" where
  "trim_slashes s = rev (dropWhile (\<lambda>c. c = 47) (rev s))"

definition is_home_name :: "str \<Rightarrow> str \<Rightarrow> bool" where
  "is_home_name path home \<longleftrightarrow> path = [] \<or> path \<in> {lit ''~'', lit ''$HOME'', lit ''${HOME}''} \<or>
     (starts_with path (lit ''${HOME:'') \<and> path \<noteq> [] \<and> last path = 125) \<or>
     (trim_slashes home \<noteq> [] \<and> path = trim_slashes home)"

definition is_root_or_home :: "str \<Rightarrow> str \<Rightarrow> bool" where
  "is_root_or_home target home \<longleftrightarrow> target \<noteq> [] \<and> is_home_name (strip_tails target) home"

datatype verdict = Allowed | Denied | Script str

definition is_head :: "str \<Rightarrow> bool" where
  "is_head w \<longleftrightarrow> base_name w \<in> set DELETERS \<or> base_name w \<in> set GUARD_SHELLS"

definition head_at :: "str list \<Rightarrow> nat option" where
  "head_at ws =
     (let lead = length (takeWhile (\<lambda>w. w \<in> set KEYWORDS \<or> is_assignment w) ws) in
      if lead \<ge> length ws then None
      else let first = ws ! lead in
        if base_name first \<in> set GUARD_WRAPPERS
        then map_option (\<lambda>i. lead + 1 + i) (first_index is_head (drop (lead + 1) ws))
        else if is_head first then Some lead else None)"

definition deletes_root_or_home :: "str list \<Rightarrow> str \<Rightarrow> verdict" where
  "deletes_root_or_home ws home = (case head_at ws of
       None \<Rightarrow> Allowed
     | Some head \<Rightarrow> let args = drop (head + 1) ws in
         if base_name (ws ! head) \<in> set GUARD_SHELLS then
           (case first_index is_script_option args of
              None \<Rightarrow> Allowed
            | Some i \<Rightarrow> if i + 1 < length args then Script (args ! (i + 1)) else Allowed)
         else if list_ex (\<lambda>a. is_root_or_home a home) args then Denied else Allowed)"

section \<open>A script is shorter than its line\<close>

definition chars_in :: "str list \<Rightarrow> nat" where
  "chars_in ws = sum_list (map length ws)"

lemma chars_in_simps [simp]: "chars_in [] = 0" "chars_in (w # ws) = length w + chars_in ws"
  "chars_in (ws @ us) = chars_in ws + chars_in us"
  by (simp_all add: chars_in_def)

lemma chars_in_close: "chars_in (close_word iw w ws) \<le> chars_in ws + length w"
  by (simp add: close_word_def)

lemma guard_read_chars:
  "ws' \<in> set (guard_read s q iw w ws cmds) \<Longrightarrow>
     ws' \<in> set cmds \<or> chars_in ws' \<le> chars_in ws + length w + length s"
proof (induction s q iw w ws cmds rule: guard_read.induct)
  case (1 q iw w ws cmds)
  then show ?case using chars_in_close[of iw w ws] by auto
next
  case (2 c r q iw w ws cmds)
  then show ?case by (force split: if_splits list.splits)
next
  case (3 c r iw w ws cmds)
  let ?drop = "drop 1 (dropWhile (\<lambda>d. d \<noteq> 10) r)"
  have len: "length ?drop \<le> length r" using length_dropWhile_le[of "\<lambda>d. d \<noteq> 10" r] by auto
  have close: "chars_in (close_word iw w ws) + length (keep_word iw w) \<le> chars_in ws + length w"
    by (simp add: close_word_def keep_word_def)
  consider "c = 39 \<or> c = 34" | "c = 92" | "c = 35 \<and> \<not> iw" | "c \<noteq> 39" "c \<noteq> 34" "c \<noteq> 92" "\<not> (c = 35 \<and> \<not> iw)" by blast
  then show ?case
  proof cases
    case 1 with 3 show ?thesis by force
  next
    case 2 with 3 show ?thesis by (force split: if_splits list.splits)
  next
    case c: 3 with "3.prems" "3.IH"(5) len show ?thesis by fastforce
  next
    case c: 4
    consider "c \<in> {59, 38, 124, 10, 40, 41, 96}" | "c \<notin> {59, 38, 124, 10, 40, 41, 96}" "is_whitespace c"
      | "c \<notin> {59, 38, 124, 10, 40, 41, 96}" "\<not> is_whitespace c" by blast
    then show ?thesis
    proof cases
      case 1
      with c "3.prems" have "ws' \<in> set (guard_read r None False (keep_word iw w) [] (cmds @ [close_word iw w ws]))"
        by (simp only: guard_read.simps) auto
      with "3.IH"(6) c 1 have "ws' \<in> set (cmds @ [close_word iw w ws]) \<or> chars_in ws' \<le> length (keep_word iw w) + length r"
        by simp
      with close show ?thesis by auto
    next
      case 2
      with c "3.prems" have "ws' \<in> set (guard_read r None False (keep_word iw w) (close_word iw w ws) cmds)"
        by (simp only: guard_read.simps) auto
      with "3.IH"(7) c 2 have "ws' \<in> set cmds \<or> chars_in ws' \<le> chars_in (close_word iw w ws) + length (keep_word iw w) + length r"
        by simp
      with close show ?thesis by auto
    next
      case 3
      with c "3.prems" have "ws' \<in> set (guard_read r None True (w @ [c]) ws cmds)"
        by (simp only: guard_read.simps) auto
      with "3.IH"(8) c 3 show ?thesis by auto
    qed
  qed
qed

lemma guard_commands_chars: "ws \<in> set (guard_commands t) \<Longrightarrow> chars_in ws \<le> length t"
  using guard_read_chars[of ws t None False "[]" "[]" "[]"] by (simp add: guard_commands_def)

lemma length_base_name: "length (base_name w) \<le> length w"
  using length_takeWhile_le[of "\<lambda>c. c \<noteq> 47" "rev w"] by (simp add: base_name_def)

lemma shell_not_empty: "base_name w \<in> set GUARD_SHELLS \<Longrightarrow> 0 < length w"
  using length_base_name[of w] by (auto simp: GUARD_SHELLS_def)

lemma script_is_argument:
  "deletes_root_or_home ws home = Script s \<Longrightarrow> \<exists>pre w post. ws = pre @ w # post \<and> 0 < length w \<and> s \<in> set post"
proof -
  assume "deletes_root_or_home ws home = Script s"
  then obtain head i where h: "head_at ws = Some head" "base_name (ws ! head) \<in> set GUARD_SHELLS"
    "s = drop (head + 1) ws ! (i + 1)" "i + 1 < length (drop (head + 1) ws)"
    by (auto simp: deletes_root_or_home_def Let_def split: option.splits if_splits)
  then have "ws = take head ws @ ws ! head # drop (head + 1) ws" using id_take_nth_drop[of head ws] by simp
  moreover have "s \<in> set (drop (head + 1) ws)" unfolding h(3) using h(4) by (rule nth_mem)
  ultimately show ?thesis using h(2) shell_not_empty by blast
qed

lemma script_shorter:
  assumes "ws \<in> set (guard_commands t)" "deletes_root_or_home ws home = Script s"
  shows "length s < length t"
proof -
  from script_is_argument[OF assms(2)] obtain pre w post where w: "ws = pre @ w # post" "0 < length w" "s \<in> set post" by blast
  from w(3) have "length s \<le> chars_in post" by (simp add: chars_in_def member_le_sum_list)
  moreover have "chars_in ws = chars_in pre + (length w + chars_in post)" by (simp add: w(1))
  ultimately have "length s < chars_in ws" using w(2) by linarith
  with guard_commands_chars[OF assms(1)] show ?thesis by simp
qed

function denies :: "str \<Rightarrow> str \<Rightarrow> bool" where
  "denies t home = list_ex (\<lambda>ws. case deletes_root_or_home ws home of
      Allowed \<Rightarrow> False | Denied \<Rightarrow> True | Script s \<Rightarrow> denies s home) (guard_commands t)"
  by pat_completeness auto
termination by (relation "measure (\<lambda>(t, _). length t)") (auto simp: script_shorter)

declare denies.simps [simp del]

section \<open>Reading spelled lines\<close>

lemma guard_read_double:
  "list_all qok qs \<Longrightarrow>
     guard_read (concat (map qsource qs) @ 34 # r) (Some 34) iw w ws cmds
       = guard_read r None iw (w @ concat (map qvalue qs)) ws cmds"
proof (induction qs arbitrary: w)
  case (Cons q qs)
  then show ?case by (cases q) auto
qed simp

lemma guard_read_single:
  "39 \<notin> set t \<Longrightarrow> guard_read (t @ 39 # r) (Some 39) iw w ws cmds = guard_read r None iw (w @ t) ws cmds"
  by (induction t arbitrary: w) auto

lemma guard_read_bare:
  "is_bare c \<Longrightarrow> guard_read (c # r) None iw w ws cmds = guard_read r None True (w @ [c]) ws cmds"
  by (auto simp: is_bare_def is_whitespace_def)

lemma guard_read_dollar: "guard_read (36 # r) None iw w ws cmds = guard_read r None True (w @ [36]) ws cmds"
  by (simp add: is_whitespace_def)

lemma guard_read_piece:
  "piece_ok p \<Longrightarrow> guard_read (source p @ r) None iw w ws cmds = guard_read r None True (w @ value_of p) ws cmds"
proof (cases p)
  case (Dollar c)
  moreover assume "piece_ok p"
  ultimately show ?thesis
    by (simp add: guard_read_bare guard_read_dollar del: guard_read.simps)
next
  case (Bare c)
  moreover assume "piece_ok p"
  ultimately show ?thesis by (simp add: guard_read_bare del: guard_read.simps)
qed (simp_all add: guard_read_single guard_read_double)

lemma guard_read_word:
  "list_all piece_ok ps \<Longrightarrow> ps \<noteq> [] \<Longrightarrow>
     guard_read (spell ps @ r) None iw w ws cmds = guard_read r None True (w @ meaning ps) ws cmds"
proof (induction ps arbitrary: iw w)
  case (Cons p ps)
  then show ?case
    by (cases "ps = []") (simp_all add: spell_def meaning_def guard_read_piece)
qed simp

lemma guard_read_blank:
  "is_blank c \<Longrightarrow> guard_read (c # r) None iw w ws cmds = guard_read r None False (keep_word iw w) (close_word iw w ws) cmds"
  by (auto simp: is_blank_def is_whitespace_def)

lemma guard_read_gap:
  "list_all is_blank g \<Longrightarrow> g \<noteq> [] \<Longrightarrow>
     guard_read (g @ r) None iw w ws cmds = guard_read r None False (keep_word iw w) (close_word iw w ws) cmds"
proof (induction g arbitrary: iw w ws)
  case (Cons c g)
  then show ?case
    by (cases "g = []") (simp_all add: guard_read_blank close_word_def keep_word_def del: guard_read.simps)
qed simp

lemma guard_read_line:
  assumes "list_all (\<lambda>(gap, w). list_all is_blank gap \<and> word_ok w) line"
    "list_all (\<lambda>(gap, _). gap \<noteq> []) line"
  shows "guard_read (line_text line) None True w ws [] = [ws @ w # line_words line]"
  using assms
proof (induction line arbitrary: w ws)
  case Nil
  then show ?case by (simp add: line_text_def line_words_def close_word_def)
next
  case (Cons gp line)
  then show ?case
    by (cases gp) (auto simp: line_text_def line_words_def guard_read_gap guard_read_word word_ok_def
        close_word_def keep_word_def simp del: guard_read.simps)
qed

lemma guard_commands_line:
  assumes "line_ok line"
  shows "guard_commands (line_text line) = [line_words line]"
proof -
  obtain g p rest where line: "line = (g, p) # rest" using assms by (cases line) (auto simp: line_ok_def)
  have "guard_read (g @ spell p @ line_text rest) None False [] [] [] = guard_read (line_text rest) None True (meaning p) [] []"
    using assms by (cases "g = []") (auto simp: line line_ok_def word_ok_def guard_read_gap guard_read_word
        close_word_def keep_word_def simp del: guard_read.simps)
  moreover have "guard_read (line_text rest) None True (meaning p) [] [] = [[] @ meaning p # line_words rest]"
    using assms by (intro guard_read_line) (auto simp: line line_ok_def)
  ultimately show ?thesis by (simp add: guard_commands_def line line_text_def line_words_def)
qed

text \<open>
  C35. The two readers of command lines agree: on every line however its words are spelled, the
  guard's own reader and the shared lexer of \<^verbatim>\<open>shell.rs\<close> find the same words.
\<close>

theorem readers_agree:
  assumes "line_ok line"
  shows "guard_commands (line_text line) = simple_commands (line_text line)"
  using guard_commands_line[OF assms] line_commands[OF assms] by (simp add: simple_commands_def plain_command_def)

theorem readers_agree_witness:
  "guard_commands (lit ''rm /'') = simple_commands (lit ''rm /'')"
proof -
  let ?line = "[([], map Bare (lit ''rm'')), ([32], [Bare 47])]"
  have ok: "line_ok ?line"
    by (simp add: line_ok_def word_ok_def is_bare_def is_blank_def is_whitespace_def lit_def)
  have "line_text ?line = lit ''rm /''" by (simp add: line_text_def spell_def lit_def)
  with readers_agree[OF ok] show ?thesis by simp
qed

section \<open>Targets\<close>

lemma tails_apart: "t \<in> set TAILS \<Longrightarrow> u \<in> set TAILS \<Longrightarrow> suffix t u \<Longrightarrow> t = u"
  by (auto simp: TAILS_def lit_def suffix_def append_eq_Cons_conv Cons_eq_append_conv)

lemma one_tail: "t \<in> set TAILS \<Longrightarrow> u \<in> set TAILS \<Longrightarrow> suffix t s \<Longrightarrow> suffix u s \<Longrightarrow> t = u"
  using suffix_same_cases[of t s u] tails_apart by blast

lemma first_some_None: "first_some f xs = None \<longleftrightarrow> (\<forall>x \<in> set xs. f x = None)"
  by (induction xs) (auto split: option.splits)

lemma strip_tail: "t \<in> set TAILS \<Longrightarrow> first_some (strip_suffix (s @ t)) TAILS = Some s"
proof -
  assume t: "t \<in> set TAILS"
  then have "first_some (strip_suffix (s @ t)) TAILS \<noteq> None"
    by (subst first_some_None) (auto simp: strip_suffix_def suffix_def)
  then obtain p where p: "first_some (strip_suffix (s @ t)) TAILS = Some p" by blast
  then obtain u where u: "u \<in> set TAILS" "strip_suffix (s @ t) u = Some p" using first_some_Some by metis
  then have "suffix u (s @ t)" by (auto simp: strip_suffix_def split: if_splits)
  with one_tail[OF t u(1), of "s @ t"] have "u = t" by (simp add: suffix_def)
  with u(2) p show ?thesis by (auto simp: strip_suffix_def split: if_splits)
qed

definition tailless :: "str \<Rightarrow> bool" where
  "tailless s \<longleftrightarrow> list_all (\<lambda>t. \<not> suffix t s) TAILS"

lemma strip_tails_concat: "tailless base \<Longrightarrow> set tails \<subseteq> set TAILS \<Longrightarrow> strip_tails (base @ concat tails) = base"
proof (induction tails rule: rev_induct)
  case Nil
  then have "first_some (strip_suffix base) TAILS = None"
    by (simp add: first_some_None strip_suffix_def tailless_def list_all_iff)
  then show ?case by (simp add: strip_tails.simps)
next
  case (snoc t tails)
  then have "first_some (strip_suffix ((base @ concat tails) @ t)) TAILS = Some (base @ concat tails)"
    by (intro strip_tail) simp
  with snoc show ?case by (subst strip_tails.simps) simp
qed

lemma strip_tails_splits: "\<exists>tails. set tails \<subseteq> set TAILS \<and> path = strip_tails path @ concat tails"
proof (induction path rule: strip_tails.induct)
  case (1 path)
  show ?case
  proof (cases "first_some (strip_suffix path) TAILS")
    case None
    then show ?thesis by (auto simp: strip_tails.simps intro: exI[of _ "[]"])
  next
    case (Some p)
    then obtain t where t: "t \<in> set TAILS" "strip_suffix path t = Some p" using first_some_Some by metis
    then have path: "path = p @ t" by (auto simp: strip_suffix_def suffix_def split: if_splits)
    from "1.IH"[OF Some] obtain tails where "set tails \<subseteq> set TAILS" "p = strip_tails p @ concat tails" by blast
    then have "set (tails @ [t]) \<subseteq> set TAILS \<and> path = strip_tails p @ concat (tails @ [t])"
      using t(1) path by auto
    moreover have "strip_tails path = strip_tails p" using Some by (simp add: strip_tails.simps)
    ultimately show ?thesis by metis
  qed
qed

lemma home_name_tailless: "is_home_name path home \<Longrightarrow> tailless (trim_slashes home) \<Longrightarrow> tailless path"
  by (auto simp: is_home_name_def tailless_def TAILS_def lit_def suffix_def Cons_eq_append_conv
      append_eq_Cons_conv)

text \<open>
  What the guard takes for the root or the home folder is exactly this: the root, \<^verbatim>\<open>~\<close>,
  \<^verbatim>\<open>$HOME\<close>, \<^verbatim>\<open>${HOME}\<close>, \<^verbatim>\<open>${HOME:...}\<close> or the home path itself, followed by any number of
  \<^verbatim>\<open>/\<close>, \<^verbatim>\<open>/.\<close>, \<^verbatim>\<open>/*\<close>, \<^verbatim>\<open>/**\<close> and \<^verbatim>\<open>/.*\<close>. The suffix loop removes neither too few nor too many, so
  a path inside home is never taken for home.
\<close>

theorem root_or_home_exactly:
  assumes "tailless (trim_slashes home)"
  shows "is_root_or_home target home \<longleftrightarrow>
    target \<noteq> [] \<and> (\<exists>name tails. is_home_name name home \<and> set tails \<subseteq> set TAILS \<and> target = name @ concat tails)"
proof
  assume "is_root_or_home target home"
  then show "target \<noteq> [] \<and> (\<exists>name tails. is_home_name name home \<and> set tails \<subseteq> set TAILS \<and> target = name @ concat tails)"
    using strip_tails_splits[of target] by (auto simp: is_root_or_home_def)
next
  assume "target \<noteq> [] \<and> (\<exists>name tails. is_home_name name home \<and> set tails \<subseteq> set TAILS \<and> target = name @ concat tails)"
  then show "is_root_or_home target home"
    using strip_tails_concat[OF home_name_tailless[OF _ assms]] by (auto simp: is_root_or_home_def)
qed

theorem root_or_home_exactly_witness:
  "is_root_or_home (lit ''/home/a/./*'') (lit ''/home/a/'')"
proof -
  have t: "trim_slashes (lit ''/home/a/'') = lit ''/home/a''" by (simp add: trim_slashes_def lit_def)
  have "tailless (trim_slashes (lit ''/home/a/''))"
    unfolding t by (simp add: tailless_def TAILS_def lit_def suffix_def Cons_eq_append_conv)
  moreover have "is_home_name (lit ''/home/a'') (lit ''/home/a/'')" by (simp add: is_home_name_def t)
  moreover have "set [lit ''/.'', lit ''/*''] \<subseteq> set TAILS" by (simp add: TAILS_def)
  moreover have "lit ''/home/a/./*'' = lit ''/home/a'' @ concat [lit ''/.'', lit ''/*'']" by (simp add: lit_def)
  ultimately show ?thesis
    using root_or_home_exactly[of "lit ''/home/a/''" "lit ''/home/a/./*''"] by (metis lit_Nil_iff(1) list.distinct(1))
qed

section \<open>What is denied\<close>

definition is_lead :: "str \<Rightarrow> bool" where
  "is_lead w \<longleftrightarrow> w \<in> set KEYWORDS \<or> is_assignment w"

text \<open>\<open>runs P ws args\<close>: the words run a program that satisfies \<open>P\<close> with these arguments, perhaps
  after keywords and assignments, perhaps through a wrapper with options.\<close>

inductive runs :: "(str \<Rightarrow> bool) \<Rightarrow> str list \<Rightarrow> str list \<Rightarrow> bool" for P where
  direct: "P (base_name d) \<Longrightarrow> \<not> is_lead d \<Longrightarrow> runs P (d # args) args"
| wrapped: "base_name w \<in> set GUARD_WRAPPERS \<Longrightarrow> \<not> is_lead w \<Longrightarrow> list_all (\<lambda>x. \<not> is_head x) opts \<Longrightarrow>
    P (base_name d) \<Longrightarrow> runs P (w # opts @ d # args) args"
| lead: "is_lead k \<Longrightarrow> runs P ws args \<Longrightarrow> runs P (k # ws) args"

lemma first_index_append: "list_all (\<lambda>x. \<not> P x) xs \<Longrightarrow> P y \<Longrightarrow> first_index P (xs @ y # ys) = Some (length xs)"
  by (induction xs) auto

lemma heads_not_wrappers: "P (base_name d) \<Longrightarrow> (\<And>n. P n \<Longrightarrow> n \<in> set (DELETERS @ GUARD_SHELLS)) \<Longrightarrow>
    is_head d \<and> base_name d \<notin> set GUARD_WRAPPERS"
  by (fastforce simp: is_head_def DELETERS_def GUARD_SHELLS_def GUARD_WRAPPERS_def)

lemma runs_head:
  assumes "runs P ws args" "\<And>n. P n \<Longrightarrow> n \<in> set (DELETERS @ GUARD_SHELLS)"
  shows "\<exists>h. head_at ws = Some h \<and> P (base_name (ws ! h)) \<and> drop (h + 1) ws = args"
  using assms(1)
proof induction
  case (direct d args)
  with heads_not_wrappers[of P d, OF _ assms(2)] show ?case by (auto simp: head_at_def is_lead_def)
next
  case (wrapped w opts d args)
  then have "is_head d" using heads_not_wrappers[of P d, OF _ assms(2)] by simp
  with wrapped show ?case by (auto simp: head_at_def is_lead_def first_index_append)
next
  case (lead k ws args)
  then obtain h where h: "head_at ws = Some h" "P (base_name (ws ! h))" "drop (h + 1) ws = args" by blast
  then have "head_at (k # ws) = Some (h + 1)"
    using lead(1) by (auto simp: head_at_def is_lead_def Let_def split: if_splits)
  with h show ?case by auto
qed

text \<open>A line that deletes the root or home: a deleter with such a target, or a shell running a
  script that does, each line spelled in any way.\<close>

inductive deletes_home :: "str \<Rightarrow> str \<Rightarrow> bool" for home where
  deleter: "line_ok line \<Longrightarrow> runs (\<lambda>n. n \<in> set DELETERS) (line_words line) args \<Longrightarrow> a \<in> set args \<Longrightarrow>
    is_root_or_home a home \<Longrightarrow> deletes_home home (line_text line)"
| shell: "line_ok line \<Longrightarrow> runs (\<lambda>n. n \<in> set GUARD_SHELLS) (line_words line) (opts @ c # script # rest) \<Longrightarrow>
    list_all (\<lambda>x. \<not> is_script_option x) opts \<Longrightarrow> is_script_option c \<Longrightarrow> deletes_home home script \<Longrightarrow>
    deletes_home home (line_text line)"

lemma deleters_not_shells: "n \<in> set DELETERS \<Longrightarrow> n \<notin> set GUARD_SHELLS"
  by (auto simp: DELETERS_def GUARD_SHELLS_def)



end
