(* ===== verification/Paths.thy ===== *)
theory Paths
  imports Shell_Words
begin

text \<open>
  Paths as \<^verbatim>\<open>std::path\<close> reads them on Unix, and the guards' questions about paths from
  \<^verbatim>\<open>crates/cli/src/hooks/policy_guard.rs\<close> and \<^verbatim>\<open>auto_cost.rs\<close>: whether a word names one of
  playbook's databases, a config file or the memory store. \<open>lc\<close> is the Unicode lower case.
\<close>

section \<open>Components\<close>

datatype path_part = RootDir | CurDir | ParentDir | Normal str

definition part_of :: "str \<Rightarrow> path_part" where
  "part_of p = (if p = lit ''.'' then CurDir else if p = lit ''..'' then ParentDir else Normal p)"

text \<open>\<^verbatim>\<open>Path::components\<close>: empty parts go, and \<^verbatim>\<open>.\<close> goes unless a relative path starts with it.\<close>

definition path_parts :: "str \<Rightarrow> path_part list" where
  "path_parts s =
     (let ps = map part_of (filter (\<lambda>p. p \<noteq> []) (split_on 47 s)) in
      if starts_with s (lit ''/'') then RootDir # filter (\<lambda>p. p \<noteq> CurDir) ps
      else case ps of [] \<Rightarrow> [] | p # ps' \<Rightarrow> p # filter (\<lambda>p. p \<noteq> CurDir) ps')"

definition path_join :: "str \<Rightarrow> str \<Rightarrow> str" where
  "path_join a b = (if starts_with b (lit ''/'') then b
     else if a = [] \<or> last a = 47 then a @ b else a @ 47 # b)"

text \<open>\<^verbatim>\<open>PathBuf::pop\<close> and \<^verbatim>\<open>push\<close> of parts that hold no \<^verbatim>\<open>.\<close> and no \<^verbatim>\<open>..\<close>.\<close>

definition pop_part :: "path_part list \<Rightarrow> path_part list" where
  "pop_part ps = (if ps = [] \<or> last ps = RootDir then ps else butlast ps)"

fun push_part :: "path_part list \<Rightarrow> path_part \<Rightarrow> path_part list" where
  "push_part out CurDir = out"
| "push_part out ParentDir = pop_part out"
| "push_part out RootDir = [RootDir]"
| "push_part out (Normal p) = out @ [Normal p]"

definition lexical :: "path_part list \<Rightarrow> path_part list" where
  "lexical ps = foldl push_part [] ps"

text \<open>The text of a path made of a root and names.\<close>

fun part_text :: "path_part \<Rightarrow> str" where
  "part_text RootDir = []"
| "part_text CurDir = lit ''.''"
| "part_text ParentDir = lit ''..''"
| "part_text (Normal p) = p"

definition parts_text :: "path_part list \<Rightarrow> str" where
  "parts_text ps = (if ps = [RootDir] then lit ''/'' else join_with 47 (map part_text ps))"

definition strip_prefix :: "'a list \<Rightarrow> 'a list \<Rightarrow> 'a list option" where
  "strip_prefix p s = (if take (length p) s = p then Some (drop (length p) s) else None)"

text \<open>\<^verbatim>\<open>Path::starts_with\<close>: part by part.\<close>

definition parts_start_with :: "path_part list \<Rightarrow> path_part list \<Rightarrow> bool" where
  "parts_start_with ps base \<longleftrightarrow> strip_prefix base ps \<noteq> None"

definition playbook_root :: "str \<Rightarrow> str" where
  "playbook_root home = path_join (path_join home (lit ''.config'')) (lit ''playbook'')"

section \<open>What a word names\<close>

definition after_last_slash :: "str \<Rightarrow> str" where
  "after_last_slash w = rev (takeWhile (\<lambda>c. c \<noteq> 47) (rev w))"

definition expand_prefixes :: "str list" where
  "expand_prefixes = map lit [''~'', ''$HOME'', ''${HOME}'']"

fun expand_with :: "str list \<Rightarrow> str \<Rightarrow> str \<Rightarrow> str" where
  "expand_with [] path home = path"
| "expand_with (p # ps) path home = (case strip_prefix p path of
     None \<Rightarrow> expand_with ps path home
   | Some rest \<Rightarrow> if rest = [] \<or> starts_with rest (lit ''/'') then home @ rest else expand_with ps path home)"

definition expand_home :: "str \<Rightarrow> str \<Rightarrow> str" where
  "expand_home path home = expand_with expand_prefixes path home"

fun adjacent :: "'a \<Rightarrow> 'a \<Rightarrow> 'a list \<Rightarrow> bool" where
  "adjacent a b (x # y # zs) \<longleftrightarrow> (x = a \<and> y = b) \<or> adjacent a b (y # zs)"
| "adjacent a b _ \<longleftrightarrow> False"

definition db_file :: "str \<Rightarrow> str \<Rightarrow> bool" where
  "db_file last_part name \<longleftrightarrow> last_part \<in> {name, name @ lit ''-wal'', name @ lit ''-shm''}"

definition names_database :: "str \<Rightarrow> bool" where
  "names_database w \<longleftrightarrow> contains_str w (lit ''playbook.db'') \<or> db_file (after_last_slash w) (lit ''config.db'') \<or>
     db_file (after_last_slash w) (lit ''memory.db'') \<or> adjacent (lit ''playbook'') (lit ''data'') (split_on 47 w)"

text \<open>The patterns of \<^verbatim>\<open>is_config_file\<close>, on the names below the root.\<close>

definition is_config_name :: "str list \<Rightarrow> bool" where
  "is_config_name parts \<longleftrightarrow>
     (case parts of
        [f] \<Rightarrow> f = lit ''config.json'' \<or> db_file f (lit ''playbook.db'')
      | [d, f] \<Rightarrow> d = lit ''data'' \<and> (db_file f (lit ''config.db'') \<or> db_file f (lit ''memory.db''))
      | [d, _, f] \<Rightarrow> d = lit ''orgs'' \<and> f = lit ''config.json''
      | [d, _, _, e, f] \<Rightarrow> d = lit ''repos'' \<and> e = lit ''.config'' \<and> f = lit ''config.json''
      | _ \<Rightarrow> False)"

definition is_config_file :: "(str \<Rightarrow> str) \<Rightarrow> str \<Rightarrow> str \<Rightarrow> bool" where
  "is_config_file lc path base =
     (case strip_prefix (path_parts (lc base)) (lexical (path_parts (lc path))) of
        None \<Rightarrow> False
      | Some rel \<Rightarrow> is_config_name (map part_text rel))"

definition names_config_store :: "(str \<Rightarrow> str) \<Rightarrow> str \<Rightarrow> str \<Rightarrow> bool" where
  "names_config_store lc w home \<longleftrightarrow> names_database (lc w) \<or>
     (home \<noteq> [] \<and>
      (let base = playbook_root home; expanded = expand_home w home in
        is_config_file lc expanded base \<or>
        (list_ex (\<lambda>c. c = 42 \<or> c = 63) expanded \<and> parts_start_with (path_parts expanded) (path_parts base) \<and>
         length (path_parts expanded) - length (path_parts base) \<in> {1, 2})))"

definition names_memory_store :: "(str \<Rightarrow> str) \<Rightarrow> str \<Rightarrow> str \<Rightarrow> bool" where
  "names_memory_store lc w home \<longleftrightarrow> home \<noteq> [] \<and>
     parts_start_with (path_parts (lc (parts_text (lexical (path_parts (expand_home w home))))))
       (path_parts (lc (path_join (playbook_root home) (lit ''memory''))))"

section \<open>Lexical paths\<close>

text \<open>What is left after \<open>lexical\<close> is a root and names only, so nothing is hidden behind \<^verbatim>\<open>..\<close>.\<close>

definition plain_part :: "path_part \<Rightarrow> bool" where
  "plain_part p \<longleftrightarrow> p \<noteq> CurDir \<and> p \<noteq> ParentDir"

lemma push_part_plain: "list_all plain_part out \<Longrightarrow> list_all plain_part (push_part out p)"
  by (cases p) (auto simp: plain_part_def pop_part_def list_all_iff dest: in_set_butlastD)

lemma lexical_plain: "list_all plain_part (lexical ps)"
proof -
  have "list_all plain_part out \<Longrightarrow> list_all plain_part (foldl push_part out ps)" for out
    by (induction ps arbitrary: out) (simp_all add: push_part_plain)
  then show ?thesis by (simp add: lexical_def)
qed

lemma lexical_plain_id: "list_all plain_part ps \<Longrightarrow> RootDir \<notin> set (tl ps) \<Longrightarrow> lexical ps = ps"
proof (induction ps rule: rev_induct)
  case (snoc p ps)
  then have "RootDir \<notin> set (tl ps)" by (cases ps) auto
  with snoc have "lexical ps = ps" by simp
  with snoc.prems show ?case
    by (cases p; cases ps) (auto simp: lexical_def plain_part_def)
qed (simp add: lexical_def)

end
