(* ===== verification/Store_Writes.thy ===== *)
theory Store_Writes
  imports Paths
begin

text \<open>
  Whether a simple command writes playbook's config store,
  \<^verbatim>\<open>crates/cli/src/hooks/policy_guard/store_writes.rs\<close>, with the redirect reader of
  \<^verbatim>\<open>settings_writes.rs\<close>. Both the policy guard and the budget guard ask it.
\<close>

definition SHELLS :: "str list" where
  "SHELLS = map lit [''sh'', ''bash'', ''zsh'', ''dash'', ''ksh'']"

definition INTERPRETERS :: "str list" where
  "INTERPRETERS = map lit [''python'', ''python3'', ''node'', ''ruby'', ''perl'']"

definition WRITER_PROGRAMS :: "str list" where
  "WRITER_PROGRAMS = map lit [''tee'', ''cp'', ''mv'', ''rm'', ''touch'', ''mkdir'', ''ln'', ''install'', ''rsync'', ''dd'']"

definition SQLITE_VALUE_OPTIONS :: "str list" where
  "SQLITE_VALUE_OPTIONS = map lit [''-separator'', ''-newline'', ''-nullvalue'', ''-vfs'', ''-mmap'', ''-maxsize'',
     ''-lookaside'', ''-heap'', ''-pagecache'', ''-A'']"

definition SQLITE_READ_COMMANDS :: "str list" where
  "SQLITE_READ_COMMANDS = map lit [''.tables'', ''.table'', ''.schema'', ''.fullschema'', ''.indexes'', ''.indices'',
     ''.dump'', ''.headers'', ''.header'', ''.mode'', ''.width'', ''.databases'', ''.help'', ''.show'', ''.timer'', ''.stats'']"

definition SQL_READ_STARTS :: "str list" where
  "SQL_READ_STARTS = map lit [''select'', ''with'', ''explain'', ''values'']"

definition SQL_WRITE_WORDS :: "str list" where
  "SQL_WRITE_WORDS = map lit [''insert'', ''update'', ''delete'', ''replace'', ''drop'', ''create'', ''alter'', ''vacuum'',
     ''reindex'', ''attach'', ''detach'', ''upsert'', ''writefile'', ''edit'', ''load_extension'', ''begin'', ''savepoint'',
     ''analyze'']"

definition READ_PRAGMAS :: "str list" where
  "READ_PRAGMAS = map lit [''table_info'', ''table_xinfo'', ''table_list'', ''index_list'', ''index_info'', ''index_xinfo'',
     ''foreign_key_list'', ''database_list'', ''compile_options'', ''integrity_check'', ''quick_check'', ''page_count'',
     ''page_size'', ''user_version'', ''schema_version'', ''journal_mode'']"

definition ARGUMENT_READ_PRAGMAS :: "str list" where
  "ARGUMENT_READ_PRAGMAS = map lit [''table_info'', ''table_xinfo'', ''table_list'', ''index_list'', ''index_info'',
     ''index_xinfo'', ''foreign_key_list'', ''integrity_check'', ''quick_check'']"

section \<open>Redirects\<close>

text \<open>What follows the last occurrence of a character.\<close>

definition after_last :: "rchar \<Rightarrow> str \<Rightarrow> str option" where
  "after_last c w = (if c \<in> set w then Some (rev (takeWhile (\<lambda>d. d \<noteq> c) (rev w))) else None)"

fun redirect_targets :: "str list \<Rightarrow> str list" where
  "redirect_targets [] = []"
| "redirect_targets (w # ws) = (case after_last 62 w of
     None \<Rightarrow> redirect_targets ws
   | Some tail \<Rightarrow>
       let target = dropWhile (\<lambda>c. c = 124 \<or> c = 38) tail in
       if starts_with tail (lit ''&'') \<and> list_all (\<lambda>c. is_ascii_digit c \<or> c = 45) target then redirect_targets ws
       else if target \<noteq> [] then target # redirect_targets ws
       else (case ws of [] \<Rightarrow> [] | n # _ \<Rightarrow> n # redirect_targets ws))"

definition is_short_cluster_with :: "str \<Rightarrow> rchar \<Rightarrow> bool" where
  "is_short_cluster_with w flag \<longleftrightarrow> starts_with w (lit ''-'') \<and> \<not> starts_with w (lit ''--'') \<and> flag \<in> set w"

section \<open>SQL\<close>

fun without_literals :: "bool \<Rightarrow> str \<Rightarrow> str" where
  "without_literals inside [] = []"
| "without_literals inside (c # cs) =
     (if c = 39 then c # without_literals (\<not> inside) cs
      else if inside then without_literals inside cs else c # without_literals inside cs)"

definition without_string_literals :: "str \<Rightarrow> str" where
  "without_string_literals sql = without_literals False sql"

definition is_name_char :: "rchar \<Rightarrow> bool" where
  "is_name_char c \<longleftrightarrow> is_ascii_alnum c \<or> c = 95"

text \<open>The parts of a text between the characters that satisfy a predicate, empty ones left out.\<close>

fun fields_from :: "(rchar \<Rightarrow> bool) \<Rightarrow> str \<Rightarrow> str \<Rightarrow> str list" where
  "fields_from sep cur [] = (if cur = [] then [] else [cur])"
| "fields_from sep cur (c # cs) =
     (if sep c then (if cur = [] then fields_from sep [] cs else cur # fields_from sep [] cs)
      else fields_from sep (cur @ [c]) cs)"

definition fields :: "(rchar \<Rightarrow> bool) \<Rightarrow> str \<Rightarrow> str list" where
  "fields sep s = fields_from sep [] s"

text \<open>Every occurrence of a pattern that cannot overlap itself is followed by what satisfies \<open>P\<close>.\<close>

fun every_match :: "str \<Rightarrow> (str \<Rightarrow> bool) \<Rightarrow> str \<Rightarrow> bool" where
  "every_match pat P [] \<longleftrightarrow> True"
| "every_match pat P (c # cs) \<longleftrightarrow>
     (starts_with (c # cs) pat \<longrightarrow> P (drop (length pat) (c # cs))) \<and> every_match pat P cs"

definition only_replace_calls :: "str \<Rightarrow> str list \<Rightarrow> bool" where
  "only_replace_calls lower ws \<longleftrightarrow>
     list_all (\<lambda>w. w = lit ''replace'') (filter (\<lambda>w. w \<in> set SQL_WRITE_WORDS) ws) \<and>
     every_match (lit ''replace'') (\<lambda>rest. starts_with (trim_start rest) (lit ''('')) lower"

definition pragma_only_reads :: "str \<Rightarrow> bool" where
  "pragma_only_reads statement = (case strip_prefix (lit ''pragma'') statement of
     None \<Rightarrow> False
   | Some rest0 \<Rightarrow>
       let rest = trim rest0;
           full = takeWhile (\<lambda>c. is_name_char c \<or> c = 46) rest;
           name = rev (takeWhile (\<lambda>c. c \<noteq> 46) (rev full));
           tail = trim (drop (length full) rest)
       in if tail = [] then name \<in> set READ_PRAGMAS
          else starts_with tail (lit ''('') \<and> name \<in> set ARGUMENT_READ_PRAGMAS)"

definition sql_only_reads :: "(str \<Rightarrow> str) \<Rightarrow> str \<Rightarrow> bool" where
  "sql_only_reads lc sql =
     (let lower = without_string_literals (lc sql) in
      if starts_with (trim_start lower) (lit ''.'')
      then takeWhile (\<lambda>c. \<not> is_whitespace c) (trim_start lower) \<in> set SQLITE_READ_COMMANDS
      else
        let ws = fields (\<lambda>c. \<not> is_name_char c) lower;
            writes = list_ex (\<lambda>w. w \<in> set SQL_WRITE_WORDS) ws \<and>
                     \<not> (lit ''replace'' \<in> set ws \<and> only_replace_calls lower ws);
            reads = list_all (\<lambda>s. list_ex (\<lambda>k. starts_with s k) SQL_READ_STARTS \<or> pragma_only_reads s)
                      (filter (\<lambda>s. s \<noteq> []) (map trim (split_on 59 lower)))
        in reads \<and> \<not> writes)"

text \<open>The operands of \<^verbatim>\<open>sqlite3\<close>, or none when an option runs other SQL.\<close>

fun sqlite_operands :: "str list \<Rightarrow> nat \<Rightarrow> str list option" where
  "sqlite_operands [] skip = Some []"
| "sqlite_operands (w # ws) (Suc skip) = sqlite_operands ws skip"
| "sqlite_operands (w # ws) 0 =
     (let opt = dropWhile (\<lambda>c. c = 45) w; dashed = starts_with w (lit ''-'') in
      if opt \<in> {lit ''cmd'', lit ''init''} \<and> dashed then None
      else if redirect_len w > 0 then sqlite_operands ws (redirect_len w - 1)
      else if 45 # opt \<in> set SQLITE_VALUE_OPTIONS \<and> dashed then sqlite_operands ws 1
      else map_option (\<lambda>os. if dashed then os else w # os) (sqlite_operands ws 0))"

definition sqlite_only_reads :: "(str \<Rightarrow> str) \<Rightarrow> str list \<Rightarrow> bool" where
  "sqlite_only_reads lc args = (case sqlite_operands args 0 of
     None \<Rightarrow> False
   | Some [] \<Rightarrow> False
   | Some (_ # statements) \<Rightarrow> statements \<noteq> [] \<and>
       list_all (\<lambda>sql. 36 \<notin> set sql \<and> 96 \<notin> set sql \<and> sql_only_reads lc sql) statements)"

section \<open>Programs that write\<close>

fun sed_writes_after :: "rchar option \<Rightarrow> str \<Rightarrow> bool" where
  "sed_writes_after before [] \<longleftrightarrow> False"
| "sed_writes_after before (c # cs) \<longleftrightarrow>
     ((c = 119 \<or> c = 87) \<and>
      (case before of None \<Rightarrow> True | Some b \<Rightarrow> \<not> (is_ascii_upper b \<or> is_ascii_lower b)) \<and>
      (case cs of [] \<Rightarrow> False | n # _ \<Rightarrow> n = 32 \<or> n = 9)) \<or> sed_writes_after (Some c) cs"

definition sed_script_writes :: "str \<Rightarrow> bool" where
  "sed_script_writes script = sed_writes_after None script"

definition program_writes :: "(str \<Rightarrow> str) \<Rightarrow> str \<Rightarrow> str list \<Rightarrow> bool" where
  "program_writes lc program args =
     (if program = lit ''sqlite3'' then \<not> sqlite_only_reads lc args
      else if program = lit ''sed'' then
        list_ex (\<lambda>w. is_short_cluster_with w 105 \<or> starts_with w (lit ''--in-place'') \<or> sed_script_writes w) args
      else program \<in> set WRITER_PROGRAMS \<or> program \<in> set INTERPRETERS \<or> program \<in> set SHELLS)"

text \<open>The operands of a copy; \<open>Inl\<close> when an option already names a folder in the store.\<close>

fun copy_operands :: "bool \<Rightarrow> (str \<Rightarrow> bool) \<Rightarrow> bool \<Rightarrow> str list \<Rightarrow> unit + str list" where
  "copy_operands topt store awaits [] = Inr []"
| "copy_operands topt store True (dir # ws) =
     (if store dir then Inl () else copy_operands topt store False ws)"
| "copy_operands topt store False (w # ws) =
     (case strip_prefix (lit ''--target-directory='') w of
        Some dir \<Rightarrow> if store dir then Inl () else copy_operands topt store False ws
      | None \<Rightarrow>
          let short_t = topt \<and> starts_with w (lit ''-'') \<and> \<not> starts_with w (lit ''--'') \<and> w \<noteq> [] \<and> last w = 116 in
          if w = lit ''--target-directory'' \<or> short_t then copy_operands topt store True ws
          else
            let attached = (if topt \<and> starts_with w (lit ''-'') \<and> \<not> starts_with w (lit ''--'')
                  then (case split_once 116 (tl w) of Some (_, dir) \<Rightarrow> if dir = [] then None else Some dir | None \<Rightarrow> None)
                  else None)
            in case attached of
                 Some dir \<Rightarrow> if store dir then Inl () else copy_operands topt store False ws
               | None \<Rightarrow>
                   if \<not> starts_with w (lit ''-'') \<and> redirect_len w = 0
                   then map_sum id (Cons w) (copy_operands topt store False ws)
                   else copy_operands topt store False ws)"

definition copies_into :: "str list \<Rightarrow> bool \<Rightarrow> (str \<Rightarrow> bool) \<Rightarrow> bool" where
  "copies_into args topt store = (case copy_operands topt store False args of
     Inl _ \<Rightarrow> True | Inr operands \<Rightarrow> list_ex store (drop 1 operands))"

definition names_store :: "(str \<Rightarrow> str) \<Rightarrow> str \<Rightarrow> str \<Rightarrow> bool" where
  "names_store lc home w \<longleftrightarrow> names_config_store lc w home \<or> names_memory_store lc w home"

definition writes_config_store :: "(str \<Rightarrow> str) \<Rightarrow> str list \<Rightarrow> str \<Rightarrow> bool" where
  "writes_config_store lc ws home =
     (let store = names_store lc home in
      if list_ex store (redirect_targets ws) then True
      else case program_index lc ws of
        None \<Rightarrow> False
      | Some i \<Rightarrow>
          let program = program_name lc (ws ! i); args = drop (i + 1) ws in
          if \<not> program_writes lc program args then False
          else if program = lit ''rm'' then False
          else if program = lit ''cp'' \<or> program = lit ''install'' then copies_into args True store
          else if program = lit ''rsync'' then copies_into args False store
          else if program = lit ''dd'' then
            list_ex (\<lambda>w. case strip_prefix (lit ''of='') w of None \<Rightarrow> False | Some f \<Rightarrow> store f) args
          else if program \<in> {lit ''mv'', lit ''tee'', lit ''sed'', lit ''ln''} then list_ex store args
          else list_ex (\<lambda>w. names_config_store lc w home) args)"

definition is_open_redirect_into_store :: "(str \<Rightarrow> str) \<Rightarrow> str list option \<Rightarrow> str list \<Rightarrow> str \<Rightarrow> bool" where
  "is_open_redirect_into_store lc previous ws home \<longleftrightarrow>
     (case previous of None \<Rightarrow> False
      | Some p \<Rightarrow> p \<noteq> [] \<and> last p \<noteq> [] \<and> last (last p) = 62) \<and>
     (case ws of [] \<Rightarrow> False | w # _ \<Rightarrow> names_store lc home w)"

section \<open>A quote inside a name\<close>

text \<open>\<^verbatim>\<open>without_string_literals\<close> knows single quotes only, so a single quote inside a double quoted
  name opens a literal that the database does not see, and hides a statement.\<close>

definition hidden_delete :: str where
  "hidden_delete = lit ''select '' @ [34, 39, 34] @ lit ''; delete from t; select '' @ [34, 39, 34]"

theorem hidden_delete_reads: "sql_only_reads id hidden_delete"
  by (simp add: hidden_delete_def sql_only_reads_def without_string_literals_def lit_def trim_start_def starts_with_def
      fields_def is_name_char_def is_ascii_alnum_def is_ascii_lower_def is_ascii_upper_def is_ascii_digit_def
      is_whitespace_def SQL_WRITE_WORDS_def SQL_READ_STARTS_def trim_def trim_end_def)

end
