(* ===== verification/Closing.thy ===== *)
theory Closing
  imports Shell_Lexer Paths
begin

text \<open>
  The closing steps that stay allowed once the budget guard parks a caller,
  \<^verbatim>\<open>crates/cli/src/hooks/auto_cost/closing.rs\<close>. What git knows of a directory (the branch checked
  out, where a push goes, whether a branch exists) is a record of functions.
\<close>

record git_facts =
  gf_current :: "str \<Rightarrow> str option option"
  gf_push_output :: "str \<Rightarrow> (bool \<times> str) option"
  gf_show_ref :: "str \<Rightarrow> str \<Rightarrow> bool option"

definition CLOSING_SKILLS :: "str list" where
  "CLOSING_SKILLS = map lit [''playbook:create-pull-request'', ''playbook:commit-and-push'', ''playbook:writing-style'',
     ''playbook:engineering-standards'']"

definition PROTECTED_BRANCHES :: "str list" where
  "PROTECTED_BRANCHES = map lit [''main'', ''master'', ''trunk'', ''develop'']"

definition is_closing_skill :: "str \<Rightarrow> bool" where
  "is_closing_skill skill \<longleftrightarrow> trim skill \<in> set CLOSING_SKILLS"

section \<open>Stream merges\<close>

definition MERGES :: "str list" where
  "MERGES = map lit [''2>&1'', ''1>&2'', ''>&2'', ''&>/dev/null'']"

definition ends_at_boundary :: "str \<Rightarrow> str \<Rightarrow> bool" where
  "ends_at_boundary rest merge = (case strip_prefix merge rest of None \<Rightarrow> False
     | Some [] \<Rightarrow> True
     | Some (c # _) \<Rightarrow> is_whitespace c \<or> c \<in> set (lit '';|&)}''))"

function without_merges :: "rchar option \<Rightarrow> str \<Rightarrow> str" where
  "without_merges q [] = []"
| "without_merges q (c # cs) =
     (case (if q = None \<and> c \<noteq> 92 then find (ends_at_boundary (c # cs)) MERGES else None) of
        Some merge \<Rightarrow> without_merges q (drop (length merge) (c # cs))
      | None \<Rightarrow>
          let q' = (if q = None \<and> (c = 39 \<or> c = 34) then Some c else if q = Some c then None else q) in
          if c = 92 \<and> q' \<noteq> Some 39
          then c # take 1 cs @ without_merges q' (drop 1 cs)
          else c # without_merges q' cs)"
  by pat_completeness auto
termination
  by (relation "measure (\<lambda>(_, s). length s)") (auto simp: find_Some_iff MERGES_def split: if_splits dest!: nth_mem)

definition without_stream_merges :: "str \<Rightarrow> str" where
  "without_stream_merges t = without_merges None t"

section \<open>Redirects\<close>

text \<open>\<^verbatim>\<open>has_unquoted_angle\<close> on the characters of a word: the open quote and whether it is \<^verbatim>\<open>$'...'\<close>.\<close>

function angle_from :: "rchar option \<Rightarrow> bool \<Rightarrow> str \<Rightarrow> bool" where
  "angle_from q ansi [] = False"
| "angle_from q ansi (c # cs) =
     (if ansi then
        (if c = 92 then angle_from q ansi (drop 1 cs) else angle_from q (c \<noteq> 39) cs)
      else if q = None \<and> c = 36 \<and> starts_with cs [39] then angle_from q True (drop 1 cs)
      else if c = 92 \<and> (q = None \<or> q = Some 34) then angle_from q ansi (drop 1 cs)
      else if q = None \<and> (c = 39 \<or> c = 34) then angle_from (Some c) ansi cs
      else if q = Some c then angle_from None ansi cs
      else if q = None \<and> (c = 60 \<or> c = 62) then True
      else angle_from q ansi cs)"
  by pat_completeness auto
termination by (relation "measure (\<lambda>(_, _, s). length s)") auto

definition has_unquoted_angle :: "str \<Rightarrow> nat \<Rightarrow> nat \<Rightarrow> bool" where
  "has_unquoted_angle src a b =
     (let e = min b (length src) in angle_from None False (if a \<le> e then part src a e else []))"

definition is_angle :: "rchar \<Rightarrow> bool" where
  "is_angle c \<longleftrightarrow> c = 60 \<or> c = 62"

text \<open>The words with the redirections taken out; \<open>awaits\<close> is set while the target of a lone
  operator is awaited, with whether it is a heredoc.\<close>

fun words_left :: "str \<Rightarrow> bool option \<Rightarrow> (str \<times> span) list \<Rightarrow> str list option" where
  "words_left src None [] = Some []"
| "words_left src (Some heredoc) [] = None"
| "words_left src (Some heredoc) ((w, s) # rest) =
     (if heredoc \<or> w \<in> {lit ''/dev/null'', lit ''&1'', lit ''&2''} then words_left src None rest else None)"
| "words_left src None ((w, s) # rest) =
     (if \<not> has_unquoted_angle src (sp_start s) (sp_end s) then map_option (Cons w) (words_left src None rest)
      else
        let operator = dropWhile is_ascii_digit w; symbols = dropWhile is_angle operator;
            heredoc = (starts_with operator (lit ''<<'') \<and> \<not> starts_with operator (lit ''<<<'')) in
        if \<not> (operator \<noteq> [] \<and> is_angle (hd operator)) then None
        else if symbols = [] then words_left src (Some heredoc) rest
        else if heredoc \<or> symbols \<in> {lit ''/dev/null'', lit ''&1'', lit ''&2''} then words_left src None rest
        else None)"

definition without_redirects :: "command \<Rightarrow> str \<Rightarrow> str list option" where
  "without_redirects cm src = words_left src None (zip (cm_words cm) (cm_spans cm))"

definition unwrap_group :: "str list \<Rightarrow> str list" where
  "unwrap_group ws = rev (dropWhile (\<lambda>w. w = lit ''}'') (rev (dropWhile (\<lambda>w. w = lit ''{'') ws)))"

section \<open>Pushes\<close>

definition is_protected :: "str \<Rightarrow> bool" where
  "is_protected branch \<longleftrightarrow> branch \<in> set PROTECTED_BRANCHES"

definition unprotected_current_branch :: "git_facts \<Rightarrow> str \<Rightarrow> str option" where
  "unprotected_current_branch g dir = (case gf_current g dir of
     Some (Some branch) \<Rightarrow> if is_protected branch then None else Some branch | _ \<Rightarrow> None)"

definition push_destination :: "git_facts \<Rightarrow> str \<Rightarrow> str option" where
  "push_destination g dir = (case gf_push_output g dir of
     None \<Rightarrow> None
   | Some (success, out) \<Rightarrow> let name = trim out in
       if success \<and> name \<noteq> [] then Some (case split_once 47 name of None \<Rightarrow> name | Some (_, branch) \<Rightarrow> branch) else None)"

definition is_local_branch :: "git_facts \<Rightarrow> str \<Rightarrow> str \<Rightarrow> bool" where
  "is_local_branch g dir name \<longleftrightarrow> gf_show_ref g dir (lit ''refs/heads/'' @ name) = Some True"

definition is_short :: "str \<Rightarrow> bool" where
  "is_short a \<longleftrightarrow> starts_with a (lit ''-'') \<and> \<not> starts_with a (lit ''--'')"

definition unsafe_flag :: "str \<Rightarrow> bool" where
  "unsafe_flag a \<longleftrightarrow> starts_with a (lit ''--force'') \<or>
     a \<in> set (map lit [''--delete'', ''--mirror'', ''--prune'', ''--all'', ''--tags'', ''--follow-tags'']) \<or>
     list_ex (starts_with a) (map lit [''--receive-pack'', ''--exec'', ''--repo'']) \<or>
     (is_short a \<and> (102 \<in> set a \<or> 100 \<in> set a)) \<or> starts_with a (lit ''+'') \<or> starts_with a (lit '':'')"

fun push_positional :: "bool \<Rightarrow> str list \<Rightarrow> str list" where
  "push_positional skip [] = []"
| "push_positional True (a # as) = push_positional False as"
| "push_positional False (a # as) =
     (if a = lit ''-o'' \<or> a = lit ''--push-option'' then push_positional True as
      else if starts_with a (lit ''-'') then push_positional False as
      else a # push_positional False as)"

definition or_else :: "str \<Rightarrow> str \<Rightarrow> str" where
  "or_else p s = (case strip_prefix p s of None \<Rightarrow> s | Some r \<Rightarrow> r)"

definition is_safe_refspec :: "git_facts \<Rightarrow> str \<Rightarrow> str \<Rightarrow> bool" where
  "is_safe_refspec g dir spec =
     (let (src, dst) = (case split_once 58 spec of None \<Rightarrow> (spec, spec) | Some p \<Rightarrow> p);
          branch = (case strip_prefix (lit ''refs/heads/'') dst of Some b \<Rightarrow> b | None \<Rightarrow> or_else (lit ''heads/'') dst) in
      if starts_with dst (lit ''refs/'') \<and> \<not> starts_with dst (lit ''refs/heads/'') then False
      else if branch = [] \<or> is_protected branch then False
      else if src = lit ''HEAD'' then 58 \<in> set spec \<or> unprotected_current_branch g dir \<noteq> None
      else is_local_branch g dir (or_else (lit ''refs/heads/'') src))"

definition is_safe_push :: "git_facts \<Rightarrow> str list \<Rightarrow> str option \<Rightarrow> bool" where
  "is_safe_push g args dir_opt =
     (let refspecs = drop 1 (push_positional False args) in
      if list_ex unsafe_flag args then False
      else case dir_opt of
        None \<Rightarrow> False
      | Some dir \<Rightarrow>
          if refspecs = [] then unprotected_current_branch g dir \<noteq> None \<and>
            (case push_destination g dir of None \<Rightarrow> False | Some branch \<Rightarrow> \<not> is_protected branch)
          else list_all (is_safe_refspec g dir) refspecs)"

section \<open>The steps\<close>

definition is_git_step :: "git_facts \<Rightarrow> str list \<Rightarrow> str option \<Rightarrow> bool" where
  "is_git_step g args0 cwd =
     (let (dir, args) = (case args0 of
            c # d # rest \<Rightarrow> if c = lit ''-C'' then (map_option (\<lambda>p. path_join p d) cwd, rest) else (cwd, args0)
          | _ \<Rightarrow> (cwd, args0)) in
      case args of [] \<Rightarrow> False
      | sub # rest \<Rightarrow>
          if sub \<in> set (map lit [''add'', ''commit'', ''status'']) then True
          else if sub \<in> set (map lit [''diff'', ''log'']) then \<not> list_ex (\<lambda>a. starts_with a (lit ''--output'')) rest
          else if sub = lit ''worktree'' \<and> rest \<noteq> [] \<and> hd rest = lit ''list'' then True
          else if sub = lit ''push'' then is_safe_push g rest dir
          else False)"

text \<open>\<^verbatim>\<open>gh api\<close>: \<open>awaits\<close> is set while the next word is the value of a method flag.\<close>

fun get_api_from :: "bool \<Rightarrow> str list \<Rightarrow> bool" where
  "get_api_from True [] = False"
| "get_api_from False [] = True"
| "get_api_from True (v # as) = (v = lit ''GET'' \<and> get_api_from False as)"
| "get_api_from False (a # as) =
     (if a = lit ''graphql'' then False
      else case strip_prefix (lit ''--'') a of
        Some long \<Rightarrow>
          let (name, val) = (case split_once 61 long of None \<Rightarrow> (long, []) | Some p \<Rightarrow> p) in
          if name \<in> set (map lit [''input'', ''field'', ''raw-field'']) then False
          else if name = lit ''method'' then
            (if 61 \<in> set long then val = lit ''GET'' \<and> get_api_from False as else get_api_from True as)
          else get_api_from False as
      | None \<Rightarrow>
          (case strip_prefix (lit ''-'') a of
             None \<Rightarrow> get_api_from False as
           | Some short \<Rightarrow>
               if short = [] then get_api_from False as
               else if 102 \<in> set short \<or> 70 \<in> set short then False
               else if hd short = 88 then
                 (if tl short = [] then get_api_from True as else tl short = lit ''GET'' \<and> get_api_from False as)
               else if 88 \<in> set short then False
               else get_api_from False as))"

definition is_get_api :: "str list \<Rightarrow> bool" where
  "is_get_api args = get_api_from False args"

definition is_gh_read :: "str list \<Rightarrow> bool" where
  "is_gh_read args = (case args of
     a # rest \<Rightarrow>
       if a = lit ''pr'' \<and> rest \<noteq> [] \<and> hd rest \<in> set (map lit [''view'', ''list'', ''checks'', ''diff'', ''status'']) then True
       else if a = lit ''run'' \<and> rest \<noteq> [] \<and> hd rest \<in> set (map lit [''view'', ''list'']) then True
       else if a = lit ''api'' then is_get_api rest else False
   | [] \<Rightarrow> False)"

fun is_status_probe :: "str list \<Rightarrow> bool" where
  "is_status_probe [] = True"
| "is_status_probe (a # as) =
     (if a = lit ''--json'' then is_status_probe as
      else if a = lit ''--flag'' then
        (case as of [] \<Rightarrow> False
         | v # rest \<Rightarrow> v \<in> {lit ''auto'', lit ''ask''} \<and> is_status_probe rest)
      else False)"

definition is_playbook_step :: "str list \<Rightarrow> bool" where
  "is_playbook_step args = (case args of
     [] \<Rightarrow> False
   | a # rest \<Rightarrow>
       if a = lit ''commit'' \<and> rest \<noteq> [] \<and> hd rest = lit ''run'' then lit ''--auto'' \<in> set (tl rest)
       else if a = lit ''deliver'' then
         \<not> list_ex (\<lambda>x. x \<in> set (map lit [''--ready'', ''--auto-merge'', ''--wait''])) rest
       else if a = lit ''pr'' \<and> rest \<noteq> [] \<and> hd rest \<in> set (map lit [''create'', ''prepare'', ''rules'']) then True
       else if a = lit ''commit'' \<and> rest \<noteq> [] \<and> hd rest = lit ''prepare'' then True
       else if a = lit ''worktree'' \<and> take 2 rest = map lit [''review'', ''teardown''] then True
       else if a = lit ''config'' \<and> rest \<noteq> [] \<and> hd rest = lit ''get'' then True
       else if a = lit ''mode'' \<and> rest \<noteq> [] \<and> hd rest = lit ''status'' then is_status_probe (tl rest)
       else False)"

definition is_pr_body_write :: "(str \<Rightarrow> str) \<Rightarrow> command \<Rightarrow> bool" where
  "is_pr_body_write lc cm = (case cm_words cm of
     cat # gt # target # rest \<Rightarrow> gt = lit ''>'' \<and> program_name lc cat = lit ''cat'' \<and>
       suffix (lit ''/pr-body.md'') target \<and> \<not> contains_str target (lit ''..'') \<and>
       list_all hd_quoted (cm_heredocs cm) \<and> list_all (\<lambda>w. starts_with w (lit ''<<'')) rest
   | _ \<Rightarrow> False)"

definition is_closing_step :: "(str \<Rightarrow> str) \<Rightarrow> git_facts \<Rightarrow> command \<Rightarrow> str \<Rightarrow> str option \<Rightarrow> bool" where
  "is_closing_step lc g cm src cwd =
     (if cm_substitution cm \<or> list_ex sp_dynamic (cm_spans cm) then False
      else if list_ex (\<lambda>d. \<not> hd_quoted d \<and> (36 \<in> set (hd_text d) \<or> 96 \<in> set (hd_text d))) (cm_heredocs cm) then False
      else if is_pr_body_write lc cm then True
      else case without_redirects cm src of
        None \<Rightarrow> False
      | Some kept \<Rightarrow>
          let ws = unwrap_group kept in
          if ws = [] \<and> cm_words cm \<noteq> [] \<and> hd (cm_words cm) = lit ''}'' then True
          else case ws of
            [] \<Rightarrow> False
          | p # args \<Rightarrow>
              let program = program_name lc p in
              if program = lit ''git'' then is_git_step g args cwd
              else if program = lit ''gh'' then is_gh_read args
              else if program = lit ''playbook'' then is_playbook_step args
              else if program \<in> set (map lit [''echo'', ''exit'', ''true'']) then True
              else if program \<in> set (map lit [''head'', ''tail'', ''wc'']) then cm_piped cm
              else False)"

definition is_closing_command_in :: "(str \<Rightarrow> str) \<Rightarrow> git_facts \<Rightarrow> str \<Rightarrow> str option \<Rightarrow> bool" where
  "is_closing_command_in lc g t cwd =
     (let src = without_stream_merges t; parsed = commands src in
      parsed \<noteq> [] \<and> list_all (\<lambda>cm. is_closing_step lc g cm src cwd) parsed)"

end
