(* ===== verification/Closing_Push.thy ===== *)
theory Closing_Push
  imports Closing Shell_Spelling
begin

text \<open>
  What the closing list lets a parked caller push, for lines spelled in any of the ways of
  \<open>Shell_Spelling\<close>.
\<close>

section \<open>Spelled lines pass the preparations unchanged\<close>

text \<open>A text where no stream merge starts, nor one that a bare character in front would complete.\<close>

definition calm :: "str \<Rightarrow> bool" where
  "calm s \<longleftrightarrow> \<not> starts_with s [38] \<and> \<not> starts_with s [62, 38] \<and> \<not> starts_with s [50, 62, 38] \<and>
     \<not> starts_with s [49, 62, 38]"

lemma calm_Nil: "calm []"
  by (simp add: calm_def starts_with_def)

lemma calm_Cons: "c \<noteq> 38 \<Longrightarrow> calm s \<Longrightarrow> calm (c # s)"
  by (auto simp: calm_def starts_with_def)

lemma calm_head: "c \<notin> {38, 62, 50, 49} \<Longrightarrow> calm (c # s)"
  by (auto simp: calm_def starts_with_def)

lemma strip_prefix_Some: "strip_prefix p s = Some r \<longleftrightarrow> s = p @ r"
  by (auto simp: strip_prefix_def) (metis append_take_drop_id)

lemma calm_no_merge: "calm s \<Longrightarrow> find (ends_at_boundary s) MERGES = None"
  by (auto simp: find_None_iff MERGES_def ends_at_boundary_def strip_prefix_Some calm_def starts_with_def lit_def
      split: option.splits)

lemma without_merges_calm:
  "calm (c # r) \<Longrightarrow> c \<notin> {92, 39, 34} \<Longrightarrow> without_merges None (c # r) = c # without_merges None r"
  by (simp add: calm_no_merge)

lemma without_merges_single:
  "39 \<notin> set t \<Longrightarrow> without_merges (Some 39) (t @ 39 # r) = t @ 39 # without_merges None r"
  by (induction t) auto

lemma without_merges_double:
  "list_all qok qs \<Longrightarrow> without_merges (Some 34) (concat (map qsource qs) @ 34 # r) =
     concat (map qsource qs) @ 34 # without_merges None r"
proof (induction qs)
  case (Cons q qs)
  then show ?case by (cases q) auto
qed simp

lemma without_merges_piece:
  "piece_ok p \<Longrightarrow> calm r \<Longrightarrow> without_merges None (source p @ r) = source p @ without_merges None r \<and> calm (source p @ r)"
proof (cases p)
  case (Bare c)
  moreover assume "piece_ok p" "calm r"
  ultimately show ?thesis using without_merges_calm[of c r] calm_Cons[of c r] by (auto simp: is_bare_def)
next
  case (Dollar c)
  moreover assume "piece_ok p" "calm r"
  ultimately show ?thesis
    using without_merges_calm[of c r] without_merges_calm[of 36 "c # r"] calm_Cons[of c r] calm_head[of 36 "c # r"]
    by (auto simp: is_bare_def)
next
  case (Backslash c)
  then show ?thesis by (simp add: calm_head)
next
  case (Single t)
  moreover assume "piece_ok p"
  ultimately show ?thesis
    by (simp add: calm_head calm_no_merge without_merges_single)
next
  case (Double qs)
  moreover assume "piece_ok p"
  ultimately show ?thesis
    by (simp add: calm_head calm_no_merge without_merges_double)
qed

lemma without_merges_spell:
  "list_all piece_ok ps \<Longrightarrow> calm r \<Longrightarrow> without_merges None (spell ps @ r) = spell ps @ without_merges None r \<and> calm (spell ps @ r)"
  by (induction ps) (auto simp: spell_def without_merges_piece)

lemma without_merges_gap:
  "list_all is_blank g \<Longrightarrow> calm r \<Longrightarrow> without_merges None (g @ r) = g @ without_merges None r \<and> calm (g @ r)"
proof (induction g)
  case (Cons c g)
  then have "calm (c # g @ r)" "c \<notin> {92, 39, 34}"
    by (auto simp: is_blank_def is_whitespace_def intro!: calm_Cons)
  with Cons without_merges_calm[of c "g @ r"] show ?case by simp
qed simp

lemma without_stream_merges_line:
  assumes "list_all (\<lambda>(gap, w). list_all is_blank gap \<and> word_ok w) line"
  shows "without_merges None (line_text line) = line_text line \<and> calm (line_text line)"
  using assms
proof (induction line)
  case Nil
  then show ?case by (simp add: line_text_def calm_Nil)
next
  case (Cons gw line)
  obtain g w where gw: "gw = (g, w)" by (cases gw)
  with Cons have ok: "list_all is_blank g" "list_all piece_ok w" by (auto simp: word_ok_def)
  from Cons have rest: "without_merges None (line_text line) = line_text line" "calm (line_text line)" by auto
  note w = without_merges_spell[OF ok(2) rest(2)]
  from without_merges_gap[OF ok(1), of "spell w @ line_text line"] w rest show ?case
    by (simp add: gw line_text_def)
qed

section \<open>No redirections in a line without bare angle brackets\<close>

fun piece_angle :: "piece \<Rightarrow> bool" where
  "piece_angle (Bare c) \<longleftrightarrow> is_angle c"
| "piece_angle (Dollar c) \<longleftrightarrow> is_angle c"
| "piece_angle _ \<longleftrightarrow> False"

lemma angle_single: "39 \<notin> set t \<Longrightarrow> angle_from (Some 39) False (t @ 39 # r) = angle_from None False r"
  by (induction t) auto

lemma angle_double: "list_all qok qs \<Longrightarrow> angle_from (Some 34) False (concat (map qsource qs) @ 34 # r) = angle_from None False r"
proof (induction qs)
  case (Cons q qs)
  then show ?case by (cases q) auto
qed simp

lemma angle_spell:
  "list_all piece_ok ps \<Longrightarrow> angle_from None False (spell ps) = list_ex piece_angle ps"
proof (induction ps)
  case Nil
  then show ?case by (simp add: spell_def)
next
  case (Cons p ps)
  then show ?case
    by (cases p) (auto simp: spell_def angle_single angle_double is_bare_def is_angle_def starts_with_def)
qed

definition no_redirects :: "spelled_line \<Rightarrow> bool" where
  "no_redirects line \<longleftrightarrow> list_all (\<lambda>(_, w). \<not> list_ex piece_angle w) line"

lemma words_left_line:
  assumes "list_all (\<lambda>(gap, w). list_all is_blank gap \<and> word_ok w) line" "no_redirects line"
    "src = pre @ line_text line"
  shows "words_left src None (zip (line_words line) (line_spans (length pre) line)) = Some (line_words line)"
  using assms
proof (induction line arbitrary: pre)
  case Nil
  then show ?case by (simp add: line_words_def)
next
  case (Cons gw line)
  obtain g w where gw: "gw = (g, w)" by (cases gw)
  let ?a = "length pre + length g"
  let ?b = "?a + length (spell w)"
  from Cons gw have src: "src = (pre @ g @ spell w) @ line_text line" by (simp add: line_text_def)
  have "part src ?a (min ?b (length src)) = spell w"
    by (simp add: src part_def)
  with Cons.prems gw have "\<not> has_unquoted_angle src ?a ?b"
    by (simp add: has_unquoted_angle_def angle_spell word_ok_def no_redirects_def)
  moreover have "words_left src None (zip (line_words line) (line_spans (length (pre @ g @ spell w)) line)) =
      Some (line_words line)"
    using Cons.prems gw src by (intro Cons.IH) (auto simp: no_redirects_def)
  ultimately show ?case by (simp add: gw line_words_def add.assoc)
qed

lemma closing_line:
  assumes "line_ok line" "no_redirects line"
  shows "is_closing_command_in lc g (line_text line) cwd \<longleftrightarrow>
    is_closing_step lc g (plain_command (line_words line) (line_spans 0 line)) (line_text line) cwd"
    "without_redirects (plain_command (line_words line) (line_spans 0 line)) (line_text line) = Some (line_words line)"
proof -
  have ok: "list_all (\<lambda>(gap, w). list_all is_blank gap \<and> word_ok w) line" using assms(1) by (simp add: line_ok_def)
  then have "without_stream_merges (line_text line) = line_text line"
    using without_stream_merges_line by (simp add: without_stream_merges_def)
  with line_commands[OF assms(1)] show "is_closing_command_in lc g (line_text line) cwd \<longleftrightarrow>
    is_closing_step lc g (plain_command (line_words line) (line_spans 0 line)) (line_text line) cwd"
    by (simp add: is_closing_command_in_def)
  show "without_redirects (plain_command (line_words line) (line_spans 0 line)) (line_text line) = Some (line_words line)"
    using words_left_line[OF ok assms(2), of _ "[]"] by (simp add: without_redirects_def plain_command_def)
qed

section \<open>Pushes\<close>

text \<open>Where a refspec writes, and the ways git lets a branch of the remote be named.\<close>

definition destination :: "str \<Rightarrow> str" where
  "destination spec = (case split_once 58 spec of None \<Rightarrow> spec | Some p \<Rightarrow> snd p)"

definition names_branch :: "str \<Rightarrow> str \<Rightarrow> bool" where
  "names_branch dst b \<longleftrightarrow> dst \<in> {b, lit ''heads/'' @ b, lit ''refs/heads/'' @ b}"

lemma protected_heads:
  "b \<in> set PROTECTED_BRANCHES \<Longrightarrow> \<not> starts_with b (lit ''refs/'') \<and> \<not> starts_with b (lit ''heads/'')"
  by (auto simp: PROTECTED_BRANCHES_def lit_def starts_with_def)

lemma protected_direct:
  "b \<in> set PROTECTED_BRANCHES \<Longrightarrow> strip_prefix (lit ''refs/heads/'') b = None"
  "b \<in> set PROTECTED_BRANCHES \<Longrightarrow> strip_prefix (lit ''heads/'') b = None"
  by (auto simp: PROTECTED_BRANCHES_def lit_def strip_prefix_def)

lemma strip_heads: "strip_prefix (lit ''refs/heads/'') (lit ''heads/'' @ b) = None"
  by (simp add: lit_def strip_prefix_def)

lemma safe_refspec_spares:
  assumes "is_safe_refspec g dir spec" "b \<in> set PROTECTED_BRANCHES"
  shows "\<not> names_branch (destination spec) b"
proof
  assume "names_branch (destination spec) b"
  then consider "destination spec = b" | "destination spec = lit ''heads/'' @ b" | "destination spec = lit ''refs/heads/'' @ b"
    by (auto simp: names_branch_def)
  then have "(case strip_prefix (lit ''refs/heads/'') (destination spec) of Some b \<Rightarrow> b
      | None \<Rightarrow> or_else (lit ''heads/'') (destination spec)) = b"
    by cases (simp_all add: protected_direct[OF assms(2)] or_else_def strip_heads, simp_all add: strip_prefix_def)
  moreover have "is_protected b" using assms(2) by (simp add: is_protected_def)
  ultimately show False using assms(1)
    by (auto simp: is_safe_refspec_def destination_def Let_def split: option.splits prod.splits if_splits)
qed

lemma push_positional_brace:
  "push_positional k (as @ [lit ''}'']) \<in> {push_positional k as, push_positional k as @ [lit ''}'']}"
proof (induction k as rule: push_positional.induct)
  case (1 skip)
  then show ?case by (cases skip) (auto simp: lit_def starts_with_def)
qed auto

lemma push_positional_braces:
  "set (drop 1 (push_positional k (as @ replicate n (lit ''}'')))) \<subseteq> insert (lit ''}'') (set (drop 1 (push_positional k as)))"
proof (induction n)
  case (Suc n)
  let ?p = "push_positional k (as @ replicate n (lit ''}''))"
  have "push_positional k (as @ replicate (Suc n) (lit ''}'')) \<in> {?p, ?p @ [lit ''}'']}"
    using push_positional_brace[of k "as @ replicate n (lit ''}'')"] by (simp add: replicate_append_same[symmetric])
  moreover have "q \<in> {p, p @ [b]} \<Longrightarrow> set (drop 1 q) \<subseteq> insert b (set (drop 1 p))" for p q :: "str list" and b
    by (cases p) auto
  ultimately have "set (drop 1 (push_positional k (as @ replicate (Suc n) (lit ''}'')))) \<subseteq> insert (lit ''}'') (set (drop 1 ?p))"
    by blast
  with Suc.IH show ?case by blast
qed auto

lemma safe_push_spares:
  assumes "is_safe_push g args dir" "spec \<in> set (drop 1 (push_positional False args))" "b \<in> set PROTECTED_BRANCHES"
  shows "\<not> names_branch (destination spec) b"
  using assms safe_refspec_spares by (fastforce simp: is_safe_push_def Let_def list_all_iff split: option.splits if_splits)

lemma brace_spares: "b \<in> set PROTECTED_BRANCHES \<Longrightarrow> \<not> names_branch (destination (lit ''}'')) b"
  by (auto simp: destination_def names_branch_def PROTECTED_BRANCHES_def lit_def)

lemma drop_trailing: "\<exists>n. ws = rev (dropWhile (\<lambda>w. w = b) (rev ws)) @ replicate n b"
proof (induction ws rule: rev_induct)
  case (snoc w ws)
  then obtain n where n: "ws = rev (dropWhile (\<lambda>w. w = b) (rev ws)) @ replicate n b" by blast
  show ?case
  proof (cases "w = b")
    case True
    have "ws @ [b] = (rev (dropWhile (\<lambda>w. w = b) (rev ws)) @ replicate n b) @ [b]" using n by (rule arg_cong)
    also have "\<dots> = rev (dropWhile (\<lambda>w. w = b) (rev ws)) @ replicate (Suc n) b"
      by (simp only: append_assoc replicate_append_same replicate_Suc)
    finally have eq: "ws @ [b] = rev (dropWhile (\<lambda>w. w = b) (rev ws)) @ replicate (Suc n) b" .
    have "dropWhile (\<lambda>w. w = b) (rev (ws @ [b])) = dropWhile (\<lambda>w. w = b) (rev ws)" by simp
    with eq show ?thesis unfolding True by metis
  qed (auto intro: exI[of _ 0])
qed simp

lemma unwrap_braces:
  assumes "w \<noteq> lit ''{''"
  shows "\<exists>n. w # ws = unwrap_group (w # ws) @ replicate n (lit ''}'')"
  using drop_trailing[of "w # ws" "lit ''}''"] assms by (simp add: unwrap_group_def)

text \<open>The line runs git, with or without a directory of its own, to push.\<close>

definition pushes :: "(str \<Rightarrow> str) \<Rightarrow> str list \<Rightarrow> str list \<Rightarrow> bool" where
  "pushes lc ws args \<longleftrightarrow> (\<exists>p. program_name lc p = lit ''git'' \<and> p \<noteq> lit ''{'' \<and>
     (ws = p # lit ''push'' # args \<or> (\<exists>d. ws = p # lit ''-C'' # d # lit ''push'' # args)))"

lemma git_words: "lit ''git'' \<noteq> lit ''cat''" "lit ''push'' \<noteq> lit ''-C''"
  "lit ''push'' \<notin> set (map lit [''add'', ''commit'', ''status''])" "lit ''push'' \<notin> set (map lit [''diff'', ''log''])"
  "lit ''push'' \<noteq> lit ''worktree''" "lit ''}'' \<noteq> lit ''push''"
  by (simp_all add: lit_def)

lemma brace_end: "xs @ replicate n b = ys @ z # zs \<Longrightarrow> z \<noteq> b \<Longrightarrow> \<exists>us. xs = ys @ z # us \<and> zs = us @ replicate n b"
proof (induction n arbitrary: zs)
  case (Suc n)
  have eq: "(xs @ replicate n b) @ [b] = ys @ z # zs"
    using Suc.prems(1) by (simp add: replicate_append_same)
  show ?case
  proof (cases zs rule: rev_cases)
    case Nil
    with eq have "b = z" by simp
    with Suc.prems(2) show ?thesis by simp
  next
    case (snoc zs' c)
    have "(xs @ replicate n b) @ [b] = (ys @ z # zs') @ [c]" unfolding eq snoc by simp
    note ends = this[unfolded append1_eq_conv]
    note rest = conjunct1[OF ends]
    from Suc.IH[OF rest Suc.prems(2)] obtain us where "xs = ys @ z # us" "zs' = us @ replicate n b" by blast
    then have "xs = ys @ z # us \<and> zs = us @ replicate (Suc n) b"
      unfolding snoc conjunct2[OF ends, symmetric] by (simp add: replicate_append_same)
    then show ?thesis by blast
  qed
qed auto

lemma git_push_step:
  assumes "is_git_step g args0 cwd" "args0 = lit ''push'' # args \<or> args0 = lit ''-C'' # d # lit ''push'' # args"
  shows "\<exists>dir. is_safe_push g args dir"
  using assms git_words by (auto simp: is_git_step_def Let_def split: list.splits)


definition sample_facts :: git_facts where
  "sample_facts = \<lparr>gf_current = \<lambda>_. Some (Some (lit ''fix'')), gf_push_output = \<lambda>_. Some (True, lit ''origin/fix''),
     gf_show_ref = \<lambda>_ r. Some (r = lit ''refs/heads/fix'')\<rparr>"

lemma plain_no_angle: "is_plain_char c \<Longrightarrow> \<not> is_angle c"
  by (auto simp: is_plain_char_def is_angle_def is_ascii_alnum_def is_ascii_digit_def is_ascii_upper_def
      is_ascii_lower_def lit_def)

lemma quote_pieces_no_angle: "list_all (\<lambda>p. \<not> piece_angle p) (quote_pieces acc t)"
  by (induction acc t rule: quote_pieces.induct) (auto simp: is_angle_def)

lemma quoted_line_no_redirects: "no_redirects (quoted_line ws)"
proof -
  have "\<not> list_ex piece_angle (word_pieces w)" for w
    using quote_pieces_no_angle[of "[]" w] by (auto simp: word_pieces_def list_all_iff list_ex_iff plain_no_angle)
  then show ?thesis by (cases ws) (auto simp: quoted_line_def no_redirects_def list_all_iff)
qed

lemma quoted_closing:
  assumes "ws \<noteq> []"
  shows "is_closing_command_in lc g (join_with 32 (map quoted_word ws)) cwd \<longleftrightarrow>
    is_closing_step lc g (plain_command ws (line_spans 0 (quoted_line ws))) (join_with 32 (map quoted_word ws)) cwd"
    "without_redirects (plain_command ws (line_spans 0 (quoted_line ws))) (join_with 32 (map quoted_word ws)) = Some ws"
  using closing_line[OF quoted_line(1)[OF assms] quoted_line_no_redirects] quoted_line(2,3)[OF assms] by simp_all

lemma line_spans_static: "list_all (\<lambda>(_, w). \<not> list_ex dynamic w) line \<Longrightarrow> \<not> list_ex sp_dynamic (line_spans a line)"
  by (induction a line rule: line_spans.induct) auto

lemma quoted_line_static: "\<not> list_ex sp_dynamic (line_spans a (quoted_line ws))"
proof (rule line_spans_static)
  show "list_all (\<lambda>(_, w). \<not> list_ex dynamic w) (quoted_line ws)"
    using word_pieces_static by (cases ws) (auto simp: quoted_line_def list_all_iff)
qed

text \<open>A quoted line that runs git is a closing command exactly when the git step is one.\<close>

lemma quoted_git:
  assumes "program_name lc p = lit ''git''" "p \<noteq> lit ''{''" "ws = p # args" "last ws \<noteq> lit ''}''"
  shows "is_closing_command_in lc g (join_with 32 (map quoted_word ws)) cwd \<longleftrightarrow> is_git_step g args cwd"
proof -
  have "dropWhile (\<lambda>w. w = b) (rev ws) = rev ws" if "last ws \<noteq> b" for b
    using that by (cases ws rule: rev_cases) auto
  from this[OF assms(4)] have "unwrap_group ws = ws" using assms(2,3) by (simp add: unwrap_group_def)
  moreover have "\<not> is_pr_body_write lc (plain_command ws (line_spans 0 (quoted_line ws)))"
    using assms(1,3) git_words(1) by (auto simp: is_pr_body_write_def plain_command_def split: list.splits)
  moreover have "\<not> list_ex sp_dynamic (line_spans 0 (quoted_line ws))" by (rule quoted_line_static)
  moreover have "ws \<noteq> []" using assms(3) by simp
  ultimately have "is_closing_step lc g (plain_command ws (line_spans 0 (quoted_line ws))) t cwd \<longleftrightarrow> is_git_step g args cwd"
    if "without_redirects (plain_command ws (line_spans 0 (quoted_line ws))) t = Some ws" for t
    using that assms(1,3) unfolding is_closing_step_def by (simp add: plain_command_def)
  with quoted_closing[of ws] assms(3) show ?thesis by simp
qed

lemma git_program: "program_name id (lit ''git'') = lit ''git''"
  by (simp add: program_name_def file_name_def path_components_def lit_def)

lemma sample_push: "is_closing_command_in id sample_facts (line_text (quoted_line [lit ''git'', lit ''push'', lit ''origin'', lit ''fix''])) (Some (lit ''/w''))"
proof -
  have "is_git_step sample_facts [lit ''push'', lit ''origin'', lit ''fix''] (Some (lit ''/w''))"
    by (simp add: is_git_step_def is_safe_push_def unsafe_flag_def is_short_def is_safe_refspec_def lit_def starts_with_def
        strip_prefix_def or_else_def is_protected_def PROTECTED_BRANCHES_def is_local_branch_def sample_facts_def)
  then show ?thesis
    using quoted_git[OF git_program, of _ "[lit ''push'', lit ''origin'', lit ''fix'']"]
    by (simp add: quoted_line(2) lit_def)
qed


text \<open>The list of flags names each in full, while git also takes an unambiguous beginning of one.\<close>

theorem abbreviated_flags_pass:
  "is_safe_push sample_facts [lit ''--mir'', lit ''origin''] (Some (lit ''/w''))"
  "is_safe_push sample_facts [lit ''--del'', lit ''origin'', lit ''fix''] (Some (lit ''/w''))"
  by (simp_all add: is_safe_push_def unsafe_flag_def is_short_def is_safe_refspec_def lit_def starts_with_def
      strip_prefix_def or_else_def is_protected_def PROTECTED_BRANCHES_def is_local_branch_def sample_facts_def
      unprotected_current_branch_def push_destination_def trim_def trim_start_def trim_end_def is_whitespace_def)

end
