(* ===== verification/Pricing.thy ===== *)
theory Pricing
  imports Watch_Rule Paths
begin

text \<open>
  What a message costs: the price table of \<^verbatim>\<open>crates/telemetry/src/pricing.rs\<close> and
  \<^verbatim>\<open>UsageEvent::apply_pricing\<close> of \<^verbatim>\<open>lib.rs\<close>. Token counts are \<^verbatim>\<open>u64\<close>, whose sums wrap in a
  release build; amounts of money are rationals. \<open>lc\<close> is the Unicode lower case.
\<close>

section \<open>The table\<close>

definition PRICES :: "(str \<times> usd \<times> usd \<times> usd) list" where
  "PRICES = map (\<lambda>(n, p). (lit n, p))
    [(''fable-5-1'', 10, 50, 25/1000), (''mythos-5-1'', 10, 50, 25/1000), (''fable-5'', 10, 50, 1/10),
     (''mythos-5'', 10, 50, 1/10), (''opus-5-5'', 4, 20, 5/100), (''opus-5'', 5, 25, 1/10), (''opus-4-8'', 5, 25, 1/10),
     (''opus-4-7'', 5, 25, 1/10), (''opus-4-6'', 5, 25, 1/10), (''opus-4-5'', 5, 25, 1/10), (''opus-4-1'', 15, 75, 1/10),
     (''opus-4'', 15, 75, 1/10), (''sonnet-5-5'', 2, 10, 5/100), (''sonnet-5'', 2, 10, 1/10), (''sonnet-4-6'', 3, 15, 1/10),
     (''sonnet-4-5'', 3, 15, 1/10), (''sonnet-4'', 3, 15, 1/10), (''haiku-5-5'', 1/10, 5/10, 1/10),
     (''haiku-4-5'', 1, 5, 1/10), (''3-5-haiku'', 8/10, 4, 1/10), (''haiku-3-5'', 8/10, 4, 1/10)]"

definition HAIKU_5_5_LONG_PROMPT_TOKENS :: nat where "HAIKU_5_5_LONG_PROMPT_TOKENS = 100000"
definition HAIKU_5_5_LONG_PROMPT_FACTOR :: usd where "HAIKU_5_5_LONG_PROMPT_FACTOR = 5"
definition CACHE_WRITE_5M_MULTIPLIER :: usd where "CACHE_WRITE_5M_MULTIPLIER = 125/100"
definition CACHE_WRITE_1H_MULTIPLIER :: usd where "CACHE_WRITE_1H_MULTIPLIER = 2"
definition TOKENS_PER_UNIT :: usd where "TOKENS_PER_UNIT = 1000000"
definition DATE_SUFFIX_LEN :: nat where "DATE_SUFFIX_LEN = 8"

record tokens =
  tk_input :: nat
  tk_output :: nat
  tk_write_5m :: nat
  tk_write_1h :: nat
  tk_read :: nat

definition wrap_u64 :: "nat \<Rightarrow> nat" where
  "wrap_u64 n = n mod 2 ^ 64"

definition total :: "tokens \<Rightarrow> nat" where
  "total t = wrap_u64 (tk_input t + tk_output t + tk_write_5m t + tk_write_1h t + tk_read t)"

section \<open>The name of a model\<close>

text \<open>\<^verbatim>\<open>str::trim_start_matches\<close> of a word that is not empty.\<close>

function trim_start_word :: "str \<Rightarrow> str \<Rightarrow> str" where
  "trim_start_word p s = (if p \<noteq> [] \<and> starts_with s p then trim_start_word p (drop (length p) s) else s)"
  by pat_completeness auto
termination
  by (relation "measure (\<lambda>(_, s). length s)") (auto simp: starts_with_def take_eq_Nil intro!: diff_less gr0I)

declare trim_start_word.simps [simp del]

definition normalize_model :: "(str \<Rightarrow> str) \<Rightarrow> str \<Rightarrow> str" where
  "normalize_model lc model =
     (let name = trim_start_word (lit ''claude-'') (takeWhile (\<lambda>c. c \<noteq> 91 \<and> c \<noteq> 64 \<and> c \<noteq> 58) (lc model)) in
      case rsplit_once 45 name of
        Some (head, tail) \<Rightarrow> if length tail = DATE_SUFFIX_LEN \<and> list_all is_ascii_digit tail then head else name
      | None \<Rightarrow> name)"

section \<open>The cost\<close>

definition cost_usd :: "(str \<Rightarrow> str) \<Rightarrow> str \<Rightarrow> tokens \<Rightarrow> usd option" where
  "cost_usd lc model t =
     (let name = normalize_model lc model in
      case find (\<lambda>(n, _). n = name) PRICES of
        None \<Rightarrow> None
      | Some (_, input0, output0, fraction) \<Rightarrow>
          let prompt = wrap_u64 (tk_input t + tk_write_5m t + tk_write_1h t + tk_read t);
              factor = (if name = lit ''haiku-5-5'' \<and> prompt > HAIKU_5_5_LONG_PROMPT_TOKENS
                        then HAIKU_5_5_LONG_PROMPT_FACTOR else 1);
              input = input0 * factor; output = output0 * factor;
              sum = of_nat (tk_input t) * input + of_nat (tk_output t) * output
                + of_nat (tk_write_5m t) * input * CACHE_WRITE_5M_MULTIPLIER
                + of_nat (tk_write_1h t) * input * CACHE_WRITE_1H_MULTIPLIER
                + of_nat (tk_read t) * input * fraction
          in Some (sum / TOKENS_PER_UNIT))"

text \<open>The fields of a \<^verbatim>\<open>UsageEvent\<close> that pricing reads, and the two it sets.\<close>

record usage_event =
  ue_model :: str
  ue_input :: nat
  ue_output :: nat
  ue_creation :: nat
  ue_creation_1h :: nat
  ue_read :: nat
  ue_cost :: usd
  ue_unpriced :: bool

definition event_tokens :: "usage_event \<Rightarrow> tokens" where
  "event_tokens e = (let one_hour = min (ue_creation_1h e) (ue_creation e) in
     \<lparr>tk_input = ue_input e, tk_output = ue_output e, tk_write_5m = ue_creation e - one_hour, tk_write_1h = one_hour,
      tk_read = ue_read e\<rparr>)"

definition apply_pricing :: "(str \<Rightarrow> str) \<Rightarrow> usage_event \<Rightarrow> usage_event" where
  "apply_pricing lc e = (case cost_usd lc (ue_model e) (event_tokens e) of
     Some usd \<Rightarrow> e\<lparr>ue_cost := usd, ue_unpriced := False\<rparr>
   | None \<Rightarrow> e\<lparr>ue_cost := 0, ue_unpriced := total (event_tokens e) > 0\<rparr>)"

section \<open>Facts\<close>

lemma PRICES_positive: "(n, i, out, f) \<in> set PRICES \<Longrightarrow> 0 < i \<and> 0 < out \<and> 0 < f"
  by (auto simp: PRICES_def)

lemma cost_usd_nonneg:
  assumes "cost_usd lc m t = Some usd"
  shows "0 \<le> usd"
proof -
  obtain n i out f where row: "find (\<lambda>(n, _). n = normalize_model lc m) PRICES = Some (n, i, out, f)"
    using assms by (auto simp: cost_usd_def Let_def split: option.splits)
  then have "(n, i, out, f) \<in> set PRICES" by (metis (no_types, lifting) find_Some_iff nth_mem)
  then have pos: "0 < i" "0 < out" "0 < f" by (auto dest: PRICES_positive)
  have "0 < HAIKU_5_5_LONG_PROMPT_FACTOR" "0 < CACHE_WRITE_5M_MULTIPLIER" "0 < CACHE_WRITE_1H_MULTIPLIER" "0 < TOKENS_PER_UNIT"
    by (simp_all add: HAIKU_5_5_LONG_PROMPT_FACTOR_def CACHE_WRITE_5M_MULTIPLIER_def CACHE_WRITE_1H_MULTIPLIER_def TOKENS_PER_UNIT_def)
  with assms row pos show ?thesis
    by (auto simp: cost_usd_def Let_def intro!: divide_nonneg_pos add_nonneg_nonneg mult_nonneg_nonneg)
qed

lemma apply_pricing_nonneg: "0 \<le> ue_cost (apply_pricing lc e)"
  by (auto simp: apply_pricing_def dest: cost_usd_nonneg split: option.splits)

text \<open>Every listed model keeps its price under its full name, with a date and with a suffix.\<close>

lemma normalize_listed:
  assumes "(n, p) \<in> set PRICES"
  shows "rsplit_once 45 n \<noteq> None" "\<And>h t. rsplit_once 45 n = Some (h, t) \<Longrightarrow> length t \<noteq> 8"
    "\<not> starts_with n (lit ''claude-'')" "list_all (\<lambda>c. c \<noteq> 91 \<and> c \<noteq> 64 \<and> c \<noteq> 58) n"
  using assms by (auto simp: PRICES_def lit_def rsplit_once_def starts_with_def)

lemma trim_start_word_once: "p \<noteq> [] \<Longrightarrow> \<not> starts_with s p \<Longrightarrow> trim_start_word p (p @ s) = s"
  by (simp add: trim_start_word.simps[of p "p @ s"] trim_start_word.simps[of p s] starts_with_def)

lemma listed_name:
  assumes "(n, p) \<in> set PRICES"
  shows "trim_start_word (lit ''claude-'') (lit ''claude-'' @ n @ r) = n @ r"
proof (rule trim_start_word_once)
  show "\<not> starts_with (n @ r) (lit ''claude-'')"
    using assms by (auto simp: PRICES_def lit_def starts_with_def)
qed simp

definition clean_name :: "str \<Rightarrow> bool" where
  "clean_name n \<longleftrightarrow> list_all (\<lambda>c. c \<noteq> 91 \<and> c \<noteq> 64 \<and> c \<noteq> 58) n"

lemma takeWhile_clean: "clean_name n \<Longrightarrow> (r = [] \<or> hd r \<in> {91, 64, 58}) \<Longrightarrow>
    takeWhile (\<lambda>c. c \<noteq> 91 \<and> c \<noteq> 64 \<and> c \<noteq> 58) (n @ r) = n"
  by (cases r) (auto simp: clean_name_def list_all_iff takeWhile_eq_all_conv takeWhile_tail)

text \<open>The ways a listed model is written: with the vendor in front, and with a date or a suffix, or both.\<close>

definition written_as :: "str \<Rightarrow> str \<Rightarrow> bool" where
  "written_as n model \<longleftrightarrow> (\<exists>date suffix.
     model = lit ''claude-'' @ n @ date @ suffix \<and>
     (date = [] \<or> (length date = 9 \<and> hd date = 45 \<and> list_all is_ascii_digit (tl date))) \<and>
     (suffix = [] \<or> hd suffix \<in> {91, 64, 58}))"

lemma normalize_written:
  assumes "(n, p) \<in> set PRICES" "written_as n model" "lc model = model"
  shows "normalize_model lc model = n"
proof -
  from assms(2) obtain date suffix where m: "model = lit ''claude-'' @ n @ date @ suffix"
    "date = [] \<or> (length date = 9 \<and> hd date = 45 \<and> list_all is_ascii_digit (tl date))" "suffix = [] \<or> hd suffix \<in> {91, 64, 58}"
    by (auto simp: written_as_def)
  have "clean_name n" using normalize_listed(4)[OF assms(1)] by (simp add: clean_name_def)
  moreover have "clean_name date" using m(2)
    by (cases date) (auto simp: clean_name_def list_all_iff is_ascii_digit_def)
  moreover have "clean_name (lit ''claude-'')" by (simp add: clean_name_def lit_def)
  ultimately have "clean_name (lit ''claude-'' @ n @ date)" by (simp add: clean_name_def)
  from takeWhile_clean[OF this m(3)] have name: "takeWhile (\<lambda>c. c \<noteq> 91 \<and> c \<noteq> 64 \<and> c \<noteq> 58) (lc model) = lit ''claude-'' @ n @ date"
    using assms(3) by (simp add: m(1))
  note n = normalize_listed[OF assms(1)]
  show ?thesis
  proof (cases date)
    case Nil
    with name listed_name[OF assms(1), of "[]"] n(1,2) show ?thesis
      by (auto simp: normalize_model_def Let_def DATE_SUFFIX_LEN_def split: option.splits)
  next
    case (Cons c ds)
    with m(2) have ds: "date = 45 # ds" "length ds = 8" "list_all is_ascii_digit ds" by auto
    then have "45 \<notin> set ds" by (auto simp: list_all_iff is_ascii_digit_def)
    from rsplit_once_append[OF this] ds name listed_name[OF assms(1), of date] show ?thesis
      by (simp add: normalize_model_def Let_def DATE_SUFFIX_LEN_def)
  qed
qed

end
