(* ===== verification/Transcript.thy ===== *)
theory Transcript
  imports Pricing "HOL-Library.AList"
begin

text \<open>
  How the budget guard counts what a transcript costs, \<^verbatim>\<open>crates/cli/src/hooks/auto_cost.rs\<close>:
  the file grows while the hook reads it in pieces, and a streamed message repeats its usage on
  several lines, of which only the largest counts. \<open>serde_json\<close> is the record \<open>reader\<close>: what it
  makes of a line and of the text of a number.

  The specification is \<open>true_cost\<close>, the sum over the messages of a text of their largest cost.
  However the text is cut into reads, the counted cost is never below it, and it is equal when
  the lines of each message stand together.
\<close>

record reader =
  rd_line :: "str \<Rightarrow> json option"
  rd_u64 :: "str \<Rightarrow> nat option"
  rd_f64 :: "str \<Rightarrow> usd option"

fun json_get :: "json \<Rightarrow> str \<Rightarrow> json option" where
  "json_get (JObj members) k = map_of members k"
| "json_get _ k = None"

fun as_text :: "json \<Rightarrow> str option" where
  "as_text (JStr s) = Some s"
| "as_text _ = None"

fun as_u64 :: "reader \<Rightarrow> json \<Rightarrow> nat option" where
  "as_u64 rd (JNum s) = rd_u64 rd s"
| "as_u64 rd _ = None"

fun as_f64 :: "reader \<Rightarrow> json \<Rightarrow> usd option" where
  "as_f64 rd (JNum s) = rd_f64 rd s"
| "as_f64 rd _ = None"

section \<open>One line\<close>

definition token :: "reader \<Rightarrow> json \<Rightarrow> str \<Rightarrow> nat" where
  "token rd usage k = (case Option.bind (json_get usage k) (as_u64 rd) of None \<Rightarrow> 0 | Some n \<Rightarrow> n)"

definition one_hour_cache_tokens :: "reader \<Rightarrow> json \<Rightarrow> nat" where
  "one_hour_cache_tokens rd usage = (case json_get usage (lit ''cache_creation'') of
     None \<Rightarrow> 0 | Some tiers \<Rightarrow> token rd tiers (lit ''ephemeral_1h_input_tokens''))"

record priced_message =
  ms_id :: str
  ms_usd :: usd
  ms_unpriced :: bool

definition message_cost :: "(str \<Rightarrow> str) \<Rightarrow> reader \<Rightarrow> json \<Rightarrow> priced_message option" where
  "message_cost lc rd line =
     (case Option.bind (json_get line (lit ''type'')) as_text of
        None \<Rightarrow> None
      | Some ty \<Rightarrow>
          if ty \<noteq> lit ''assistant'' then None
          else case json_get line (lit ''message'') of
            None \<Rightarrow> None
          | Some msg \<Rightarrow>
              (case json_get msg (lit ''usage'') of
                 None \<Rightarrow> None
               | Some usage \<Rightarrow>
                   (case Option.bind (json_get msg (lit ''model'')) as_text of
                      None \<Rightarrow> None
                    | Some model \<Rightarrow>
                        let event = apply_pricing lc \<lparr>ue_model = model, ue_input = token rd usage (lit ''input_tokens''),
                              ue_output = token rd usage (lit ''output_tokens''),
                              ue_creation = token rd usage (lit ''cache_creation_input_tokens''),
                              ue_creation_1h = one_hour_cache_tokens rd usage,
                              ue_read = token rd usage (lit ''cache_read_input_tokens''), ue_cost = 0, ue_unpriced = False\<rparr>
                        in map_option (\<lambda>i. \<lparr>ms_id = i, ms_usd = ue_cost event, ms_unpriced = ue_unpriced event\<rparr>)
                             (Option.bind (json_get msg (lit ''id'')) as_text))))"

definition line_message :: "(str \<Rightarrow> str) \<Rightarrow> reader \<Rightarrow> str \<Rightarrow> priced_message option" where
  "line_message lc rd line = Option.bind (rd_line rd line) (message_cost lc rd)"

text \<open>The messages of a text, line by line.\<close>

definition messages :: "(str \<Rightarrow> str) \<Rightarrow> reader \<Rightarrow> str \<Rightarrow> priced_message list" where
  "messages lc rd t = List.map_filter (line_message lc rd) (split_on 10 t)"

section \<open>One read\<close>

record file_cost =
  fc_baseline :: int
  fc_usd :: usd
  fc_offset :: nat
  fc_inode :: nat
  fc_last_id :: str
  fc_last_usd :: usd
  fc_unpriced :: bool

definition no_cost :: file_cost where
  "no_cost = \<lparr>fc_baseline = 0, fc_usd = 0, fc_offset = 0, fc_inode = 0, fc_last_id = [], fc_last_usd = 0, fc_unpriced = False\<rparr>"

definition restart :: "file_cost \<Rightarrow> file_cost" where
  "restart f = f\<lparr>fc_usd := 0, fc_offset := 0, fc_last_id := [], fc_last_usd := 0, fc_unpriced := False\<rparr>"

record batch =
  bt_usd :: usd
  bt_unpriced :: bool
  bt_last :: "(str \<times> usd) option"

text \<open>\<^verbatim>\<open>by_id\<close> is an association list: the largest cost seen per message.\<close>

definition bump :: "priced_message \<Rightarrow> (str \<times> usd) list \<Rightarrow> (str \<times> usd) list" where
  "bump m by_id = AList.update (ms_id m)
     (case map_of by_id (ms_id m) of None \<Rightarrow> ms_usd m | Some usd \<Rightarrow> max usd (ms_usd m)) by_id"

definition grouped :: "priced_message list \<Rightarrow> (str \<times> usd) list" where
  "grouped ms = fold bump ms []"

definition read_batch :: "(str \<Rightarrow> str) \<Rightarrow> reader \<Rightarrow> str \<Rightarrow> file_cost \<Rightarrow> batch" where
  "read_batch lc rd lines prior =
     (let ms = messages lc rd lines; by_id = grouped ms in
      \<lparr>bt_usd = sum_list (map (\<lambda>(i, usd). if i = fc_last_id prior then max (usd - fc_last_usd prior) 0 else usd) by_id),
       bt_unpriced = list_ex ms_unpriced ms,
       bt_last = (if ms = [] then None else
         let i = ms_id (last ms); counted = the (map_of by_id i) in
         Some (i, if i = fc_last_id prior then max counted (fc_last_usd prior) else counted))\<rparr>)"

section \<open>Cents\<close>

text \<open>\<^verbatim>\<open>f64::round\<close> goes away from zero on a half, and the cast to \<^verbatim>\<open>i64\<close> saturates.\<close>

definition round_half_away :: "rat \<Rightarrow> int" where
  "round_half_away x = (if 0 \<le> x then \<lfloor>x + 1/2\<rfloor> else - \<lfloor>- x + 1/2\<rfloor>)"

definition to_cents :: "usd \<Rightarrow> int" where
  "to_cents usd = sat_i64 (round_half_away (usd * 100))"

section \<open>One file\<close>

text \<open>What the file system answers about a transcript: its length and inode, unless it cannot be
  opened, and the bytes from an offset on.\<close>

record file_view =
  fv_meta :: "(nat \<times> nat) option"
  fv_read :: "nat \<Rightarrow> str option"

definition complete_part :: "str \<Rightarrow> str" where
  "complete_part buf = rev (dropWhile (\<lambda>b. b \<noteq> 10) (rev buf))"

definition u64_max :: nat where "u64_max = 18446744073709551615"

definition advance_file ::
  "(str \<Rightarrow> str) \<Rightarrow> reader \<Rightarrow> (str \<times> file_cost) list \<Rightarrow> str \<Rightarrow> file_view \<Rightarrow> bool \<Rightarrow> (str \<times> file_cost) list" where
  "advance_file lc rd files key view first_call =
     (case fv_meta view of
        None \<Rightarrow> files
      | Some (len, inode) \<Rightarrow>
          let is_new = (map_of files key = None);
              entry0 = (case map_of files key of None \<Rightarrow> no_cost | Some f \<Rightarrow> f);
              entry1 = (if len < fc_offset entry0 \<or> (\<not> is_new \<and> fc_inode entry0 \<noteq> inode) then restart entry0 else entry0);
              entry2 = entry1\<lparr>fc_inode := inode\<rparr>
          in case fv_read view (fc_offset entry2) of
               None \<Rightarrow> files
             | Some buf \<Rightarrow>
                 let complete = complete_part buf; b = read_batch lc rd complete entry2;
                     entry3 = entry2\<lparr>fc_usd := fc_usd entry2 + bt_usd b, fc_unpriced := (fc_unpriced entry2 \<or> bt_unpriced b)\<rparr>;
                     entry4 = (case bt_last b of None \<Rightarrow> entry3 | Some (i, usd) \<Rightarrow> entry3\<lparr>fc_last_id := i, fc_last_usd := usd\<rparr>);
                     entry5 = entry4\<lparr>fc_offset := min u64_max (fc_offset entry4 + length complete)\<rparr>;
                     entry6 = (if is_new \<and> first_call then entry5\<lparr>fc_baseline := to_cents (fc_usd entry5)\<rparr> else entry5)
                 in AList.update key entry6 files)"

section \<open>What should be counted\<close>

definition ids :: "priced_message list \<Rightarrow> str set" where
  "ids ms = ms_id ` set ms"

fun largest :: "priced_message list \<Rightarrow> str \<Rightarrow> usd" where
  "largest [] i = 0"
| "largest (m # ms) i = (if ms_id m = i then max (ms_usd m) (largest ms i) else largest ms i)"

definition true_cost :: "priced_message list \<Rightarrow> usd" where
  "true_cost ms = (\<Sum>i \<in> ids ms. largest ms i)"

text \<open>The lines of each message stand together.\<close>

definition together :: "priced_message list \<Rightarrow> bool" where
  "together ms \<longleftrightarrow> distinct (remdups_adj (map ms_id ms))"

definition paid :: "priced_message list \<Rightarrow> bool" where
  "paid ms \<longleftrightarrow> list_all (\<lambda>m. 0 \<le> ms_usd m) ms"

lemma finite_ids [simp]: "finite (ids ms)"
  by (simp add: ids_def)

lemma ids_simps [simp]: "ids [] = {}" "ids (m # ms) = insert (ms_id m) (ids ms)" "ids (ms @ ns) = ids ms \<union> ids ns"
  by (auto simp: ids_def)

lemma largest_nonneg [simp]: "0 \<le> largest ms i"
  by (induction ms) auto

lemma largest_le_0 [simp]: "largest ms i \<le> 0 \<longleftrightarrow> largest ms i = 0"
  using largest_nonneg[of ms i] by linarith

lemma largest_append [simp]: "largest (ms @ ns) i = max (largest ms i) (largest ns i)"
  by (induction ms) auto

lemma largest_absent: "i \<notin> ids ms \<Longrightarrow> largest ms i = 0"
  by (induction ms) auto

lemma paid_append [simp]: "paid (ms @ ns) \<longleftrightarrow> paid ms \<and> paid ns"
  by (simp add: paid_def)

lemma grouped_snoc: "grouped (ms @ [m]) = bump m (grouped ms)"
  by (simp add: grouped_def)

lemma grouped_map: "paid ms \<Longrightarrow> map_of (grouped ms) i = (if i \<in> ids ms then Some (largest ms i) else None)"
proof (induction ms rule: rev_induct)
  case (snoc m ms)
  then have "paid ms" "0 \<le> ms_usd m" by (auto simp: paid_def)
  with snoc.IH largest_absent[of "ms_id m" ms] show ?case
    by (cases "ms_id m \<in> ids ms") (auto simp: grouped_snoc bump_def update_conv' max.commute max_def split: option.splits)
qed (simp add: grouped_def)

lemma grouped_distinct: "distinct (map fst (grouped ms))"
  by (induction ms rule: rev_induct) (simp_all add: grouped_snoc bump_def distinct_update, simp add: grouped_def)

lemma sum_grouped:
  assumes "paid ms"
  shows "sum_list (map (\<lambda>(i, u). g i u) (grouped ms)) = (\<Sum>i \<in> ids ms. g i (largest ms i))"
proof -
  have "p \<in> set (grouped ms) \<longleftrightarrow> fst p \<in> ids ms \<and> snd p = largest ms (fst p)" for p
    by (cases p) (auto simp: map_of_eq_Some_iff[OF grouped_distinct, symmetric] grouped_map[OF assms])
  then have grouped: "set (grouped ms) = (\<lambda>i. (i, largest ms i)) ` ids ms"
    by (auto simp: image_iff prod_eq_iff)
  have "sum_list (map (\<lambda>(i, u). g i u) (grouped ms)) = (\<Sum>p \<in> set (grouped ms). g (fst p) (snd p))"
    using grouped_distinct by (subst sum_list_distinct_conv_sum_set) (auto simp: distinct_map split_def)
  also note grouped
  also have "(\<Sum>p \<in> (\<lambda>i. (i, largest ms i)) ` ids ms. g (fst p) (snd p)) = (\<Sum>i \<in> ids ms. g i (largest ms i))"
    by (subst sum.reindex) (auto simp: inj_on_def)
  finally show ?thesis .
qed

section \<open>Reading in pieces\<close>

text \<open>What the record of a file says after the messages \<open>seen\<close>: the cost is spread over the
  messages, at least the largest cost on each, and what is remembered of the last one was counted.\<close>

definition counted :: "priced_message list \<Rightarrow> usd \<Rightarrow> str \<Rightarrow> usd \<Rightarrow> bool" where
  "counted seen usd i u \<longleftrightarrow> (\<exists>c. usd = (\<Sum>j \<in> ids seen. c j) \<and> (\<forall>j. largest seen j \<le> c j) \<and>
     (\<forall>j. j \<notin> ids seen \<longrightarrow> c j = 0) \<and> u \<le> c i)"

definition counted_exactly :: "priced_message list \<Rightarrow> usd \<Rightarrow> str \<Rightarrow> usd \<Rightarrow> bool" where
  "counted_exactly seen usd i u \<longleftrightarrow> usd = true_cost seen \<and>
     (if seen = [] then u = 0 else i = ms_id (last seen) \<and> u = largest seen i)"

definition added :: "priced_message list \<Rightarrow> str \<Rightarrow> usd \<Rightarrow> str \<Rightarrow> usd" where
  "added ms i u j = (if j \<in> ids ms then if j = i then max (largest ms j - u) 0 else largest ms j else 0)"

definition kept_last :: "priced_message list \<Rightarrow> str \<Rightarrow> usd \<Rightarrow> str \<times> usd" where
  "kept_last ms i u = (if ms = [] then (i, u) else
     (ms_id (last ms), if ms_id (last ms) = i then max (largest ms i) u else largest ms (ms_id (last ms))))"

lemma last_in_ids: "ms \<noteq> [] \<Longrightarrow> ms_id (last ms) \<in> ids ms"
  by (simp add: ids_def)

lemma read_batch_counts:
  assumes "paid (messages lc rd t)"
  shows "bt_usd (read_batch lc rd t f) = (\<Sum>j \<in> ids (messages lc rd t). added (messages lc rd t) (fc_last_id f) (fc_last_usd f) j)"
    "(case bt_last (read_batch lc rd t f) of None \<Rightarrow> (fc_last_id f, fc_last_usd f) | Some p \<Rightarrow> p) =
      kept_last (messages lc rd t) (fc_last_id f) (fc_last_usd f)"
    "bt_unpriced (read_batch lc rd t f) = list_ex ms_unpriced (messages lc rd t)"
proof -
  show "bt_usd (read_batch lc rd t f) = (\<Sum>j \<in> ids (messages lc rd t). added (messages lc rd t) (fc_last_id f) (fc_last_usd f) j)"
    by (simp add: read_batch_def Let_def sum_grouped[OF assms] added_def cong: sum.cong)
  show "(case bt_last (read_batch lc rd t f) of None \<Rightarrow> (fc_last_id f, fc_last_usd f) | Some p \<Rightarrow> p) =
      kept_last (messages lc rd t) (fc_last_id f) (fc_last_usd f)"
    using last_in_ids[of "messages lc rd t"]
    by (cases "messages lc rd t = []") (auto simp: read_batch_def Let_def kept_last_def grouped_map[OF assms])
  show "bt_unpriced (read_batch lc rd t f) = list_ex ms_unpriced (messages lc rd t)"
    by (simp add: read_batch_def Let_def)
qed

lemma counted_step:
  assumes "counted seen usd i u" "kept_last ms i u = (i', u')"
  shows "counted (seen @ ms) (usd + (\<Sum>j \<in> ids ms. added ms i u j)) i' u'"
proof -
  from assms(1) obtain c where c: "usd = (\<Sum>j \<in> ids seen. c j)" "\<And>j. largest seen j \<le> c j" "\<And>j. j \<notin> ids seen \<Longrightarrow> c j = 0" "u \<le> c i"
    by (auto simp: counted_def)
  let ?c = "\<lambda>j. c j + added ms i u j"
  have pos: "0 \<le> c j" for j using c(2)[of j] largest_nonneg[of seen j] by linarith
  have "(\<Sum>j \<in> ids (seen @ ms). ?c j) = (\<Sum>j \<in> ids (seen @ ms). c j) + (\<Sum>j \<in> ids (seen @ ms). added ms i u j)"
    by (rule sum.distrib)
  also have "(\<Sum>j \<in> ids (seen @ ms). c j) = usd"
    unfolding c(1) by (rule sum.mono_neutral_right) (use c(3) in auto)
  also have "(\<Sum>j \<in> ids (seen @ ms). added ms i u j) = (\<Sum>j \<in> ids ms. added ms i u j)"
    by (rule sum.mono_neutral_right) (auto simp: added_def)
  finally have usd: "usd + (\<Sum>j \<in> ids ms. added ms i u j) = (\<Sum>j \<in> ids (seen @ ms). ?c j)" ..
  have "largest ms j \<le> ?c j" for j
    using c(4) pos[of j] largest_absent[of j ms] by (auto simp: added_def)
  moreover have "largest seen j \<le> ?c j" for j
    using c(2)[of j] largest_nonneg[of ms j] by (auto simp: added_def intro: add_increasing2)
  ultimately have above: "largest (seen @ ms) j \<le> ?c j" for j by simp
  moreover have "u' \<le> ?c i'"
    using assms(2) c(4) calculation[of i'] largest_nonneg[of ms i]
    by (auto simp: kept_last_def added_def split: if_splits)
  moreover have "j \<notin> ids (seen @ ms) \<Longrightarrow> ?c j = 0" for j using c(3) by (simp add: added_def)
  ultimately show ?thesis using usd unfolding counted_def by blast
qed

lemma counted_at_least: "counted seen usd i u \<Longrightarrow> true_cost seen \<le> usd"
  by (auto simp: counted_def true_cost_def intro: sum_mono)

lemma together_last:
  assumes "together (seen @ ms)" "j \<in> ids seen" "j \<in> ids ms"
  shows "j = ms_id (last seen)"
proof (rule ccontr)
  assume j: "j \<noteq> ms_id (last seen)"
  from assms(2) have "seen \<noteq> []" by auto
  then obtain ss x where x: "map ms_id seen = ss @ [x]" "x = ms_id (last seen)"
    by (metis last_map list.map_disc_iff append_butlast_last_id)
  let ?ys = "map ms_id ms"
  have "distinct (remdups_adj (ss @ [x]) @ tl (remdups_adj (x # ?ys)))"
    using assms(1) x(1) remdups_adj_append[of ss x ?ys] by (simp add: together_def)
  moreover have "j \<in> set (remdups_adj (ss @ [x]))"
    using assms(2) x(1) by (metis ids_def list.set_map remdups_adj_set)
  moreover have "remdups_adj (x # ?ys) = x # tl (remdups_adj (x # ?ys))"
    by (metis remdups_adj_Cons_alt)
  then have "insert x (set ?ys) = insert x (set (tl (remdups_adj (x # ?ys))))"
    by (metis list.simps(15) remdups_adj_set)
  with assms(3) j x(2) have "j \<in> set (tl (remdups_adj (x # ?ys)))" by (auto simp: ids_def)
  ultimately show False by auto
qed

lemma counted_exactly_step:
  assumes "counted_exactly seen usd i u" "kept_last ms i u = (i', u')" "together (seen @ ms)"
  shows "counted_exactly (seen @ ms) (usd + (\<Sum>j \<in> ids ms. added ms i u j)) i' u'"
proof -
  have fresh: "j \<in> ids ms \<Longrightarrow> j \<noteq> i \<Longrightarrow> j \<notin> ids seen" for j
    using assms(1) together_last[OF assms(3), of j] by (auto simp: counted_exactly_def split: if_splits)
  have u: "u = (if seen = [] then 0 else largest seen i)"
    using assms(1) by (auto simp: counted_exactly_def)
  have "largest (seen @ ms) j = largest seen j + added ms i u j" for j
    using fresh[of j] largest_absent[of j ms] largest_absent[of j seen] u by (auto simp: added_def max_def)
  then have "true_cost (seen @ ms) = (\<Sum>j \<in> ids (seen @ ms). largest seen j) + (\<Sum>j \<in> ids (seen @ ms). added ms i u j)"
    by (simp add: true_cost_def sum.distrib del: largest_append)
  also have "(\<Sum>j \<in> ids (seen @ ms). largest seen j) = usd"
  proof -
    have "usd = (\<Sum>j \<in> ids seen. largest seen j)" using assms(1) by (simp add: counted_exactly_def true_cost_def)
    then show ?thesis by (simp only:) (rule sum.mono_neutral_right, auto simp: largest_absent)
  qed
  also have "(\<Sum>j \<in> ids (seen @ ms). added ms i u j) = (\<Sum>j \<in> ids ms. added ms i u j)"
    by (rule sum.mono_neutral_right) (auto simp: added_def)
  finally have "usd + (\<Sum>j \<in> ids ms. added ms i u j) = true_cost (seen @ ms)" ..
  moreover have "i' = ms_id (last (seen @ ms)) \<and> u' = largest (seen @ ms) i'" if "seen @ ms \<noteq> []"
  proof (cases "ms = []")
    case True
    with assms(1,2) that show ?thesis by (simp add: counted_exactly_def kept_last_def)
  next
    case False
    with assms(2) have i': "i' = ms_id (last ms)" "u' = (if i' = i then max (largest ms i) u else largest ms i')"
      by (auto simp: kept_last_def)
    with fresh[of i'] last_in_ids[OF False] u False show ?thesis
      by (auto simp: largest_absent max.commute)
  qed
  moreover have "u' = 0" if "seen @ ms = []"
    using that assms(1,2) by (simp add: counted_exactly_def kept_last_def)
  ultimately show ?thesis by (simp add: counted_exactly_def)
qed

section \<open>Lines of a growing file\<close>

lemma split_on_mid: "split_on d (a @ d # b) = split_on d a @ split_on d b"
proof (induction a)
  case (Cons c a)
  then show ?case by (cases "split_on d a") (auto split: list.splits)
qed simp

definition ends_line :: "str \<Rightarrow> bool" where
  "ends_line p \<longleftrightarrow> p = [] \<or> last p = 10"

lemma ends_lineE: "ends_line p \<Longrightarrow> p = [] \<or> (\<exists>q. p = q @ [10])"
  by (cases p rule: rev_cases) (auto simp: ends_line_def)

lemma map_filter_append: "List.map_filter f (xs @ ys) = List.map_filter f xs @ List.map_filter f ys"
  by (simp add: List.map_filter_def)

lemma messages_append:
  assumes "rd_line rd [] = None" "ends_line p"
  shows "messages lc rd (p @ q) = messages lc rd p @ messages lc rd q"
proof -
  have nil: "List.map_filter (line_message lc rd) [[]] = []"
    using assms(1) by (simp add: List.map_filter_def line_message_def)
  from ends_lineE[OF assms(2)] show ?thesis
    using nil by (auto simp: messages_def split_on_mid map_filter_append)
qed

lemma complete_part_prefix: "\<exists>r. t = complete_part t @ r"
proof -
  have "rev t = takeWhile (\<lambda>b. b \<noteq> 10) (rev t) @ dropWhile (\<lambda>b. b \<noteq> 10) (rev t)" by simp
  then have "t = complete_part t @ rev (takeWhile (\<lambda>b. b \<noteq> 10) (rev t))"
    unfolding complete_part_def by (metis rev_append rev_rev_ident)
  then show ?thesis ..
qed

lemma complete_part_ends: "ends_line (complete_part t)"
proof -
  have "dropWhile (\<lambda>b. b \<noteq> (10::nat)) xs = [] \<or> hd (dropWhile (\<lambda>b. b \<noteq> 10) xs) = 10" for xs
    using hd_dropWhile[of "\<lambda>b. b \<noteq> (10::nat)" xs] by blast
  from this[of "rev t"] show ?thesis by (auto simp: ends_line_def complete_part_def last_rev)
qed

lemma complete_part_append: "ends_line p \<Longrightarrow> complete_part (p @ r) = p @ complete_part r"
proof (cases "10 \<in> set r")
  case True
  then show ?thesis by (simp add: complete_part_def dropWhile_append1)
next
  case False
  assume "ends_line p"
  from ends_lineE[OF this] False show ?thesis
    by (auto simp: complete_part_def dropWhile_append3 dropWhile_eq_Nil_conv)
qed

text \<open>A file that only grows, seen at one moment.\<close>

definition growing_view :: "nat \<Rightarrow> str \<Rightarrow> file_view" where
  "growing_view inode t = \<lparr>fv_meta = Some (length t, inode), fv_read = (\<lambda>offset. Some (drop offset t))\<rparr>"

definition up_to_date :: "(str \<Rightarrow> str) \<Rightarrow> reader \<Rightarrow> nat \<Rightarrow> str \<Rightarrow> file_cost \<Rightarrow> bool" where
  "up_to_date lc rd inode t f \<longleftrightarrow> fc_offset f = length (complete_part t) \<and> fc_inode f = inode \<and>
     (let ms = messages lc rd (complete_part t) in
      counted ms (fc_usd f) (fc_last_id f) (fc_last_usd f) \<and>
      (together ms \<longrightarrow> counted_exactly ms (fc_usd f) (fc_last_id f) (fc_last_usd f)) \<and>
      (fc_unpriced f \<longleftrightarrow> list_ex ms_unpriced ms))"

lemma message_cost_paid: "message_cost lc rd line = Some m \<Longrightarrow> 0 \<le> ms_usd m"
  by (auto simp: message_cost_def Let_def apply_pricing_nonneg split: option.splits if_splits)

lemma line_message_paid: "line_message lc rd line = Some m \<Longrightarrow> 0 \<le> ms_usd m"
  by (auto simp: line_message_def bind_eq_Some_conv dest: message_cost_paid)

lemma messages_paid: "paid (messages lc rd t)"
  by (auto simp: paid_def list_all_iff messages_def List.map_filter_def dest: line_message_paid)

lemma together_prefix: "together (ms @ ns) \<Longrightarrow> together ms"
proof (cases ms rule: rev_cases)
  case (snoc as x)
  assume "together (ms @ ns)"
  with snoc remdups_adj_append[of "map ms_id as" "ms_id x" "map ms_id ns"] show ?thesis by (simp add: together_def)
qed (simp add: together_def)

text \<open>What a read makes of the entry it starts from.\<close>

definition read_on :: "(str \<Rightarrow> str) \<Rightarrow> reader \<Rightarrow> file_cost \<Rightarrow> str \<Rightarrow> file_cost" where
  "read_on lc rd f q =
     (let b = read_batch lc rd q f; (i, u) = (case bt_last b of None \<Rightarrow> (fc_last_id f, fc_last_usd f) | Some p \<Rightarrow> p) in
      f\<lparr>fc_usd := fc_usd f + bt_usd b, fc_unpriced := (fc_unpriced f \<or> bt_unpriced b), fc_last_id := i, fc_last_usd := u,
        fc_offset := min u64_max (fc_offset f + length q)\<rparr>)"

lemma read_on_up_to_date:
  assumes "rd_line rd [] = None" "up_to_date lc rd inode p f" "t = complete_part p @ r" "length t \<le> u64_max"
  shows "up_to_date lc rd inode t (read_on lc rd f (complete_part r))"
proof -
  let ?q = "complete_part r"
  let ?seen = "messages lc rd (complete_part p)" and ?ms = "messages lc rd ?q"
  have t: "complete_part t = complete_part p @ ?q"
    by (simp add: assms(3) complete_part_append complete_part_ends)
  have all: "messages lc rd (complete_part t) = ?seen @ ?ms"
    unfolding t by (rule messages_append[OF assms(1) complete_part_ends])
  obtain i u where k: "kept_last ?ms (fc_last_id f) (fc_last_usd f) = (i, u)" by fastforce
  note b = read_batch_counts[of lc rd ?q f, OF messages_paid]
  have read: "read_on lc rd f ?q = f\<lparr>fc_usd := fc_usd f + (\<Sum>j \<in> ids ?ms. added ?ms (fc_last_id f) (fc_last_usd f) j),
      fc_unpriced := (fc_unpriced f \<or> list_ex ms_unpriced ?ms), fc_last_id := i, fc_last_usd := u,
      fc_offset := min u64_max (fc_offset f + length ?q)\<rparr>"
    by (simp add: read_on_def Let_def b k)
  obtain r' where "t = complete_part t @ r'" using complete_part_prefix by blast
  then have "length (complete_part t) \<le> u64_max" using assms(4) by (metis length_append trans_le_add1 le_trans le_add1)
  moreover note together_prefix[of ?seen ?ms]
  ultimately show ?thesis
    using assms(2) counted_step[OF _ k] counted_exactly_step[OF _ k]
    unfolding up_to_date_def Let_def all read by (simp add: t)
qed

lemma up_to_date_fresh:
  assumes "rd_line rd [] = None"
  shows "up_to_date lc rd inode [] (no_cost\<lparr>fc_inode := inode\<rparr>)"
proof -
  have "messages lc rd [] = []" using assms by (simp add: messages_def List.map_filter_def line_message_def)
  then show ?thesis
    by (simp add: up_to_date_def complete_part_def no_cost_def counted_def counted_exactly_def true_cost_def)
       (rule exI[of _ "\<lambda>_. 0"], simp)
qed

lemma up_to_date_baseline: "up_to_date lc rd inode t (f\<lparr>fc_baseline := b\<rparr>) = up_to_date lc rd inode t f"
  by (simp add: up_to_date_def)

text \<open>The entry a read starts from, and the text it has covered.\<close>

definition starts_from :: "(str \<Rightarrow> str) \<Rightarrow> reader \<Rightarrow> nat \<Rightarrow> (str \<times> file_cost) list \<Rightarrow> str \<Rightarrow> str \<Rightarrow> bool" where
  "starts_from lc rd inode files key p \<longleftrightarrow> (case map_of files key of None \<Rightarrow> p = [] | Some f \<Rightarrow> up_to_date lc rd inode p f)"

lemma advance_file_on:
  assumes "e = (case map_of files key of None \<Rightarrow> no_cost | Some f \<Rightarrow> f)" "e' = e\<lparr>fc_inode := inode\<rparr>"
    "\<not> (length t < fc_offset e \<or> (map_of files key \<noteq> None \<and> fc_inode e \<noteq> inode))"
    "f = read_on lc rd e' (complete_part (drop (fc_offset e') t))"
  shows "advance_file lc rd files key (growing_view inode t) first_call =
    AList.update key (if map_of files key = None \<and> first_call then f\<lparr>fc_baseline := to_cents (fc_usd f)\<rparr> else f) files"
proof -
  have f: "f = (case bt_last (read_batch lc rd (complete_part (drop (fc_offset e') t)) e') of
      None \<Rightarrow> e'\<lparr>fc_usd := fc_usd e' + bt_usd (read_batch lc rd (complete_part (drop (fc_offset e') t)) e'),
                fc_unpriced := (fc_unpriced e' \<or> bt_unpriced (read_batch lc rd (complete_part (drop (fc_offset e') t)) e')),
                fc_offset := min u64_max (fc_offset e' + length (complete_part (drop (fc_offset e') t)))\<rparr>
    | Some (i, usd) \<Rightarrow> e'\<lparr>fc_usd := fc_usd e' + bt_usd (read_batch lc rd (complete_part (drop (fc_offset e') t)) e'),
                fc_unpriced := (fc_unpriced e' \<or> bt_unpriced (read_batch lc rd (complete_part (drop (fc_offset e') t)) e')),
                fc_last_id := i, fc_last_usd := usd,
                fc_offset := min u64_max (fc_offset e' + length (complete_part (drop (fc_offset e') t)))\<rparr>)"
    unfolding assms(4) by (simp add: read_on_def Let_def split: option.splits prod.splits)
  show ?thesis
    unfolding f advance_file_def growing_view_def Let_def file_view.simps option.case prod.case assms(1)[symmetric]
      if_not_P[OF assms(3)] assms(2)[symmetric]
    by (simp split: option.splits prod.splits)
qed

lemma advance_growing:
  assumes "rd_line rd [] = None" "starts_from lc rd inode files key p" "prefix p t" "length t \<le> u64_max"
  shows "\<exists>f. map_of (advance_file lc rd files key (growing_view inode t) first_call) key = Some f \<and> up_to_date lc rd inode t f \<and>
    (map_of files key = None \<and> first_call \<or> fc_baseline f = (case map_of files key of None \<Rightarrow> 0 | Some e \<Rightarrow> fc_baseline e))"
proof -
  define e where "e = (case map_of files key of None \<Rightarrow> no_cost | Some f \<Rightarrow> f)"
  define e' where "e' = e\<lparr>fc_inode := inode\<rparr>"
  have old: "up_to_date lc rd inode p e'"
    using assms(1,2) up_to_date_fresh[OF assms(1), of lc inode]
    by (auto simp: starts_from_def e_def e'_def up_to_date_def split: option.splits)
  then have offset: "fc_offset e' = length (complete_part p)" by (simp add: up_to_date_def)
  obtain r where r: "t = complete_part p @ r"
    using assms(3) complete_part_prefix[of p] by (auto simp: prefix_def) (metis append_assoc)
  define f where "f = read_on lc rd e' (complete_part (drop (fc_offset e') t))"
  have "\<not> (length t < fc_offset e \<or> (map_of files key \<noteq> None \<and> fc_inode e \<noteq> inode))"
    using assms(2) offset r by (auto simp: starts_from_def e_def e'_def up_to_date_def split: option.splits)
  note advance = advance_file_on[OF e_def e'_def this f_def]
  have "up_to_date lc rd inode t f"
    using read_on_up_to_date[OF assms(1) old r assms(4)] by (simp add: f_def offset r)
  moreover have "fc_baseline f = (case map_of files key of None \<Rightarrow> 0 | Some e \<Rightarrow> fc_baseline e)"
    by (simp add: f_def e'_def e_def read_on_def Let_def no_cost_def split: option.splits prod.splits)
  ultimately show ?thesis unfolding advance by (simp add: update_conv' up_to_date_baseline)
qed

section \<open>The spend of a transcript\<close>

definition read_all :: "(str \<Rightarrow> str) \<Rightarrow> reader \<Rightarrow> nat \<Rightarrow> str \<Rightarrow> (str \<times> bool) list \<Rightarrow> (str \<times> file_cost) list" where
  "read_all lc rd inode key reads =
     foldl (\<lambda>files (t, first_call). advance_file lc rd files key (growing_view inode t) first_call) [] reads"

lemma read_all_up_to_date:
  assumes "rd_line rd [] = None"
  shows "reads \<noteq> [] \<Longrightarrow> sorted_wrt prefix (map fst reads) \<Longrightarrow> list_all (\<lambda>(t, _). length t \<le> u64_max) reads \<Longrightarrow>
    \<exists>f. map_of (read_all lc rd inode key reads) key = Some f \<and> up_to_date lc rd inode (fst (last reads)) f"
proof (induction reads rule: rev_induct)
  case (snoc x reads)
  obtain t first where x: "x = (t, first)" by (cases x)
  let ?p = "if reads = [] then [] else fst (last reads)"
  have "starts_from lc rd inode (read_all lc rd inode key reads) key ?p"
    using snoc by (auto simp: starts_from_def read_all_def sorted_wrt_append)
  moreover have "prefix ?p t" using snoc.prems x by (auto simp: sorted_wrt_append)
  ultimately show ?case
    using advance_growing[OF assms, of lc inode "read_all lc rd inode key reads" key ?p t first] snoc.prems x
    by (auto simp: read_all_def)
qed simp

text \<open>
  C16. However the reads of the hook fall while a transcript grows, what it has counted is never
  below the cost of the messages on the complete lines: the largest of every message, summed. The
  two are equal when the lines of each message stand together, and a message without a price
  is never lost.
\<close>

theorem spend_is_never_undercounted:
  assumes "rd_line rd [] = None" "reads \<noteq> []" "sorted_wrt prefix (map fst reads)"
    "list_all (\<lambda>(t, _). length t \<le> u64_max) reads"
  shows "case map_of (read_all lc rd inode key reads) key of None \<Rightarrow> False | Some f \<Rightarrow>
    let ms = messages lc rd (complete_part (fst (last reads))) in
    true_cost ms \<le> fc_usd f \<and> (\<not> together ms \<or> fc_usd f = true_cost ms) \<and> (fc_unpriced f \<longleftrightarrow> list_ex ms_unpriced ms)"
  using read_all_up_to_date[OF assms, of lc inode key] counted_at_least
  by (auto simp: up_to_date_def Let_def counted_exactly_def)

text \<open>A reader for samples: a line is one character that names the message, and its output tokens.\<close>

definition sample_reader :: reader where
  "sample_reader = \<lparr>rd_line = (\<lambda>line. case line of [] \<Rightarrow> None | c # n \<Rightarrow>
       Some (JObj [(lit ''type'', JStr (lit ''assistant'')),
         (lit ''message'', JObj [(lit ''id'', JStr [c]), (lit ''model'', JStr (lit ''opus-5'')),
            (lit ''usage'', JObj [(lit ''output_tokens'', JNum n)])])])),
     rd_u64 = (\<lambda>s. Some (length s)), rd_f64 = (\<lambda>s. Some (of_nat (length s)))\<rparr>"

lemma sample_message:
  "line_message id sample_reader (c # n) = Some \<lparr>ms_id = [c], ms_usd = of_nat (length n) / 40000, ms_unpriced = False\<rparr>"
proof -
  have name: "normalize_model id (lit ''opus-5'') = lit ''opus-5''"
    by (simp add: normalize_model_def trim_start_word.simps lit_def starts_with_def rsplit_once_def DATE_SUFFIX_LEN_def)
  have row: "find (\<lambda>(n, _). n = lit ''opus-5'') PRICES = Some (lit ''opus-5'', 5, 25, 1/10)"
    by (simp add: PRICES_def)
  have "cost_usd id (lit ''opus-5'') \<lparr>tk_input = 0, tk_output = k, tk_write_5m = 0, tk_write_1h = 0, tk_read = 0\<rparr> = Some (of_nat k / 40000)" for k
    unfolding cost_usd_def Let_def name row by (simp add: TOKENS_PER_UNIT_def)
  then show ?thesis
    by (simp add: line_message_def sample_reader_def message_cost_def token_def one_hour_cache_tokens_def
        apply_pricing_def event_tokens_def)
qed

theorem spend_is_never_undercounted_witness:
  "case map_of (read_all id sample_reader 1 [] [([97, 120, 10, 97], True), ([97, 120, 10, 97, 120, 120, 10], False)]) [] of
     None \<Rightarrow> False | Some f \<Rightarrow> fc_usd f = 1 / 20000 \<and> \<not> fc_unpriced f"
proof -
  have ms: "messages id sample_reader (complete_part [97, 120, 10, 97, 120, 120, 10]) =
      [\<lparr>ms_id = [97], ms_usd = 1 / 40000, ms_unpriced = False\<rparr>, \<lparr>ms_id = [97], ms_usd = 2 / 40000, ms_unpriced = False\<rparr>]"
    by (simp add: messages_def complete_part_def List.map_filter_def sample_message line_message_def[of _ _ "[]"])
       (simp add: sample_reader_def)
  have "rd_line sample_reader [] = None" by (simp add: sample_reader_def)
  then show ?thesis
    using spend_is_never_undercounted[of sample_reader "[([97, 120, 10, 97], True), ([97, 120, 10, 97, 120, 120, 10], False)]" id 1 "[]"]
    by (simp add: ms u64_max_def together_def true_cost_def Let_def split: option.splits)
qed

end
