(* ===== verification/Budget.thy ===== *)
theory Budget
  imports Transcript Calendar Closing Store_Writes
begin

text \<open>
  The budget guard, \<^verbatim>\<open>crates/cli/src/hooks/auto_cost.rs\<close>, and the resolver of the run mode,
  \<^verbatim>\<open>common/mode.rs\<close>. The guard runs before every tool call. It names the caller, brings the
  stored spend up to date and answers with a denial, notes or nothing. What the disk holds is the
  record \<open>hook_world\<close>; the texts of a denial are constructors with what they show.
\<close>

section \<open>The run mode\<close>

datatype mode = Ask | Auto_Mode

datatype mode_source = From_Flag | From_Env | From_Config | From_Default

datatype mode_warning = Invalid_Level str str | Unreadable_Config str

record resolved =
  rs_mode :: mode
  rs_source :: mode_source
  rs_warnings :: "mode_warning list"

definition parse_mode :: "str \<Rightarrow> mode option" where
  "parse_mode v = (if v = lit ''ask'' then Some Ask else if v = lit ''auto'' then Some Auto_Mode else None)"

definition parse_level :: "str \<Rightarrow> str option \<Rightarrow> bool \<Rightarrow> mode option \<times> mode_warning list" where
  "parse_level level raw case_insensitive = (case raw of
     None \<Rightarrow> (None, [])
   | Some r \<Rightarrow>
       let trimmed = trim r; parsed = parse_mode (if case_insensitive then map to_ascii_lower trimmed else trimmed) in
       if trimmed = [] then (None, [])
       else (parsed, if parsed = None then [Invalid_Level level trimmed] else []))"

definition resolve_mode :: "mode option \<Rightarrow> str option \<Rightarrow> str option \<Rightarrow> resolved" where
  "resolve_mode flag env config =
     (let (env_mode, w1) = parse_level (lit ''PLAYBOOK_MODE'') env True;
          (config_mode, w2) = parse_level (lit ''mode config'') config False;
          (m, src) = (case flag of Some m \<Rightarrow> (m, From_Flag)
            | None \<Rightarrow> (case env_mode of Some m \<Rightarrow> (m, From_Env)
            | None \<Rightarrow> (case config_mode of Some m \<Rightarrow> (m, From_Config) | None \<Rightarrow> (Ask, From_Default))))
      in \<lparr>rs_mode = m, rs_source = src, rs_warnings = w1 @ w2\<rparr>)"

text \<open>\<open>tier\<close> is what the config answers for \<^verbatim>\<open>mode\<close>: an error, its built-in default, or the text
  of the value of a tier.\<close>

datatype tier = Tier_Error str | Tier_Default | Tier_Value str

definition resolve_for_hook_at :: "str option \<Rightarrow> tier \<Rightarrow> resolved" where
  "resolve_for_hook_at env tier =
     (let (config, warning) = (case tier of
            Tier_Default \<Rightarrow> (None, []) | Tier_Value v \<Rightarrow> (Some v, []) | Tier_Error e \<Rightarrow> (None, [Unreadable_Config e]));
          r = resolve_mode None env config
      in r\<lparr>rs_warnings := rs_warnings r @ warning\<rparr>)"

section \<open>Limits\<close>

datatype caller = Main | Agent str

definition DEFAULT_BUDGET_CENTS :: int where "DEFAULT_BUDGET_CENTS = 200 * 100"
definition DEFAULT_AGENT_BUDGET_CENTS :: int where "DEFAULT_AGENT_BUDGET_CENTS = 50 * 100"
definition CEILING_FACTOR :: int where "CEILING_FACTOR = 10"
definition DEFAULT_WARN_PCT :: nat where "DEFAULT_WARN_PCT = 70"
definition DEFAULT_INTERVAL_MS :: nat where "DEFAULT_INTERVAL_MS = 2000"

record limits =
  lm_cap :: int
  lm_agent_cap :: int
  lm_ceiling :: int
  lm_ceiling_is_set :: bool
  lm_pct :: nat
  lm_budget_is_valid :: bool
  lm_agent_budget_is_valid :: bool
  lm_mode_from_env :: bool

definition auto_cap_cents :: "reader \<Rightarrow> json \<Rightarrow> int option" where
  "auto_cap_cents rd v = (case as_f64 rd v of
     None \<Rightarrow> None
   | Some usd \<Rightarrow> if to_cents usd > 0 then Some (to_cents usd) else None)"

definition read_limits :: "reader \<Rightarrow> (str \<Rightarrow> json option) \<Rightarrow> limits" where
  "read_limits rd config =
     (let cents = (\<lambda>key. Option.bind (config key) (auto_cap_cents rd));
          budget = cents (lit ''auto.budgetUsd''); agent = cents (lit ''auto.agentBudgetUsd'');
          pct = (case Option.bind (config (lit ''auto.warnPct'')) (as_u64 rd) of
                   Some p \<Rightarrow> if 1 \<le> p \<and> p \<le> 100 then p else DEFAULT_WARN_PCT | None \<Rightarrow> DEFAULT_WARN_PCT);
          cap = (case budget of None \<Rightarrow> DEFAULT_BUDGET_CENTS | Some c \<Rightarrow> c);
          tree = cents (lit ''auto.sessionCeilingUsd'')
      in \<lparr>lm_cap = cap, lm_agent_cap = (case agent of None \<Rightarrow> DEFAULT_AGENT_BUDGET_CENTS | Some c \<Rightarrow> c),
          lm_ceiling = (case tree of None \<Rightarrow> sat_i64 (cap * CEILING_FACTOR) | Some c \<Rightarrow> c),
          lm_ceiling_is_set = (tree \<noteq> None), lm_pct = pct, lm_budget_is_valid = (budget \<noteq> None),
          lm_agent_budget_is_valid = (agent \<noteq> None), lm_mode_from_env = False\<rparr>)"

fun cap_of :: "limits \<Rightarrow> caller \<Rightarrow> int" where
  "cap_of l Main = lm_cap l"
| "cap_of l (Agent _) = lm_agent_cap l"

definition warn_of :: "limits \<Rightarrow> caller \<Rightarrow> int" where
  "warn_of l c = sat_i64 (round_half_away (of_int (cap_of l c) * of_nat (lm_pct l) / 100))"

section \<open>Paths of transcripts\<close>

text \<open>A path as its root and the segments between slashes; \<open>trim_body\<close> drops the empty and the
  \<^verbatim>\<open>.\<close> segments at the end, as \<^verbatim>\<open>Components::as_path\<close> does.\<close>

definition rooted :: "str \<Rightarrow> bool" where
  "rooted p \<longleftrightarrow> starts_with p (lit ''/'')"

definition path_body :: "str \<Rightarrow> str list" where
  "path_body p = split_on 47 (if rooted p then tl p else p)"

definition trim_body :: "bool \<Rightarrow> str list \<Rightarrow> str list" where
  "trim_body rooted_path segs =
     (let n = (if \<not> rooted_path \<and> segs \<noteq> [] \<and> hd segs = lit ''.'' then 1 else 0) in
      take n segs @ rev (dropWhile (\<lambda>p. p = [] \<or> p = lit ''.'') (rev (drop n segs))))"

definition body_path :: "bool \<Rightarrow> str list \<Rightarrow> str" where
  "body_path rooted_path segs = (if rooted_path then lit ''/'' else []) @ join_with 47 segs"

definition path_parent :: "str \<Rightarrow> str option" where
  "path_parent p = (let segs = trim_body (rooted p) (path_body p) in
     if segs = [] then None else Some (body_path (rooted p) (trim_body (rooted p) (butlast segs))))"

text \<open>\<^verbatim>\<open>Path::with_extension\<close>: the text up to the end of the file stem, and the new extension.\<close>

definition file_stem_of :: "str \<Rightarrow> str" where
  "file_stem_of name = (case rsplit_once 46 name of
     Some (before, _) \<Rightarrow> if before = [] then name else before | None \<Rightarrow> name)"

definition with_extension :: "str \<Rightarrow> str \<Rightarrow> str" where
  "with_extension p ext = (case file_name p of
     None \<Rightarrow> p
   | Some name \<Rightarrow>
       let segs = trim_body (rooted p) (path_body p) in
       body_path (rooted p) (butlast segs @ [file_stem_of name]) @ (if ext = [] then [] else 46 # ext))"

definition strip_suffix_of :: "str \<Rightarrow> str \<Rightarrow> str option" where
  "strip_suffix_of ending s = map_option rev (strip_prefix (rev ending) (rev s))"

definition is_agent_transcript :: "str \<Rightarrow> bool" where
  "is_agent_transcript p = (case file_name p of
     None \<Rightarrow> False | Some name \<Rightarrow> starts_with name (lit ''agent-'') \<and> suffix (lit ''.jsonl'') name)"

definition agent_id :: "str \<Rightarrow> str option" where
  "agent_id raw =
     (let i = filter (\<lambda>c. is_ascii_alnum c \<or> c = 45 \<or> c = 95) (or_else (lit ''agent-'') raw) in
      if i = [] then None else Some i)"

definition own_agent_id :: "str \<Rightarrow> (str \<times> str) option" where
  "own_agent_id p =
     (if \<not> is_agent_transcript p then None
      else case path_parent p of
        None \<Rightarrow> None
      | Some dir \<Rightarrow>
          if file_name dir \<noteq> Some (lit ''subagents'') then None
          else case path_parent dir of
            None \<Rightarrow> None
          | Some stem \<Rightarrow>
              (case Option.bind (Option.bind (file_name p) (strip_suffix_of (lit ''.jsonl''))) agent_id of
                 None \<Rightarrow> None
               | Some i \<Rightarrow> Some (with_extension stem (lit ''jsonl''), i)))"

record transcripts =
  tr_main :: str
  tr_caller :: caller

definition transcripts_of :: "str \<Rightarrow> str \<Rightarrow> transcripts" where
  "transcripts_of given raw_id =
     (let (main, from_path) = (case own_agent_id given of Some (main, i) \<Rightarrow> (main, Some i) | None \<Rightarrow> (given, None))
      in \<lparr>tr_main = main,
          tr_caller = (case agent_id raw_id of Some i \<Rightarrow> Agent i
            | None \<Rightarrow> (case from_path of Some i \<Rightarrow> Agent i | None \<Rightarrow> Main))\<rparr>)"

definition agent_path :: "str \<Rightarrow> str \<Rightarrow> str" where
  "agent_path stem i = path_join (path_join stem (lit ''subagents'')) (lit ''agent-'' @ i @ lit ''.jsonl'')"

definition own_key :: "transcripts \<Rightarrow> str option" where
  "own_key tr = (case tr_caller tr of
     Main \<Rightarrow> if tr_main tr = [] then None else Some (tr_main tr)
   | Agent i \<Rightarrow> map_option (\<lambda>stem. agent_path stem i) (strip_suffix_of (lit ''.jsonl'') (tr_main tr)))"

section \<open>The stored spend\<close>

record hook_state =
  hs_effective :: int
  hs_computed_at :: nat
  hs_files :: "(str \<times> file_cost) list"
  hs_telemetry :: "(int \<times> int) option"

definition no_state :: hook_state where
  "no_state = \<lparr>hs_effective = 0, hs_computed_at = 0, hs_files = [], hs_telemetry = None\<rparr>"

text \<open>What the disk and the clock answer during one call of the hook: the session folder (empty
  without a session id), the stored state before and inside the lock, whether the new state could
  be stored, the transcripts, the entries of a folder and the end of the telemetry file.\<close>

record hook_world =
  hw_dir :: str
  hw_now :: nat
  hw_interval :: nat
  hw_loaded :: "hook_state option"
  hw_reloaded :: "hook_state option"
  hw_stored :: bool
  hw_view :: "str \<Rightarrow> file_view"
  hw_entries :: "str \<Rightarrow> str list"
  hw_telemetry_tail :: "str option"

definition transcript_files :: "hook_world \<Rightarrow> transcripts \<Rightarrow> str list" where
  "transcript_files w tr = (case strip_suffix_of (lit ''.jsonl'') (tr_main tr) of
     None \<Rightarrow> if tr_main tr = [] then [] else [tr_main tr]
   | Some stem \<Rightarrow> tr_main tr # filter is_agent_transcript (hw_entries w (path_join stem (lit ''subagents''))))"

fun find_map :: "('a \<Rightarrow> 'b option) \<Rightarrow> 'a list \<Rightarrow> 'b option" where
  "find_map f [] = None"
| "find_map f (x # xs) = (case f x of None \<Rightarrow> find_map f xs | Some y \<Rightarrow> Some y)"

definition telemetry_cents :: "reader \<Rightarrow> str option \<Rightarrow> int option" where
  "telemetry_cents rd file_tail = Option.bind file_tail (\<lambda>buf.
     map_option to_cents (find_map (\<lambda>line. Option.bind (rd_line rd line)
       (\<lambda>v. Option.bind (json_get v (lit ''cost_usd'')) (as_f64 rd))) (rev (split_on 10 buf))))"

definition spent :: "file_cost \<Rightarrow> int" where
  "spent f = sat_i64 (to_cents (fc_usd f) - fc_baseline f)"

definition telemetry_spent :: "hook_state \<Rightarrow> int option" where
  "telemetry_spent st = map_option (\<lambda>(baseline, cents). sat_i64 (cents - baseline)) (hs_telemetry st)"

definition effective_cents :: "hook_state \<Rightarrow> int" where
  "effective_cents st =
     (let transcript = (if hs_files st = [] then [] else [fold (\<lambda>(_, f) total. sat_i64 (total + spent f)) (hs_files st) 0]);
          telemetry = (case telemetry_spent st of None \<Rightarrow> [] | Some c \<Rightarrow> [c])
      in case transcript @ telemetry of [] \<Rightarrow> 0 | c # cs \<Rightarrow> fold max cs c)"

definition recompute :: "(str \<Rightarrow> str) \<Rightarrow> reader \<Rightarrow> hook_world \<Rightarrow> transcripts \<Rightarrow> hook_state \<Rightarrow> hook_state" where
  "recompute lc rd w tr st =
     (let first_call = (hs_computed_at st = 0);
          files = fold (\<lambda>path files. advance_file lc rd files path (hw_view w path) first_call) (transcript_files w tr) (hs_files st);
          telemetry = (case telemetry_cents rd (hw_telemetry_tail w) of
              None \<Rightarrow> hs_telemetry st
            | Some cents \<Rightarrow> Some (case hs_telemetry st of None \<Rightarrow> (cents, cents) | Some (baseline, _) \<Rightarrow> (baseline, cents)));
          st' = st\<lparr>hs_files := files, hs_telemetry := telemetry\<rparr>
      in st'\<lparr>hs_effective := effective_cents st', hs_computed_at := hw_now w\<rparr>)"

definition refresh :: "(str \<Rightarrow> str) \<Rightarrow> reader \<Rightarrow> hook_world \<Rightarrow> transcripts \<Rightarrow> hook_state option" where
  "refresh lc rd w tr =
     (let again = (let st = (case hw_reloaded w of None \<Rightarrow> no_state | Some st \<Rightarrow> st) in
            if hw_stored w \<or> hw_reloaded w \<noteq> None then Some (recompute lc rd w tr st) else None) in
      if hw_dir w = [] then None
      else case hw_loaded w of
        Some st \<Rightarrow> if hw_now w - hs_computed_at st < hw_interval w then Some st else again
      | None \<Rightarrow> again)"

definition parse_interval :: "str option \<Rightarrow> nat" where
  "parse_interval raw = (case Option.bind raw (\<lambda>r. parse_u64 (trim r)) of None \<Rightarrow> DEFAULT_INTERVAL_MS | Some n \<Rightarrow> nat n)"

definition spend_cents :: "hook_state \<Rightarrow> transcripts \<Rightarrow> int option" where
  "spend_cents st tr =
     (let entry = Option.bind (own_key tr) (map_of (hs_files st)); main_is_read = (map_of (hs_files st) (tr_main tr) \<noteq> None) in
      case (entry, tr_caller tr) of
        (Some f, _) \<Rightarrow> if \<not> fc_unpriced f then Some (spent f) else telemetry_spent st
      | (None, Agent _) \<Rightarrow> if own_key tr \<noteq> None \<and> main_is_read then Some 0 else telemetry_spent st
      | (None, Main) \<Rightarrow> telemetry_spent st)"

section \<open>The tool call\<close>

record hook_tool =
  tc_tool :: str
  tc_command :: str
  tc_file_path :: str
  tc_skill :: str
  tc_cwd :: str

definition SAFE_TOOLS :: "str list" where
  "SAFE_TOOLS = map lit [''Read'', ''Grep'', ''Glob'']"

definition MODE_ESCAPE :: str where
  "MODE_ESCAPE = lit ''playbook mode ask''"

definition is_same_path :: "str \<Rightarrow> str \<Rightarrow> bool" where
  "is_same_path p expected \<longleftrightarrow> ParentDir \<notin> set (path_parts p) \<and> path_parts p = path_parts expected"

definition is_allowed_when_parked :: "(str \<Rightarrow> str) \<Rightarrow> git_facts \<Rightarrow> hook_tool \<Rightarrow> str option \<Rightarrow> bool" where
  "is_allowed_when_parked lc g call park_note =
     (if tc_tool call \<in> set SAFE_TOOLS then True
      else if tc_tool call = lit ''Bash'' then is_closing_command_in lc g (tc_command call) (Some (tc_cwd call))
      else if tc_tool call = lit ''Skill'' then is_closing_skill (tc_skill call)
      else if tc_tool call = lit ''Write'' then
        (case park_note of None \<Rightarrow> False | Some note \<Rightarrow> is_same_path (tc_file_path call) note)
      else False)"

definition is_mode_escape :: "hook_tool \<Rightarrow> bool" where
  "is_mode_escape call \<longleftrightarrow> tc_tool call = lit ''Bash'' \<and> tc_command call = MODE_ESCAPE"

definition cargo_run_args :: "str list \<Rightarrow> str list option" where
  "cargo_run_args args = (case find (\<lambda>w. \<not> (starts_with w (lit ''-'') \<or> starts_with w (lit ''+''))) args of
     None \<Rightarrow> None
   | Some sub \<Rightarrow>
       if sub \<noteq> lit ''run'' \<and> sub \<noteq> lit ''r'' then None
       else map_option (\<lambda>i. drop (i + 1) args) (first_index (\<lambda>w. w = lit ''--'') args))"

definition is_guarded_key :: "str \<Rightarrow> bool" where
  "is_guarded_key key \<longleftrightarrow> key = lit ''mode'' \<or> starts_with key (lit ''auto.'') \<or> starts_with key (lit ''fix.'') \<or>
     starts_with key (lit ''watch.'')"

definition changes_guard_keys :: "str list \<Rightarrow> bool" where
  "changes_guard_keys args = (case args of
     a # b # rest \<Rightarrow>
       if a = lit ''mode'' then b = lit ''ask'' \<or> b = lit ''auto''
       else if a = lit ''config'' \<and> b = lit ''import'' then True
       else if a = lit ''config'' \<and> b = lit ''set'' then
         (case find (\<lambda>w. \<not> starts_with w (lit ''-'')) rest of None \<Rightarrow> False | Some key \<Rightarrow> is_guarded_key key)
       else False
   | _ \<Rightarrow> False)"

definition is_guarded_invocation :: "(str \<Rightarrow> str) \<Rightarrow> str \<Rightarrow> str list \<Rightarrow> bool" where
  "is_guarded_invocation lc home ws =
     (if writes_config_store lc ws home then True
      else case program_index lc ws of
        None \<Rightarrow> False
      | Some start \<Rightarrow>
          let program = program_name lc (ws ! start); args = drop (start + 1) ws in
          if program = lit ''playbook'' then changes_guard_keys args
          else if program = lit ''cargo'' then
            (case cargo_run_args args of None \<Rightarrow> False | Some rest \<Rightarrow> changes_guard_keys rest)
          else False)"

definition is_guarded_command :: "(str \<Rightarrow> str) \<Rightarrow> str \<Rightarrow> str \<Rightarrow> bool" where
  "is_guarded_command lc home t \<longleftrightarrow> list_ex (is_guarded_invocation lc home) (simple_commands t)"

definition changes_the_guard :: "(str \<Rightarrow> str) \<Rightarrow> str \<Rightarrow> hook_tool \<Rightarrow> str \<Rightarrow> bool" where
  "changes_the_guard lc home call base =
     (if tc_tool call = lit ''Bash'' then is_guarded_command lc home (tc_command call)
      else if tc_tool call = lit ''Write'' \<or> tc_tool call = lit ''Edit'' then is_config_file lc (tc_file_path call) base
      else False)"

section \<open>The verdict\<close>

text \<open>Amounts in a message, and the command it names to raise a cap.\<close>

definition dollars :: "int \<Rightarrow> str" where
  "dollars cents = (if cents < 0 then lit ''$-'' else lit ''$'') @ dec_nat (nat (\<bar>cents\<bar> div 100)) @ lit ''.'' @
     dec_nat (nat (\<bar>cents\<bar> mod 100 div 10)) @ dec_nat (nat (\<bar>cents\<bar> mod 10))"

definition doubled :: "int \<Rightarrow> int" where
  "doubled cents = (let c = sat_i64 (sat_i64 (cents * 2) + 99) in if 0 \<le> c then c div 100 else - ((- c) div 100))"

definition raise_command :: "str \<Rightarrow> int \<Rightarrow> int option \<Rightarrow> str" where
  "raise_command key cents set_ceiling =
     (let d = dec_int (doubled cents); set_key = lit ''playbook config set '' @ key @ lit '' '' @ d in
      case set_ceiling of
        Some limit \<Rightarrow> if limit < sat_i64 (doubled cents * 100)
          then lit ''playbook config set auto.sessionCeilingUsd '' @ d @ lit '' && '' @ set_key else set_key
      | None \<Rightarrow> set_key)"

definition budget_key :: "caller \<Rightarrow> str" where
  "budget_key c = (case c of Main \<Rightarrow> lit ''auto.budgetUsd'' | Agent _ \<Rightarrow> lit ''auto.agentBudgetUsd'')"

datatype denial = Self_Protection | Unreadable bool | Budget_Reached caller str str str bool | Ceiling_Reached str str str bool

definition budget_reached_reason :: "caller \<Rightarrow> limits \<Rightarrow> str \<Rightarrow> denial" where
  "budget_reached_reason c l note =
     (let cap = cap_of l c; set_ceiling = (if lm_ceiling_is_set l then Some (lm_ceiling l) else None) in
      Budget_Reached c (dollars cap) note (raise_command (budget_key c) cap set_ceiling) (lm_mode_from_env l))"

definition ceiling_reason :: "limits \<Rightarrow> str \<Rightarrow> denial" where
  "ceiling_reason l note = Ceiling_Reached (dollars (lm_ceiling l)) note
     (raise_command (lit ''auto.sessionCeilingUsd'') (lm_ceiling l) None) (lm_mode_from_env l)"

datatype note_text = Invalid_Budget str str str | Warn nat caller str

datatype answer = Silent | Deny denial | Notes "note_text list"

definition park_note_name :: "caller \<Rightarrow> str" where
  "park_note_name c = (case c of Main \<Rightarrow> lit ''park-note.md'' | Agent i \<Rightarrow> lit ''park-note-'' @ i @ lit ''.md'')"

definition warned_name :: "caller \<Rightarrow> str" where
  "warned_name c = lit ''warned'' @ (case c of Main \<Rightarrow> [] | Agent i \<Rightarrow> 45 # i)"

text \<open>The marker files of the session folder. \<open>claim\<close> creates one exclusively, which fails when it
  is there or the folder cannot be written; \<open>set_parked\<close> is best effort too.\<close>

record session_folder =
  sf_marks :: "str set"
  sf_writable :: bool

definition claim :: "str \<Rightarrow> session_folder \<Rightarrow> bool \<times> session_folder" where
  "claim mark sf = (if sf_writable sf \<and> mark \<notin> sf_marks sf then (True, sf\<lparr>sf_marks := insert mark (sf_marks sf)\<rparr>) else (False, sf))"

definition PARKED_MARKER :: str where "PARKED_MARKER = lit ''parked''"

definition set_parked :: "str \<Rightarrow> bool \<Rightarrow> session_folder \<Rightarrow> session_folder" where
  "set_parked dir parked sf = (if dir = [] \<or> \<not> sf_writable sf then sf
     else if parked then sf\<lparr>sf_marks := insert PARKED_MARKER (sf_marks sf)\<rparr>
     else sf\<lparr>sf_marks := sf_marks sf - {PARKED_MARKER}\<rparr>)"

definition noted :: "bool \<Rightarrow> str \<Rightarrow> note_text \<Rightarrow> note_text list \<times> session_folder \<Rightarrow> note_text list \<times> session_folder" where
  "noted due mark n p = (if due then (case claim mark (snd p) of (won, sf) \<Rightarrow> (if won then fst p @ [n] else fst p, sf)) else p)"

record hook_call =
  hc_transcript_path :: str
  hc_agent_id :: str
  hc_call :: hook_tool

definition enforce :: "(str \<Rightarrow> str) \<Rightarrow> reader \<Rightarrow> git_facts \<Rightarrow> str \<Rightarrow> str \<Rightarrow> limits \<Rightarrow> hook_world \<Rightarrow> hook_call \<Rightarrow> session_folder
    \<Rightarrow> answer \<times> session_folder" where
  "enforce lc rd g home base l w hc sf =
     (let tr = transcripts_of (hc_transcript_path hc) (hc_agent_id hc); c = tr_caller tr; call = hc_call hc;
          note = (if hw_dir w = [] then None else Some (path_join (hw_dir w) (park_note_name c)));
          allowed = is_allowed_when_parked lc g call note;
          guard = changes_the_guard lc home call base;
          state = refresh lc rd w tr;
          spend = Option.bind state (\<lambda>st. spend_cents st tr)
      in case (state, spend) of
           (Some st, Some spend) \<Rightarrow>
             let cap = cap_of l c; over_ceiling = (lm_ceiling l \<le> hs_effective st);
                 sf1 = (if c = Main then set_parked (hw_dir w) (cap \<le> spend \<or> over_ceiling) sf else sf)
             in if cap \<le> spend \<or> over_ceiling then
                  (if \<not> allowed then
                     let shown = (case note of None \<Rightarrow> [] | Some n \<Rightarrow> n) in
                     (Deny (if cap \<le> spend then budget_reached_reason c l shown else ceiling_reason l shown), sf1)
                   else if guard then (Deny Self_Protection, sf1) else (Silent, sf1))
                else if guard then (Deny Self_Protection, sf1)
                else
                  let (notes, sf2) =
                        noted (warn_of l c \<le> spend) (warned_name c) (Warn (lm_pct l) c (dollars cap))
                          (noted (\<not> lm_agent_budget_is_valid l) (lit ''agent-budget-note'')
                             (Invalid_Budget (lit ''auto.agentBudgetUsd'') (lit ''agent cap'') (dollars DEFAULT_AGENT_BUDGET_CENTS))
                             (noted (\<not> lm_budget_is_valid l) (lit ''budget-note'')
                                (Invalid_Budget (lit ''auto.budgetUsd'') (lit ''cap'') (dollars DEFAULT_BUDGET_CENTS)) ([], sf1)))
                  in (if notes = [] then Silent else Notes notes, sf2)
         | _ \<Rightarrow>
             if (allowed \<and> \<not> guard) \<or> is_mode_escape call then (Silent, sf)
             else (Deny (if allowed then Self_Protection else Unreadable (lm_mode_from_env l)),
                   if \<not> allowed \<and> c = Main then set_parked (hw_dir w) True sf else sf))"

text \<open>\<^verbatim>\<open>run\<close>: the guard works in auto mode, and for a session it already tracks when the config
  broke. \<open>has_state\<close> says whether the stored state of the session is there.\<close>

definition config_broke_mid_session :: "str \<Rightarrow> tier \<Rightarrow> bool \<Rightarrow> bool" where
  "config_broke_mid_session sid mode_tier has_state \<longleftrightarrow>
     sid \<noteq> [] \<and> (case mode_tier of Tier_Error _ \<Rightarrow> True | _ \<Rightarrow> False) \<and> has_state"

definition run_guard :: "(str \<Rightarrow> str) \<Rightarrow> reader \<Rightarrow> git_facts \<Rightarrow> str \<Rightarrow> str option \<Rightarrow> tier \<Rightarrow> bool \<Rightarrow> str \<Rightarrow> (str \<Rightarrow> json option) \<Rightarrow> hook_world
    \<Rightarrow> hook_call \<Rightarrow> session_folder \<Rightarrow> answer \<times> session_folder" where
  "run_guard lc rd g home env mode_tier has_state sid config w hc sf =
     (let from_env = resolve_mode None env None; env_decides = (rs_source from_env = From_Env) in
      if env_decides \<and> rs_mode from_env = Ask then (Silent, sf)
      else if rs_mode (resolve_for_hook_at env mode_tier) = Auto_Mode \<or> config_broke_mid_session sid mode_tier has_state
      then enforce lc rd g home (playbook_root home) ((read_limits rd config)\<lparr>lm_mode_from_env := env_decides\<rparr>) w hc sf
      else (Silent, sf))"

end
