(* ===== verification/Budget_Guard.thy ===== *)
theory Budget_Guard
  imports Budget Closing_Push
begin

text \<open>What the budget guard promises: the settings that bind it stay locked, a caller that has spent
  its cap is parked, and each caller is warned once.\<close>

section \<open>When a call is denied\<close>

definition denies_call :: "answer \<Rightarrow> bool" where
  "denies_call a \<longleftrightarrow> (case a of Deny _ \<Rightarrow> True | _ \<Rightarrow> False)"

lemma denies_call_simps [simp]: "denies_call (Deny d)" "\<not> denies_call Silent" "\<not> denies_call (Notes ns)"
  by (simp_all add: denies_call_def)

definition park_note :: "hook_world \<Rightarrow> hook_call \<Rightarrow> str option" where
  "park_note w hc = (if hw_dir w = [] then None else
     Some (path_join (hw_dir w) (park_note_name (tr_caller (transcripts_of (hc_transcript_path hc) (hc_agent_id hc))))))"

text \<open>What the guard knows of the spend: nothing, or the caller's and the whole tree's cents.\<close>

definition known_spend :: "(str \<Rightarrow> str) \<Rightarrow> reader \<Rightarrow> hook_world \<Rightarrow> hook_call \<Rightarrow> (int \<times> int) option" where
  "known_spend lc rd w hc =
     (let tr = transcripts_of (hc_transcript_path hc) (hc_agent_id hc) in
      Option.bind (refresh lc rd w tr) (\<lambda>st. map_option (\<lambda>s. (s, hs_effective st)) (spend_cents st tr)))"

lemma denied_iff:
  "denies_call (fst (enforce lc rd g home base l w hc sf)) \<longleftrightarrow>
    (let allowed = is_allowed_when_parked lc g (hc_call hc) (park_note w hc);
         guard = changes_the_guard lc home (hc_call hc) base in
     case known_spend lc rd w hc of
       None \<Rightarrow> (\<not> allowed \<or> guard) \<and> \<not> is_mode_escape (hc_call hc)
     | Some (s, tree) \<Rightarrow> guard \<or>
         ((cap_of l (tr_caller (transcripts_of (hc_transcript_path hc) (hc_agent_id hc))) \<le> s \<or> lm_ceiling l \<le> tree) \<and> \<not> allowed))"
  by (simp add: enforce_def known_spend_def park_note_def Let_def split: option.splits prod.splits)

section \<open>The guard's own settings\<close>

text \<open>The words run playbook, behind any wrappers, with these arguments.\<close>

definition runs_playbook :: "(str \<Rightarrow> str) \<Rightarrow> str list \<Rightarrow> str list \<Rightarrow> bool" where
  "runs_playbook lc ws args \<longleftrightarrow> (\<exists>i. program_index lc ws = Some i \<and> program_name lc (ws ! i) = lit ''playbook'' \<and>
     args = drop (i + 1) ws)"

text \<open>Switching the mode, importing a config, or setting a key that binds the guard.\<close>

definition loosens :: "str list \<Rightarrow> bool" where
  "loosens args \<longleftrightarrow>
     (\<exists>rest. args = lit ''mode'' # lit ''ask'' # rest \<or> args = lit ''mode'' # lit ''auto'' # rest \<or>
        args = lit ''config'' # lit ''import'' # rest) \<or>
     (\<exists>flags key rest. args = lit ''config'' # lit ''set'' # flags @ key # rest \<and>
        list_all (\<lambda>f. starts_with f (lit ''-'')) flags \<and> is_guarded_key key)"

lemma guarded_key_no_dash: "is_guarded_key key \<Longrightarrow> \<not> starts_with key (lit ''-'')"
  by (cases key) (auto simp: is_guarded_key_def starts_with_def lit_def)

lemma find_after: "list_all (\<lambda>x. \<not> P x) xs \<Longrightarrow> P y \<Longrightarrow> find P (xs @ y # ys) = Some y"
  by (induction xs) auto

lemma loosens_changes: "loosens args \<Longrightarrow> changes_guard_keys args"
proof -
  have words: "lit ''config'' \<noteq> lit ''mode''" "lit ''set'' \<noteq> lit ''import''" by simp_all
  assume "loosens args"
  then consider "\<exists>rest. args = lit ''mode'' # lit ''ask'' # rest \<or> args = lit ''mode'' # lit ''auto'' # rest \<or>
        args = lit ''config'' # lit ''import'' # rest"
    | flags key rest where "args = lit ''config'' # lit ''set'' # flags @ key # rest"
        "list_all (\<lambda>f. starts_with f (lit ''-'')) flags" "is_guarded_key key"
    by (auto simp: loosens_def)
  then show ?thesis
  proof cases
    case 1
    then show ?thesis by (auto simp: changes_guard_keys_def)
  next
    case 2
    have "find (\<lambda>w. \<not> starts_with w (lit ''-'')) (flags @ key # rest) = Some key"
      by (rule find_after) (use 2 guarded_key_no_dash in auto)
    with 2 show ?thesis by (simp add: changes_guard_keys_def)
  qed
qed

lemma spelled_guard_change:
  assumes "line_ok line" "runs_playbook lc (line_words line) args" "loosens args"
  shows "is_guarded_command lc home (line_text line)"
  using assms(2) loosens_changes[OF assms(3)] line_commands[OF assms(1)]
  by (auto simp: is_guarded_command_def simple_commands_def plain_command_def is_guarded_invocation_def runs_playbook_def Let_def)


lemma sample_runs: "runs_playbook id [lit ''playbook'', lit ''config'', lit ''set'', lit ''auto.budgetUsd'', lit ''900'']
    [lit ''config'', lit ''set'', lit ''auto.budgetUsd'', lit ''900'']"
proof -
  have "redirect_len (lit ''playbook'') = 0" "\<not> is_assignment (lit ''playbook'')" "lit ''playbook'' \<notin> set SHELL_KEYWORDS"
    by (simp_all add: redirect_len_def is_assignment_def SHELL_KEYWORDS_def lit_def is_ascii_digit_def)
  moreover have "program_name id (lit ''playbook'') = lit ''playbook''" "lit ''playbook'' \<notin> set WRAPPERS"
    by (simp_all add: program_name_def file_name_def path_components_def WRAPPERS_def lit_def)
  ultimately show ?thesis
    unfolding runs_playbook_def program_index_def by (subst program_from.simps) (simp add: Let_def)
qed


section \<open>One warning\<close>

definition warns :: "caller \<Rightarrow> answer \<Rightarrow> bool" where
  "warns c a \<longleftrightarrow> (case a of Notes ns \<Rightarrow> list_ex (\<lambda>n. case n of Warn _ c' _ \<Rightarrow> c' = c | _ \<Rightarrow> False) ns | _ \<Rightarrow> False)"

lemma mark_names: "warned_name c \<noteq> PARKED_MARKER" "warned_name c \<noteq> lit ''agent-budget-note''" "warned_name c \<noteq> lit ''budget-note''"
  by (auto simp: warned_name_def PARKED_MARKER_def lit_def split: caller.splits)

lemma warned_name_inj: "warned_name c = warned_name d \<longleftrightarrow> c = d"
  by (auto simp: warned_name_def split: caller.splits)

lemma noted_cases:
  "noted due mark n p = p \<or> (noted due mark n p = (fst p @ [n], (snd p)\<lparr>sf_marks := insert mark (sf_marks (snd p))\<rparr>) \<and>
     mark \<notin> sf_marks (snd p))"
  by (cases p) (auto simp: noted_def claim_def)

lemma set_parked_marks: "warned_name c \<in> sf_marks (set_parked dir parked sf) \<longleftrightarrow> warned_name c \<in> sf_marks sf"
  using mark_names(1)[of c] by (auto simp: set_parked_def)

definition warned_by :: "answer \<times> session_folder \<Rightarrow> caller \<Rightarrow> session_folder \<Rightarrow> bool" where
  "warned_by r c sf \<longleftrightarrow> (warned_name c \<in> sf_marks sf \<longrightarrow> \<not> warns c (fst r)) \<and>
     (warned_name c \<in> sf_marks sf \<or> warns c (fst r) \<longrightarrow> warned_name c \<in> sf_marks (snd r))"

lemma warned_by_quiet:
  "warned_by (Deny d, sf) c sf" "warned_by (Silent, sf) c sf"
  "warned_by (Deny d, set_parked dir parked sf) c sf" "warned_by (Silent, set_parked dir parked sf) c sf"
  by (simp_all add: warned_by_def warns_def set_parked_marks)

lemma noted_invalid:
  assumes "noted due mark (Invalid_Budget k w d) p = q" "list_all (\<lambda>n. case n of Invalid_Budget _ _ _ \<Rightarrow> True | _ \<Rightarrow> False) (fst p)"
    "mark \<noteq> warned_name c"
  shows "list_all (\<lambda>n. case n of Invalid_Budget _ _ _ \<Rightarrow> True | _ \<Rightarrow> False) (fst q)"
    "warned_name c \<in> sf_marks (snd q) \<longleftrightarrow> warned_name c \<in> sf_marks (snd p)"
  using noted_cases[of due mark "Invalid_Budget k w d" p] assms by auto

lemma warned_by_notes:
  assumes "noted due (warned_name d) (Warn k d m) p = (ns, sf')"
    "list_all (\<lambda>n. case n of Invalid_Budget _ _ _ \<Rightarrow> True | _ \<Rightarrow> False) (fst p)"
    "warned_name c \<in> sf_marks (snd p) \<longleftrightarrow> warned_name c \<in> sf_marks sf"
  shows "warned_by (if ns = [] then Silent else Notes ns, sf') c sf"
proof -
  have "\<not> list_ex (\<lambda>n. case n of Warn _ c' _ \<Rightarrow> c' = c | _ \<Rightarrow> False) (fst p)"
    using assms(2) by (auto simp: list_all_iff list_ex_iff split: note_text.splits)
  with noted_cases[of due "warned_name d" "Warn k d m" p] assms(1,3) show ?thesis
    by (auto simp: warned_by_def warns_def warned_name_inj)
qed

lemma enforce_marks: "warned_by (enforce lc rd g home base l w hc sf) c sf"
proof -
  have with_notes: "warned_by (case noted b3 (warned_name d) (Warn k d m) (noted b2 (lit ''agent-budget-note'') (Invalid_Budget x2 y2 z2)
      (noted b1 (lit ''budget-note'') (Invalid_Budget x1 y1 z1) ([], sf1))) of (notes, sf2) \<Rightarrow> (if notes = [] then Silent else Notes notes, sf2)) c sf"
    if "sf1 = sf \<or> sf1 = set_parked dir parked sf" for b1 b2 b3 x1 y1 z1 x2 y2 z2 d k m sf1 dir parked
  proof -
    define p1 where "p1 = noted b1 (lit ''budget-note'') (Invalid_Budget x1 y1 z1) ([], sf1)"
    define p2 where "p2 = noted b2 (lit ''agent-budget-note'') (Invalid_Budget x2 y2 z2) p1"
    note one = noted_invalid[OF p1_def[symmetric] _ mark_names(3)[symmetric, of c]]
    note two = noted_invalid[OF p2_def[symmetric] one(1) mark_names(2)[symmetric, of c]]
    obtain ns sf2 where ns: "noted b3 (warned_name d) (Warn k d m) p2 = (ns, sf2)" by fastforce
    have "warned_name c \<in> sf_marks (snd p2) \<longleftrightarrow> warned_name c \<in> sf_marks sf"
      using one two that by (auto simp: set_parked_marks)
    from warned_by_notes[OF ns two(1) this] show ?thesis by (simp add: ns p1_def[symmetric] p2_def[symmetric])
  qed
  show ?thesis
    unfolding enforce_def Let_def
    by (auto split: option.splits intro!: warned_by_quiet with_notes)
qed

fun session :: "(str \<Rightarrow> str) \<Rightarrow> reader \<Rightarrow> git_facts \<Rightarrow> str \<Rightarrow> str \<Rightarrow> (limits \<times> hook_world \<times> hook_call) list \<Rightarrow> session_folder \<Rightarrow> answer list" where
  "session lc rd g home base [] sf = []"
| "session lc rd g home base ((l, w, hc) # calls) sf =
     (case enforce lc rd g home base l w hc sf of (a, sf') \<Rightarrow> a # session lc rd g home base calls sf')"

lemma session_warned: "warned_name c \<in> sf_marks sf \<Longrightarrow> filter (warns c) (session lc rd g home base calls sf) = []"
proof (induction calls arbitrary: sf)
  case (Cons x calls)
  obtain l w hc where x: "x = (l, w, hc)" by (cases x)
  obtain a sf' where e: "enforce lc rd g home base l w hc sf = (a, sf')" by fastforce
  from enforce_marks[of lc rd g home base l w hc sf c] Cons show ?case
    by (simp add: x e warned_by_def)
qed simp

text \<open>
  C30. A caller hears the budget warning at most once in a session, whatever the budgets, the spend
  and the other callers do between its calls.
\<close>

theorem warned_once: "length (filter (warns c) (session lc rd g home base calls sf)) \<le> 1"
proof (induction calls arbitrary: sf)
  case (Cons x calls)
  obtain l w hc where x: "x = (l, w, hc)" by (cases x)
  obtain a sf' where e: "enforce lc rd g home base l w hc sf = (a, sf')" by fastforce
  from enforce_marks[of lc rd g home base l w hc sf c] Cons.IH[of sf'] session_warned[of c sf' lc rd g home base calls] show ?case
    by (simp add: x e warned_by_def)
qed simp

end
