(* ===== verification/Budget_Spend.thy ===== *)
theory Budget_Spend
  imports Budget_Guard
begin

text \<open>From the transcript to the denial: a caller whose messages cost its cap is parked by the next
  call that brings the spend up to date.\<close>

section \<open>Cents\<close>

lemma round_half_away_mono: "x \<le> y \<Longrightarrow> round_half_away x \<le> round_half_away y"
proof -
  assume xy: "x \<le> y"
  consider "0 \<le> x" | "x < 0" "0 \<le> y" | "y < 0" by linarith
  then show ?thesis
  proof cases
    case 1
    with xy show ?thesis by (auto simp: round_half_away_def intro!: floor_mono)
  next
    case 2
    then have "0 \<le> \<lfloor>- x + 1/2\<rfloor>" "0 \<le> \<lfloor>y + 1/2\<rfloor>" by (simp_all add: zero_le_floor)
    then have "- \<lfloor>- x + 1/2\<rfloor> \<le> \<lfloor>y + 1/2\<rfloor>" by linarith
    with 2 show ?thesis by (simp add: round_half_away_def)
  next
    case 3
    with xy have "\<lfloor>- y + 1/2\<rfloor> \<le> \<lfloor>- x + 1/2\<rfloor>" by (intro floor_mono) simp
    with 3 xy show ?thesis by (simp add: round_half_away_def)
  qed
qed

lemma sat_i64_mono: "x \<le> y \<Longrightarrow> sat_i64 x \<le> sat_i64 y"
  by (auto simp: sat_i64_def)

lemma to_cents_mono: "x \<le> y \<Longrightarrow> to_cents x \<le> to_cents y"
  by (simp add: to_cents_def sat_i64_mono round_half_away_mono)

section \<open>A file among others\<close>

lemma update_shape: "(case r of None \<Rightarrow> files | Some x \<Rightarrow> AList.update path (entry x) files) = files \<or>
    (\<exists>e. (case r of None \<Rightarrow> files | Some x \<Rightarrow> AList.update path (entry x) files) = AList.update path e files)"
  by (cases r) auto

lemma advance_shape: "advance_file lc rd files path v first_call = files \<or>
    (\<exists>e. advance_file lc rd files path v first_call = AList.update path e files)"
proof (cases "fv_meta v")
  case None
  then show ?thesis by (simp add: advance_file_def)
next
  case (Some m)
  obtain len inode where m: "m = (len, inode)" by (cases m)
  show ?thesis unfolding advance_file_def Let_def Some m option.case prod.case by (rule update_shape)
qed

lemma advance_other: "k \<noteq> path \<Longrightarrow> map_of (advance_file lc rd files path v first_call) k = map_of files k"
  using advance_shape[of lc rd files path v first_call] by (auto simp: update_conv')

text \<open>The entry of a file covers a text that the file still begins with, and its baseline stands.\<close>

definition baseline_of :: "bool \<Rightarrow> (str \<times> file_cost) list \<Rightarrow> str \<Rightarrow> int option" where
  "baseline_of first_call files k = (case map_of files k of
     Some f \<Rightarrow> Some (fc_baseline f) | None \<Rightarrow> if first_call then None else Some 0)"

definition ready :: "(str \<Rightarrow> str) \<Rightarrow> reader \<Rightarrow> nat \<Rightarrow> bool \<Rightarrow> str \<Rightarrow> int \<Rightarrow> str \<Rightarrow> (str \<times> file_cost) list \<Rightarrow> bool" where
  "ready lc rd inode first_call t b k files \<longleftrightarrow>
     (\<exists>p. prefix p t \<and> starts_from lc rd inode files k p) \<and> baseline_of first_call files k = Some b"

definition tracks :: "(str \<Rightarrow> str) \<Rightarrow> reader \<Rightarrow> nat \<Rightarrow> str \<Rightarrow> int \<Rightarrow> str \<Rightarrow> (str \<times> file_cost) list \<Rightarrow> bool" where
  "tracks lc rd inode t b k files \<longleftrightarrow>
     (\<exists>f. map_of files k = Some f \<and> up_to_date lc rd inode t f \<and> fc_baseline f = b)"

lemma tracks_ready: "tracks lc rd inode t b k files \<Longrightarrow> ready lc rd inode first_call t b k files"
  by (auto simp: tracks_def ready_def starts_from_def baseline_of_def intro: exI[of _ t])

lemma advance_tracks:
  assumes "rd_line rd [] = None" "ready lc rd inode first_call t b k files" "length t \<le> u64_max"
  shows "tracks lc rd inode t b k (advance_file lc rd files k (growing_view inode t) first_call)"
proof -
  obtain p where p: "prefix p t" "starts_from lc rd inode files k p" and b: "baseline_of first_call files k = Some b"
    using assms(2) by (auto simp: ready_def)
  from advance_growing[OF assms(1) p(2,1) assms(3), of first_call] b show ?thesis
    by (auto simp: tracks_def baseline_of_def split: option.splits if_splits)
qed

lemma advance_ready: "k \<noteq> path \<Longrightarrow> ready lc rd inode first_call t b k (advance_file lc rd files path v first_call) =
    ready lc rd inode first_call t b k files"
  by (simp add: ready_def starts_from_def baseline_of_def advance_other)

lemma fold_advance_tracks:
  assumes "rd_line rd [] = None" "view k = growing_view inode t" "length t \<le> u64_max"
  shows "ready lc rd inode first_call t b k files \<Longrightarrow> k \<in> set paths \<or> tracks lc rd inode t b k files \<Longrightarrow>
    tracks lc rd inode t b k (fold (\<lambda>path files. advance_file lc rd files path (view path) first_call) paths files)"
proof (induction paths arbitrary: files)
  case (Cons path paths)
  let ?files = "advance_file lc rd files path (view path) first_call"
  show ?case
  proof (cases "path = k")
    case True
    with advance_tracks[OF assms(1) Cons.prems(1) assms(3)] assms(2) have "tracks lc rd inode t b k ?files" by simp
    with Cons.IH tracks_ready show ?thesis by auto
  next
    case False
    then have "ready lc rd inode first_call t b k ?files" "tracks lc rd inode t b k ?files = tracks lc rd inode t b k files"
      using Cons.prems(1) by (simp_all add: advance_ready tracks_def advance_other)
    with Cons.IH[of ?files] Cons.prems(2) False show ?thesis by auto
  qed
qed simp

section \<open>The caller's spend\<close>

text \<open>The call brings the spend up to date: the stored one is missing or older than the interval.\<close>

definition reads_again :: "hook_world \<Rightarrow> bool" where
  "reads_again w \<longleftrightarrow> (case hw_loaded w of None \<Rightarrow> True | Some st \<Rightarrow> hw_interval w \<le> hw_now w - hs_computed_at st)"

definition stored_state :: "hook_world \<Rightarrow> hook_state" where
  "stored_state w = (case hw_reloaded w of None \<Rightarrow> no_state | Some st \<Rightarrow> st)"

lemma refresh_reads: "reads_again w \<Longrightarrow> refresh lc rd w tr \<in> {None, Some (recompute lc rd w tr (stored_state w))}"
  by (auto simp: refresh_def reads_again_def stored_state_def Let_def split: option.splits)

lemma spend_counts_messages:
  assumes "rd_line rd [] = None" "own_key tr = Some k" "k \<in> set (transcript_files w tr)" "hw_view w k = growing_view inode t"
    "length t \<le> u64_max" "ready lc rd inode (hs_computed_at st = 0) t b k (hs_files st)"
    "\<not> list_ex ms_unpriced (messages lc rd (complete_part t))"
  shows "\<exists>s. spend_cents (recompute lc rd w tr st) tr = Some s \<and>
    sat_i64 (to_cents (true_cost (messages lc rd (complete_part t))) - b) \<le> s"
proof -
  let ?files = "fold (\<lambda>path files. advance_file lc rd files path (hw_view w path) (hs_computed_at st = 0)) (transcript_files w tr) (hs_files st)"
  have "tracks lc rd inode t b k ?files"
    by (rule fold_advance_tracks[where view = "hw_view w", OF assms(1,4,5,6)]) (simp add: assms(3))
  then obtain f where f: "map_of ?files k = Some f" "up_to_date lc rd inode t f" "fc_baseline f = b" by (auto simp: tracks_def)
  from f(2) have "\<not> fc_unpriced f" "true_cost (messages lc rd (complete_part t)) \<le> fc_usd f"
    using assms(7) counted_at_least by (auto simp: up_to_date_def Let_def)
  moreover from this have "sat_i64 (to_cents (true_cost (messages lc rd (complete_part t))) - b) \<le> spent f"
    using to_cents_mono by (auto simp: spent_def f(3) intro!: sat_i64_mono)
  moreover have "hs_files (recompute lc rd w tr st) = ?files" by (simp add: recompute_def Let_def)
  ultimately show ?thesis using f(1) assms(2) by (simp add: spend_cents_def Let_def)
qed

text \<open>The caller's own transcript, a growing file that the call can see and whose stored entry is not
  ahead of it, has cost at least the cap since the baseline, with every message priced.\<close>

definition has_spent :: "(str \<Rightarrow> str) \<Rightarrow> reader \<Rightarrow> hook_world \<Rightarrow> hook_call \<Rightarrow> int \<Rightarrow> bool" where
  "has_spent lc rd w hc cap \<longleftrightarrow>
     (let tr = transcripts_of (hc_transcript_path hc) (hc_agent_id hc); st = stored_state w in
      \<exists>k inode t b. own_key tr = Some k \<and> k \<in> set (transcript_files w tr) \<and> hw_view w k = growing_view inode t \<and>
        length t \<le> u64_max \<and> ready lc rd inode (hs_computed_at st = 0) t b k (hs_files st) \<and>
        \<not> list_ex ms_unpriced (messages lc rd (complete_part t)) \<and>
        cap + b \<le> to_cents (true_cost (messages lc rd (complete_part t))))"

text \<open>
  C5. A caller that has spent its cap is parked by the next call that reads the transcripts: whatever
  the call, it is denied unless it is on the list of what a parked caller may do. This holds for the
  cost of the messages themselves, however the earlier reads fell, and whether or not the state could
  be loaded or stored.
\<close>

theorem spent_caller_is_parked:
  assumes "rd_line rd [] = None" "reads_again w" "cap_of l (tr_caller (transcripts_of (hc_transcript_path hc) (hc_agent_id hc))) \<le> i64_max"
    "has_spent lc rd w hc (cap_of l (tr_caller (transcripts_of (hc_transcript_path hc) (hc_agent_id hc))))"
    "\<not> is_allowed_when_parked lc g (hc_call hc) (park_note w hc)" "\<not> is_mode_escape (hc_call hc)"
  shows "denies_call (fst (enforce lc rd g home base l w hc sf))"
proof -
  let ?tr = "transcripts_of (hc_transcript_path hc) (hc_agent_id hc)"
  let ?st = "recompute lc rd w ?tr (stored_state w)"
  from assms(4) obtain k inode t b where h: "own_key ?tr = Some k" "k \<in> set (transcript_files w ?tr)" "hw_view w k = growing_view inode t"
    "length t \<le> u64_max" "ready lc rd inode (hs_computed_at (stored_state w) = 0) t b k (hs_files (stored_state w))"
    "\<not> list_ex ms_unpriced (messages lc rd (complete_part t))"
    "cap_of l (tr_caller ?tr) + b \<le> to_cents (true_cost (messages lc rd (complete_part t)))"
    by (auto simp: has_spent_def Let_def)
  from spend_counts_messages[OF assms(1) h(1-6)] obtain s where s: "spend_cents ?st ?tr = Some s"
    "sat_i64 (to_cents (true_cost (messages lc rd (complete_part t))) - b) \<le> s" by blast
  have "cap_of l (tr_caller ?tr) \<le> s"
    using s(2) h(7) assms(3) by (auto simp: sat_i64_def max_def min_def split: if_splits)
  with refresh_reads[OF assms(2), of lc rd ?tr] s(1) assms(5,6) show ?thesis
    by (auto simp: denied_iff known_spend_def Let_def)
qed

definition sample_text :: str where
  "sample_text = 97 # replicate 400 120 @ [10]"

definition sample_spend_world :: hook_world where
  "sample_spend_world = \<lparr>hw_dir = lit ''/s'', hw_now = 9, hw_interval = 2, hw_loaded = None,
     hw_reloaded = Some (no_state\<lparr>hs_computed_at := 1\<rparr>), hw_stored = True, hw_view = (\<lambda>_. growing_view 7 sample_text),
     hw_entries = (\<lambda>_. []), hw_telemetry_tail = None\<rparr>"

definition sample_edit :: hook_call where
  "sample_edit = \<lparr>hc_transcript_path = lit ''m.jsonl'', hc_agent_id = [], hc_call =
     \<lparr>tc_tool = lit ''Edit'', tc_command = [], tc_file_path = lit ''/w/a.rs'', tc_skill = [], tc_cwd = lit ''/w''\<rparr>\<rparr>"

lemma sample_transcripts: "transcripts_of (lit ''m.jsonl'') [] = \<lparr>tr_main = lit ''m.jsonl'', tr_caller = Main\<rparr>"
  by (simp add: transcripts_of_def own_agent_id_def is_agent_transcript_def file_name_def path_components_def lit_def
      starts_with_def agent_id_def or_else_def strip_prefix_def)

lemma sample_messages: "messages id sample_reader (complete_part sample_text) =
    [\<lparr>ms_id = [97], ms_usd = 1 / 100, ms_unpriced = False\<rparr>]"
proof -
  have "complete_part sample_text = sample_text" by (simp add: complete_part_def sample_text_def)
  moreover have "split_on 10 sample_text = [97 # replicate 400 120, []]"
    using split_on_append[of 10 "97 # replicate 400 120" "[]"] by (simp add: sample_text_def)
  moreover have "line_message id sample_reader [] = None" by (simp add: line_message_def sample_reader_def)
  ultimately show ?thesis
    by (simp add: messages_def List.map_filter_def sample_message)
qed

lemma sample_has_spent: "has_spent id sample_reader sample_spend_world sample_edit 1"
proof -
  have "prefix [] sample_text \<and> starts_from id sample_reader 7 [] (lit ''m.jsonl'') []" by (simp add: starts_from_def)
  then have "ready id sample_reader 7 False sample_text 0 (lit ''m.jsonl'') []"
    unfolding ready_def baseline_of_def map_of.simps option.case if_False by blast
  moreover have "length sample_text \<le> u64_max" by (simp add: sample_text_def u64_max_def)
  moreover have "\<lfloor>3 / 2 :: rat\<rfloor> = 1" by (rule floor_unique) simp_all
  then have "to_cents (true_cost (messages id sample_reader (complete_part sample_text))) = 1"
    by (simp add: sample_messages true_cost_def to_cents_def round_half_away_def sat_i64_def)
  moreover have "lit ''m.jsonl'' \<in> set (transcript_files sample_spend_world \<lparr>tr_main = lit ''m.jsonl'', tr_caller = Main\<rparr>)"
    by (auto simp: transcript_files_def split: option.splits)
  ultimately show ?thesis
    unfolding has_spent_def Let_def sample_edit_def hook_call.simps sample_transcripts
    by (intro exI[of _ "lit ''m.jsonl''"] exI[of _ 7] exI[of _ sample_text] exI[of _ 0])
       (simp add: own_key_def sample_spend_world_def stored_state_def no_state_def sample_messages)
qed

theorem spent_caller_is_parked_witness:
  "\<forall>home base sf. denies_call (fst (enforce id sample_reader sample_facts home base
     \<lparr>lm_cap = 1, lm_agent_cap = 1, lm_ceiling = 10, lm_ceiling_is_set = False, lm_pct = 70, lm_budget_is_valid = True,
      lm_agent_budget_is_valid = True, lm_mode_from_env = False\<rparr> sample_spend_world sample_edit sf))"
proof (intro allI, rule spent_caller_is_parked)
  show "rd_line sample_reader [] = None" by (simp add: sample_reader_def)
  show "reads_again sample_spend_world" by (simp add: reads_again_def sample_spend_world_def)
  show "\<not> is_mode_escape (hc_call sample_edit)" by (simp add: is_mode_escape_def sample_edit_def)
  show "\<not> is_allowed_when_parked id sample_facts (hc_call sample_edit) (park_note sample_spend_world sample_edit)"
    by (simp add: is_allowed_when_parked_def sample_edit_def SAFE_TOOLS_def)
qed (simp_all add: sample_edit_def sample_transcripts sample_has_spent[unfolded sample_edit_def])

end
