(* ===== verification/Budget_Caller.thy ===== *)
theory Budget_Caller
  imports Budget_Guard
begin

text \<open>Who a tool call is charged to: the caller named by the path of its own transcript.\<close>

section \<open>Plain paths\<close>

definition plain_segment :: "str \<Rightarrow> bool" where
  "plain_segment p \<longleftrightarrow> p \<noteq> [] \<and> p \<noteq> lit ''.'' \<and> p \<noteq> lit ''..'' \<and> 47 \<notin> set p"

definition plain_segments :: "str list \<Rightarrow> bool" where
  "plain_segments segs \<longleftrightarrow> segs \<noteq> [] \<and> list_all plain_segment segs"

lemma join_with_snoc: "xs \<noteq> [] \<Longrightarrow> join_with d (xs @ [x]) = join_with d xs @ d # x"
  by (induction d xs rule: join_with.induct) auto

lemma join_plain:
  assumes "plain_segments segs"
  shows "join_with 47 segs \<noteq> []" "\<not> starts_with (join_with 47 segs) (lit ''/'')" "last (join_with 47 segs) \<noteq> 47"
proof -
  obtain p ps where segs: "segs = p # ps" "p \<noteq> []" "47 \<notin> set p"
    using assms by (cases segs) (auto simp: plain_segments_def plain_segment_def)
  then obtain c cs where p: "p = c # cs" "c \<noteq> 47" by (cases p) auto
  obtain rest where join: "join_with 47 segs = c # rest" by (cases ps) (auto simp: segs p)
  from join show "join_with 47 segs \<noteq> []" by simp
  from join p(2) show "\<not> starts_with (join_with 47 segs) (lit ''/'')" by (simp add: starts_with_def lit_def)
  obtain qs q where qs: "segs = qs @ [q]" using segs(1) by (metis list.distinct(1) rev_exhaust)
  then have q: "q \<noteq> []" "47 \<notin> set q" using assms by (auto simp: plain_segments_def plain_segment_def)
  then have "last q \<noteq> 47" by (metis last_in_set)
  with q(1) qs show "last (join_with 47 segs) \<noteq> 47"
    by (cases "qs = []") (auto simp: join_with_snoc)
qed

lemma plain_rooted: "plain_segments segs \<Longrightarrow> rooted (body_path r segs @ t) = r"
  using join_plain[of segs] by (cases "join_with 47 segs") (auto simp: rooted_def body_path_def starts_with_def lit_def)

lemma plain_body: "plain_segments segs \<Longrightarrow> path_body (body_path r segs) = segs"
  using plain_rooted[of segs r "[]"] split_on_join[of segs 47]
  by (auto simp: path_body_def body_path_def plain_segments_def plain_segment_def list_all_iff lit_def)

lemma plain_trim: "plain_segments segs \<Longrightarrow> trim_body r segs = segs"
proof -
  assume s: "plain_segments segs"
  then have "dropWhile (\<lambda>p. p = [] \<or> p = lit ''.'') (rev segs) = rev segs"
    by (cases segs rule: rev_cases) (auto simp: plain_segments_def plain_segment_def)
  moreover have "hd segs \<noteq> lit ''.''" using s by (cases segs) (auto simp: plain_segments_def plain_segment_def)
  ultimately show ?thesis by (simp add: trim_body_def Let_def)
qed

lemma plain_parent:
  assumes "plain_segments (segs @ [p])" "segs \<noteq> []"
  shows "path_parent (body_path r (segs @ [p])) = Some (body_path r segs)"
proof -
  have "plain_segments segs" using assms by (auto simp: plain_segments_def)
  then show ?thesis
    using plain_rooted[OF assms(1), of r "[]"] plain_trim[OF assms(1)] plain_trim plain_body[OF assms(1)]
    by (simp add: path_parent_def)
qed

lemma plain_file_name: "plain_segments segs \<Longrightarrow> file_name (body_path r segs) = Some (last segs)"
proof -
  assume s: "plain_segments segs"
  have plain: "filter (\<lambda>p. p \<noteq> []) segs = segs" "filter (\<lambda>q. q \<noteq> lit ''.'') segs = segs"
    using s by (auto simp: plain_segments_def plain_segment_def list_all_iff intro!: filter_True)
  have "split_on 47 (join_with 47 segs) = segs"
    using s by (intro split_on_join) (auto simp: plain_segments_def plain_segment_def list_all_iff)
  then have split: "filter (\<lambda>p. p \<noteq> []) (split_on 47 (body_path r segs)) = segs"
    using plain(1) by (simp add: body_path_def lit_def)
  obtain p ps where segs: "segs = p # ps" "p \<noteq> lit ''.''" "filter (\<lambda>q. q \<noteq> lit ''.'') ps = ps"
    using s plain(2) by (cases segs) (auto simp: plain_segments_def plain_segment_def split: if_splits)
  then have "path_components (body_path r segs) = segs"
    unfolding path_components_def split by simp
  moreover have "last segs \<noteq> lit ''.''" "last segs \<noteq> lit ''..''" "segs \<noteq> []"
    using s by (auto simp: plain_segments_def plain_segment_def list_all_iff)
  ultimately show ?thesis by (simp add: file_name_def)
qed

section \<open>A subagent's transcript\<close>

lemma strip_suffix_append: "strip_suffix_of e (s @ e) = Some s"
  by (simp add: strip_suffix_of_def strip_prefix_def)

lemma agent_path_plain:
  assumes "plain_segments segs"
  shows "agent_path (body_path r segs) i = body_path r (segs @ [lit ''subagents'', lit ''agent-'' @ i @ lit ''.jsonl''])"
proof -
  let ?sub = "lit ''subagents''" and ?name = "lit ''agent-'' @ i @ lit ''.jsonl''"
  have join: "path_join p q = p @ 47 # q" if "p \<noteq> []" "last p \<noteq> 47" "\<not> starts_with q (lit ''/'')" for p q
    using that by (simp add: path_join_def)
  have "path_join (body_path r segs) ?sub = body_path r segs @ 47 # ?sub"
    by (rule join) (use join_plain[OF assms] in \<open>auto simp: body_path_def starts_with_def lit_def\<close>)
  moreover have "path_join (body_path r segs @ 47 # ?sub) ?name = (body_path r segs @ 47 # ?sub) @ 47 # ?name"
    by (rule join) (simp_all add: starts_with_def lit_def)
  moreover have "join_with 47 (segs @ [a, b]) = join_with 47 segs @ 47 # a @ 47 # b" for a b
    using join_with_snoc[of "segs @ [a]" 47 b] join_with_snoc[of segs 47 a] assms by (simp add: plain_segments_def)
  ultimately show ?thesis
    by (simp add: agent_path_def) (simp add: body_path_def)
qed

definition is_agent_name :: "str \<Rightarrow> bool" where
  "is_agent_name i \<longleftrightarrow> i \<noteq> [] \<and> list_all (\<lambda>c. is_ascii_alnum c \<or> c = 45 \<or> c = 95) i"

lemma agent_id_prefixed: "is_agent_name i \<Longrightarrow> agent_id (lit ''agent-'' @ i) = Some i"
  by (simp add: agent_id_def or_else_def strip_prefix_def is_agent_name_def list_all_iff filter_True)

text \<open>
  C31. A subagent is charged to its own transcript: the path of the transcript of agent i of a
  session names exactly that agent and that session, and leads back to the same file, for every
  session whose file name has no dot in front of its extension.
\<close>

theorem agent_charged_to_own_transcript:
  assumes "plain_segments segs" "46 \<notin> set (last segs)" "is_agent_name i"
  shows "transcripts_of (agent_path (body_path r segs) i) [] = \<lparr>tr_main = body_path r segs @ lit ''.jsonl'', tr_caller = Agent i\<rparr> \<and>
    own_key \<lparr>tr_main = body_path r segs @ lit ''.jsonl'', tr_caller = Agent i\<rparr> = Some (agent_path (body_path r segs) i)"
proof -
  let ?name = "lit ''agent-'' @ i @ lit ''.jsonl''" and ?dir = "segs @ [lit ''subagents'']"
  have name: "plain_segment ?name" "plain_segment (lit ''subagents'')"
    using assms(3)
    by (auto simp: plain_segment_def lit_def is_agent_name_def list_all_iff is_ascii_alnum_def is_ascii_digit_def
        is_ascii_upper_def is_ascii_lower_def)
  have plain: "plain_segments ?dir" "plain_segments (?dir @ [?name])"
    using assms(1) name by (auto simp: plain_segments_def)
  have path: "agent_path (body_path r segs) i = body_path r (?dir @ [?name])"
    using agent_path_plain[OF assms(1)] by simp
  have fname: "file_name (agent_path (body_path r segs) i) = Some ?name"
    unfolding path using plain_file_name[OF plain(2)] by simp
  have parents: "path_parent (agent_path (body_path r segs) i) = Some (body_path r ?dir)"
    "path_parent (body_path r ?dir) = Some (body_path r segs)"
    unfolding path using plain_parent[OF plain(2)] plain_parent[of segs "lit ''subagents''"] plain(1) assms(1)
    by (auto simp: plain_segments_def)
  have dir: "file_name (body_path r ?dir) = Some (lit ''subagents'')" using plain_file_name[OF plain(1)] by simp
  have "rsplit_once 46 (last segs) = None" by (rule rsplit_once_None[OF assms(2)])
  moreover have "butlast segs @ [last segs] = segs" using assms(1) by (simp add: plain_segments_def)
  ultimately have ext: "with_extension (body_path r segs) (lit ''jsonl'') = body_path r segs @ lit ''.jsonl''"
    using plain_file_name[OF assms(1)] plain_rooted[OF assms(1), of r "[]"] plain_trim[OF assms(1)] plain_body[OF assms(1)]
    by (simp add: with_extension_def file_stem_of_def lit_def)
  have "is_agent_transcript (agent_path (body_path r segs) i)"
    by (simp add: is_agent_transcript_def fname starts_with_def suffix_def)
  moreover have "strip_suffix_of (lit ''.jsonl'') ?name = Some (lit ''agent-'' @ i)"
    using strip_suffix_append[of "lit ''.jsonl''" "lit ''agent-'' @ i"] by simp
  ultimately have "own_agent_id (agent_path (body_path r segs) i) = Some (body_path r segs @ lit ''.jsonl'', i)"
    using parents dir fname ext agent_id_prefixed[OF assms(3)] by (simp add: own_agent_id_def)
  moreover have "agent_id [] = None" by (simp add: agent_id_def or_else_def strip_prefix_def lit_def)
  ultimately show ?thesis by (simp add: transcripts_of_def own_key_def strip_suffix_append)
qed

theorem agent_charged_to_own_transcript_witness:
  "transcripts_of (agent_path (lit ''/p/s1'') (lit ''a7'')) [] = \<lparr>tr_main = lit ''/p/s1.jsonl'', tr_caller = Agent (lit ''a7'')\<rparr>"
  using agent_charged_to_own_transcript[of "[lit ''p'', lit ''s1'']" "lit ''a7''" True]
  by (simp add: plain_segments_def plain_segment_def is_agent_name_def body_path_def lit_def is_ascii_alnum_def
      is_ascii_digit_def is_ascii_lower_def)

end
