(* ===== verification/Policy_Settings.thy ===== *)
theory Policy_Settings
  imports Store_Writes Shell_Lexer
begin

text \<open>
  Which commands write a Claude Code settings file,
  \<^verbatim>\<open>crates/cli/src/hooks/policy_guard/settings_writes.rs\<close>, with the paths of settings files from
  \<^verbatim>\<open>policy_guard.rs\<close>. What the guard asks of its surroundings is the record \<open>ground\<close>: the Unicode
  lower case and letters, where a path leads through links, and the home folder.
\<close>

record ground =
  gd_lc :: "str \<Rightarrow> str"
  gd_alnum :: "rchar \<Rightarrow> bool"
  gd_canon :: "path_part list \<Rightarrow> path_part list option"
  gd_home :: str

section \<open>Settings files\<close>

definition SCRIPT_INTERPRETERS :: "str list" where
  "SCRIPT_INTERPRETERS = map lit [''python'', ''python3'', ''node'', ''deno'', ''bun'', ''ruby'', ''perl'', ''php'', ''osascript'']"

definition WRITE_MARKERS :: "str list" where
  "WRITE_MARKERS = map lit [''writefile'', ''write_text'', ''write_bytes'', ''appendfile'', ''copyfile'', ''shutil.copy'', ''os.replace'',
     ''rename''] @ [[39, 119, 39], [34, 119, 34], [39, 119, 98, 39], [34, 119, 98, 34], [39, 119, 43, 39], [39, 97, 39]]"

definition is_settings_name :: "str \<Rightarrow> bool" where
  "is_settings_name name \<longleftrightarrow> name = lit ''settings.json'' \<or> name = lit ''settings.local.json''"

text \<open>\<^verbatim>\<open>file_name\<close> of a path given by its parts.\<close>

definition parts_name :: "path_part list \<Rightarrow> str option" where
  "parts_name ps = (if ps = [] then None else case last ps of Normal n \<Rightarrow> Some n | _ \<Rightarrow> None)"

definition is_dot_claude :: "str \<Rightarrow> bool" where
  "is_dot_claude n \<longleftrightarrow> eq_ignore_ascii_case n (lit ''.claude'')"

definition is_claude_settings :: "ground \<Rightarrow> path_part list \<Rightarrow> bool" where
  "is_claude_settings gd ps \<longleftrightarrow>
     (case parts_name (butlast ps) of None \<Rightarrow> False | Some d \<Rightarrow> is_dot_claude d) \<and>
     (case parts_name ps of None \<Rightarrow> False | Some n \<Rightarrow> is_settings_name (gd_lc gd n))"

definition settings_path :: "ground \<Rightarrow> str \<Rightarrow> path_part list option" where
  "settings_path gd path =
     (let direct = lexical (path_parts path) in
      if path = [] then None
      else if is_claude_settings gd direct then Some direct
      else
        let resolved = (case gd_canon gd direct of
              Some p \<Rightarrow> Some p
            | None \<Rightarrow>
                if direct = [] \<or> last direct = RootDir then None
                else Option.bind (gd_canon gd (butlast direct)) (\<lambda>dir. map_option (\<lambda>n. dir @ [Normal n]) (parts_name direct)))
        in case resolved of
             None \<Rightarrow> None
           | Some r \<Rightarrow>
               if is_claude_settings gd r then Some r
               else if list_ex (\<lambda>name. gd_home gd \<noteq> [] \<and>
                   gd_canon gd (path_parts (path_join (path_join (gd_home gd) (lit ''.claude'')) name)) = Some r)
                   (map lit [''settings.json'', ''settings.local.json''])
               then Some r else None)"

definition names_settings :: "ground \<Rightarrow> bool \<Rightarrow> str \<Rightarrow> bool" where
  "names_settings gd in_claude_dir w =
     (let expanded = expand_home w (gd_home gd) in
      if w = [] \<or> starts_with w (lit ''-'') then False
      else if is_claude_settings gd (lexical (path_parts expanded)) then True
      else if in_claude_dir \<and> is_settings_name (gd_lc gd w) then True
      else starts_with expanded (lit ''/'') \<and> settings_path gd expanded \<noteq> None)"

definition trim_end_slashes :: "str \<Rightarrow> str" where
  "trim_end_slashes s = rev (dropWhile (\<lambda>c. c = 47) (rev s))"

definition names_claude_dir :: "ground \<Rightarrow> str \<Rightarrow> bool" where
  "names_claude_dir gd w =
     (case parts_name (lexical (path_parts (trim_end_slashes (expand_home w (gd_home gd))))) of
        None \<Rightarrow> False | Some n \<Rightarrow> is_dot_claude n)"

definition enters_claude_dir :: "ground \<Rightarrow> str list \<Rightarrow> nat \<Rightarrow> bool" where
  "enters_claude_dir gd ws i \<longleftrightarrow> program_name (gd_lc gd) (ws ! i) = lit ''cd'' \<and>
     (case find (\<lambda>w. \<not> starts_with w (lit ''-'')) (drop (i + 1) ws) of None \<Rightarrow> False | Some w \<Rightarrow> names_claude_dir gd w)"

section \<open>Scripts\<close>

text \<open>What follows the first occurrence of a text.\<close>

fun after_first :: "str \<Rightarrow> str \<Rightarrow> str option" where
  "after_first p [] = (if p = [] then Some [] else None)"
| "after_first p (c # cs) = (if starts_with (c # cs) p then Some (drop (length p) (c # cs)) else after_first p cs)"

fun settings_in :: "(rchar \<Rightarrow> bool) \<Rightarrow> str \<Rightarrow> bool" where
  "settings_in alnum [] \<longleftrightarrow> False"
| "settings_in alnum (c # cs) \<longleftrightarrow>
     (starts_with (c # cs) (lit ''.claude/settings'') \<and>
      (case after_first (lit ''.json'') (c # cs) of
         None \<Rightarrow> False
       | Some after \<Rightarrow> \<not> (after \<noteq> [] \<and> (alnum (hd after) \<or> hd after \<in> set (lit ''._-''))))) \<or>
     settings_in alnum cs"

definition script_names_settings :: "ground \<Rightarrow> str \<Rightarrow> bool" where
  "script_names_settings gd w = settings_in (gd_alnum gd) (gd_lc gd w)"

section \<open>Writes\<close>

definition is_open_redirect_target :: "ground \<Rightarrow> str list option \<Rightarrow> str list \<Rightarrow> bool \<Rightarrow> bool" where
  "is_open_redirect_target gd previous ws in_claude_dir \<longleftrightarrow>
     (case previous of None \<Rightarrow> False | Some p \<Rightarrow> p \<noteq> [] \<and> last p \<noteq> [] \<and> last (last p) = 62) \<and>
     (case ws of [] \<Rightarrow> False | w # _ \<Rightarrow> names_settings gd in_claude_dir w)"

definition redirects_to_settings :: "ground \<Rightarrow> str list \<Rightarrow> bool \<Rightarrow> bool" where
  "redirects_to_settings gd ws in_claude_dir \<longleftrightarrow> list_ex (names_settings gd in_claude_dir) (redirect_targets ws)"

definition copies_into_claude_dir :: "ground \<Rightarrow> str list \<Rightarrow> str option \<Rightarrow> bool" where
  "copies_into_claude_dir gd operands target_dir =
     (let sources = (if target_dir \<noteq> None then operands else butlast operands);
          dir = (case target_dir of Some d \<Rightarrow> Some d | None \<Rightarrow> if operands = [] then None else Some (last operands))
      in (case dir of None \<Rightarrow> False | Some d \<Rightarrow> names_claude_dir gd d) \<and>
         list_ex (\<lambda>s. is_settings_name (gd_lc gd (after_last_slash s))) sources)"

text \<open>The commands behind a shell's \<^verbatim>\<open>-c\<close> or a runner.\<close>

definition wrapped_commands :: "ground \<Rightarrow> str list \<Rightarrow> nat \<Rightarrow> str list list" where
  "wrapped_commands gd ws i =
     (let program = program_name (gd_lc gd) (ws ! i); rest = drop (i + 1) ws in
      if program \<in> set SHELLS then
        (case shell_script_at rest of None \<Rightarrow> [] | Some n \<Rightarrow> if n < length rest then simple_commands (rest ! n) else [])
      else case runner_value_options program of
        Some takes_value \<Rightarrow> let inner = drop (skip_options rest 0 takes_value) rest in if inner = [] then [] else [inner]
      | None \<Rightarrow> [])"

fun target_dir_of :: "str list \<Rightarrow> str option" where
  "target_dir_of [] = None"
| "target_dir_of (w # ws) = (case strip_prefix (lit ''--target-directory='') w of
     Some d \<Rightarrow> Some d
   | None \<Rightarrow>
       if (w = lit ''-t'' \<or> w = lit ''--target-directory'') \<and> ws \<noteq> [] then Some (hd ws) else target_dir_of ws)"

definition edits_in_place :: "str list \<Rightarrow> bool" where
  "edits_in_place args \<longleftrightarrow> list_ex (\<lambda>w. is_short_cluster_with w 105 \<or> starts_with w (lit ''--in-place'')) args"

definition program_writes_settings :: "ground \<Rightarrow> bool \<Rightarrow> str \<Rightarrow> str list \<Rightarrow> bool" where
  "program_writes_settings gd in_claude_dir program args =
     (let operands = filter (\<lambda>w. \<not> starts_with w (lit ''-'')) args; settings = names_settings gd in_claude_dir;
          target_dir = target_dir_of args in
      if program \<in> set (map lit [''tee'', ''sponge'', ''patch'']) then list_ex settings operands
      else if program \<in> set (map lit [''mv'', ''cp'', ''install'', ''rsync'', ''ln'']) then
        (program = lit ''mv'' \<and> list_ex settings operands) \<or> (operands \<noteq> [] \<and> settings (last operands)) \<or>
        (case target_dir of None \<Rightarrow> False | Some d \<Rightarrow> settings d) \<or> copies_into_claude_dir gd operands target_dir
      else if program = lit ''dd'' then
        list_ex (\<lambda>w. case strip_prefix (lit ''of='') w of None \<Rightarrow> False | Some f \<Rightarrow> settings f) args
      else if program \<in> set (map lit [''sed'', ''perl'', ''ruby'', ''awk'', ''gawk'']) \<and> edits_in_place args then list_ex settings operands
      else if program \<in> set (map lit [''truncate'', ''rm'', ''unlink'', ''shred'']) then list_ex settings operands
      else if program \<in> set SCRIPT_INTERPRETERS \<or> starts_with program (lit ''python'') then
        list_ex (\<lambda>w. script_names_settings gd w \<and> list_ex (contains_str (gd_lc gd w)) WRITE_MARKERS) args
      else False)"

text \<open>The first argument counts down from three the wrappers still looked through.\<close>

fun writes_at :: "nat \<Rightarrow> ground \<Rightarrow> bool \<Rightarrow> str list \<Rightarrow> nat \<Rightarrow> bool" where
  "writes_at 0 gd in_claude_dir ws i \<longleftrightarrow> redirects_to_settings gd ws in_claude_dir \<or>
     program_writes_settings gd in_claude_dir (program_name (gd_lc gd) (ws ! i)) (drop (i + 1) ws)"
| "writes_at (Suc n) gd in_claude_dir ws i \<longleftrightarrow>
     list_ex (\<lambda>inner. case program_index (gd_lc gd) inner of None \<Rightarrow> False | Some j \<Rightarrow> writes_at n gd in_claude_dir inner j)
       (wrapped_commands gd ws i) \<or> redirects_to_settings gd ws in_claude_dir \<or>
     program_writes_settings gd in_claude_dir (program_name (gd_lc gd) (ws ! i)) (drop (i + 1) ws)"

definition writes_claude_settings :: "ground \<Rightarrow> str list \<Rightarrow> nat \<Rightarrow> bool \<Rightarrow> bool" where
  "writes_claude_settings gd ws i in_claude_dir = writes_at 3 gd in_claude_dir ws i"

end
