(* ===== verification/Policy_Guard.thy ===== *)
theory Policy_Guard
  imports Policy_Settings Budget
begin

text \<open>
  The policy guard, \<^verbatim>\<open>crates/cli/src/hooks/policy_guard.rs\<close>: the hook that denies skipping git
  hooks and signing, hand-made pull requests, and changes to protected settings, to the config
  store and to Claude Code's own files.
\<close>

section \<open>Words the guard knows\<close>

definition HOOKED_SUBCOMMANDS :: "str list" where
  "HOOKED_SUBCOMMANDS = map lit [''commit'', ''push'', ''merge'', ''rebase'', ''cherry-pick'', ''am'']"

definition SIGNING_SUBCOMMANDS :: "str list" where
  "SIGNING_SUBCOMMANDS = map lit [''commit'', ''tag'', ''merge'', ''rebase'', ''cherry-pick'', ''revert'', ''am'']"

definition GIT_VALUE_OPTIONS :: "str list" where
  "GIT_VALUE_OPTIONS = map lit [''-C'', ''--git-dir'', ''--work-tree'', ''--namespace'', ''--exec-path'', ''--super-prefix'']"

definition GH_VALUE_OPTIONS :: "str list" where
  "GH_VALUE_OPTIONS = map lit [''-R'', ''--repo'']"

definition COMMIT_VALUE_SHORTS :: str where
  "COMMIT_VALUE_SHORTS = lit ''mFCcts''"

definition MIN_ABBREVIATION :: nat where
  "MIN_ABBREVIATION = 8"

definition PROTECTED_KEY_PREFIXES :: "str list" where
  "PROTECTED_KEY_PREFIXES = map lit [''hooks.policyguard'', ''hooks.proselint'', ''pr.rules.'', ''pr.bodymaxchars'', ''pr.ticketpatterns'']"

datatype policy_reason = No_Verify | No_Sign | Pr_Create | Config_Set | Config_Store | Worktree_Env | Settings_Write
  | Hook_Entries | Settings_Edit | Memory_Off_Limits

section \<open>git and gh\<close>

definition is_long_option :: "str \<Rightarrow> str \<Rightarrow> bool" where
  "is_long_option w name \<longleftrightarrow> w = name \<or>
     (utf8_len w \<ge> MIN_ABBREVIATION \<and> starts_with w (lit ''--'') \<and> starts_with name w)"

fun n_before_value :: "str \<Rightarrow> bool" where
  "n_before_value [] \<longleftrightarrow> False"
| "n_before_value (c # cs) \<longleftrightarrow> c \<notin> set COMMIT_VALUE_SHORTS \<and> (c = 110 \<or> n_before_value cs)"

definition is_commit_short_n :: "str \<Rightarrow> bool" where
  "is_commit_short_n w = (case strip_prefix (lit ''-'') w of
     None \<Rightarrow> False
   | Some cluster \<Rightarrow> cluster \<noteq> [] \<and> list_all (\<lambda>c. is_ascii_upper c \<or> is_ascii_lower c) cluster \<and> n_before_value cluster)"

definition turns_signing_off :: "str \<Rightarrow> bool" where
  "turns_signing_off val = (case split_once 61 val of
     None \<Rightarrow> False
   | Some (key, setting) \<Rightarrow> trim setting \<in> {lit ''false'', lit ''no'', lit ''off'', lit ''0'', []} \<and>
       (key = lit ''commit.gpgsign'' \<or> key = lit ''tag.gpgsign''))"

definition check_subcommand :: "str \<Rightarrow> str list \<Rightarrow> policy_reason option" where
  "check_subcommand sub args =
     (let rest = takeWhile (\<lambda>w. w \<noteq> lit ''--'') args in
      if sub \<in> set HOOKED_SUBCOMMANDS \<and> list_ex (\<lambda>w. is_long_option w (lit ''--no-verify'')) rest then Some No_Verify
      else if sub = lit ''commit'' \<and> list_ex is_commit_short_n rest then Some No_Verify
      else if sub \<in> set SIGNING_SUBCOMMANDS \<and> list_ex (\<lambda>w. is_long_option w (lit ''--no-gpg-sign'')) rest then Some No_Sign
      else None)"

text \<open>\<open>check_git\<close> walks over the options in front of the subcommand.\<close>

function check_git :: "(str \<Rightarrow> str) \<Rightarrow> str list \<Rightarrow> policy_reason option" where
  "check_git lc [] = None"
| "check_git lc (w # ws) =
     (if w = lit ''-c'' then
        (case ws of [] \<Rightarrow> None
         | v # rest \<Rightarrow> if turns_signing_off (lc v) then Some No_Sign else check_git lc rest)
      else if w \<in> set GIT_VALUE_OPTIONS then check_git lc (drop 1 ws)
      else if starts_with w (lit ''-'') then check_git lc ws
      else check_subcommand w ws)"
  by pat_completeness auto
termination by (relation "measure (\<lambda>(_, ws). length ws)") auto

fun gh_positional :: "nat \<Rightarrow> bool \<Rightarrow> str list \<Rightarrow> str list" where
  "gh_positional 0 skip ws = []"
| "gh_positional (Suc n) skip [] = []"
| "gh_positional (Suc n) True (w # ws) = gh_positional (Suc n) False ws"
| "gh_positional (Suc n) False (w # ws) =
     (if w \<in> set GH_VALUE_OPTIONS then gh_positional (Suc n) True ws
      else if starts_with w (lit ''-'') then gh_positional (Suc n) False ws
      else w # gh_positional n False ws)"

definition check_gh :: "str list \<Rightarrow> policy_reason option" where
  "check_gh args = (if gh_positional 2 False args = [lit ''pr'', lit ''create''] then Some Pr_Create else None)"

section \<open>Protected settings\<close>

definition is_protected_config_key :: "ground \<Rightarrow> str \<Rightarrow> bool" where
  "is_protected_config_key gd w \<longleftrightarrow> list_ex (starts_with (gd_lc gd w)) PROTECTED_KEY_PREFIXES"

definition assigns_worktree_base :: "str list \<Rightarrow> bool" where
  "assigns_worktree_base ws \<longleftrightarrow>
     list_ex (\<lambda>w. case split_once 61 w of None \<Rightarrow> False | Some (name, _) \<Rightarrow> name = lit ''WORKTREE_BASE_DIR'') ws"

text \<open>The arguments of \<^verbatim>\<open>playbook\<close>, which may be run through cargo.\<close>

definition playbook_args :: "ground \<Rightarrow> str list \<Rightarrow> nat \<Rightarrow> str list option" where
  "playbook_args gd ws i =
     (let program = program_name (gd_lc gd) (ws ! i); args = drop (i + 1) ws in
      if program = lit ''playbook'' \<or> program = lit ''pb'' then Some args
      else if program = lit ''cargo'' then cargo_run_args args else None)"

definition config_change :: "ground \<Rightarrow> str list \<Rightarrow> policy_reason option" where
  "config_change gd args =
     (if find (\<lambda>w. \<not> starts_with w (lit ''-'')) args \<noteq> Some (lit ''config'') then None
      else
        let k = (case first_index (\<lambda>w. w = lit ''config'') args of None \<Rightarrow> 0 | Some i \<Rightarrow> i) in
        (case drop (k + 1) args of
           [] \<Rightarrow> None
         | verb # rest \<Rightarrow>
             if verb \<in> {lit ''import'', lit ''unset'', lit ''edit''} then Some Config_Set
             else if verb = lit ''set'' \<and> list_ex (is_protected_config_key gd) (filter (\<lambda>w. \<not> starts_with w (lit ''-'')) rest)
             then Some Config_Set else None))"

definition direct_change :: "ground \<Rightarrow> str list \<Rightarrow> nat \<Rightarrow> policy_reason option" where
  "direct_change gd ws i = Option.bind (playbook_args gd ws i) (config_change gd)"

text \<open>The first argument counts down from three the wrappers still looked through.\<close>

fun changes_protected_config_at :: "nat \<Rightarrow> ground \<Rightarrow> str list \<Rightarrow> nat \<Rightarrow> policy_reason option" where
  "changes_protected_config_at 0 gd ws i =
     (if assigns_worktree_base (take i ws) then Some Worktree_Env
      else if writes_config_store (gd_lc gd) ws (gd_home gd) then Some Config_Store
      else direct_change gd ws i)"
| "changes_protected_config_at (Suc n) gd ws i =
     (if assigns_worktree_base (take i ws) then Some Worktree_Env
      else if writes_config_store (gd_lc gd) ws (gd_home gd) then Some Config_Store
      else
        let program = program_name (gd_lc gd) (ws ! i); rest = drop (i + 1) ws;
            inside = (\<lambda>inner. case program_index (gd_lc gd) inner of None \<Rightarrow> None | Some j \<Rightarrow> changes_protected_config_at n gd inner j);
            script = (if program \<in> set SHELLS then Option.bind (shell_script_at rest)
                        (\<lambda>k. if k < length rest then Some (rest ! k) else None) else None)
        in case script of
             Some s \<Rightarrow> find_map inside (simple_commands s)
           | None \<Rightarrow>
               (case runner_value_options program of
                  Some takes_value \<Rightarrow> inside (drop (skip_options rest 0 takes_value) rest)
                | None \<Rightarrow> direct_change gd ws i))"

definition changes_protected_config :: "ground \<Rightarrow> str list \<Rightarrow> nat \<Rightarrow> policy_reason option" where
  "changes_protected_config gd ws i = changes_protected_config_at 3 gd ws i"

definition uninstalls_now :: "ground \<Rightarrow> str list \<Rightarrow> nat \<Rightarrow> bool" where
  "uninstalls_now gd ws i = (case playbook_args gd ws i of
     None \<Rightarrow> False
   | Some args \<Rightarrow> find (\<lambda>w. \<not> starts_with w (lit ''-'')) args = Some (lit ''uninstall'') \<and>
       lit ''--yes'' \<in> set args \<and> lit ''--dry-run'' \<notin> set args)"

fun uninstalls_playbook :: "nat \<Rightarrow> ground \<Rightarrow> str list \<Rightarrow> nat \<Rightarrow> bool" where
  "uninstalls_playbook 0 gd ws i = uninstalls_now gd ws i"
| "uninstalls_playbook (Suc n) gd ws i =
     (list_ex (\<lambda>inner. case program_index (gd_lc gd) inner of None \<Rightarrow> False | Some j \<Rightarrow> uninstalls_playbook n gd inner j)
        (wrapped_commands gd ws i) \<or> uninstalls_now gd ws i)"

section \<open>Claude Code's memory\<close>

definition push_segment :: "str list \<Rightarrow> str \<Rightarrow> str list" where
  "push_segment ps s = (if s = [] \<or> s = lit ''.'' then ps else if s = lit ''..'' then butlast ps else ps @ [s])"

definition is_claude_memory_path :: "str \<Rightarrow> str \<Rightarrow> bool" where
  "is_claude_memory_path path home =
     (let expanded = expand_home path home;
          parts = foldl push_segment [] (split_on 47 expanded); home_parts = filter (\<lambda>p. p \<noteq> []) (split_on 47 home) in
      if home = [] \<or> \<not> starts_with expanded (lit ''/'') then False
      else case strip_prefix home_parts parts of
        None \<Rightarrow> False
      | Some rest \<Rightarrow>
          (case rest of
             a # b # ws \<Rightarrow> a = lit ''.claude'' \<and>
               (b = lit ''memory'' \<or> (b = lit ''projects'' \<and> (case ws of _ # c # _ \<Rightarrow> c = lit ''memory'' | _ \<Rightarrow> False)))
           | _ \<Rightarrow> False))"

definition redirects :: "str \<Rightarrow> bool" where
  "redirects w = (let operator = dropWhile is_ascii_digit w in
     starts_with operator (lit ''>'') \<and> \<not> starts_with operator (lit ''>&''))"

definition writes_claude_memory :: "ground \<Rightarrow> str list \<Rightarrow> nat \<Rightarrow> bool" where
  "writes_claude_memory gd ws i =
     (let program = program_name (gd_lc gd) (ws ! i);
          in_place = (program \<in> {lit ''sed'', lit ''perl''} \<and>
            list_ex (\<lambda>w. starts_with w (lit ''-i'') \<or> w = lit ''--in-place'') (drop (i + 1) ws)) in
      list_ex (\<lambda>w. is_claude_memory_path w (gd_home gd)) ws \<and>
      (program \<in> set WRITER_PROGRAMS \<or> in_place \<or> list_ex redirects ws))"

section \<open>The verdict\<close>

definition guarded_needles :: "str list" where
  "guarded_needles = map lit [''git'', ''gh'', ''.claude'', ''~'', ''playbook'', ''config'', ''uninstall'', ''cargo'', ''worktree_base_dir'']"

definition mentions_a_guarded_program :: "ground \<Rightarrow> str \<Rightarrow> bool" where
  "mentions_a_guarded_program gd t =
     (let bare = gd_lc gd (filter (\<lambda>c. c \<noteq> 39 \<and> c \<noteq> 34 \<and> c \<noteq> 92) t) in list_ex (contains_str bare) guarded_needles)"

text \<open>One simple command that runs a program.\<close>

definition check_words :: "ground \<Rightarrow> bool \<Rightarrow> str list \<Rightarrow> nat \<Rightarrow> policy_reason option" where
  "check_words gd in_claude_dir ws i =
     (let args = drop (i + 1) ws; program = program_name (gd_lc gd) (ws ! i) in
      case changes_protected_config gd ws i of
        Some r \<Rightarrow> Some r
      | None \<Rightarrow>
          if uninstalls_playbook 3 gd ws i then Some Hook_Entries
          else case (if program = lit ''git'' then check_git (gd_lc gd) args else if program = lit ''gh'' then check_gh args else None) of
            Some r \<Rightarrow> Some r
          | None \<Rightarrow>
              if writes_claude_settings gd ws i in_claude_dir then Some Settings_Write
              else if writes_claude_memory gd ws i then Some Memory_Off_Limits
              else None)"

fun check_commands :: "ground \<Rightarrow> bool \<Rightarrow> str list option \<Rightarrow> str list list \<Rightarrow> policy_reason option" where
  "check_commands gd in_claude_dir previous [] = None"
| "check_commands gd in_claude_dir previous (ws # rest) =
     (if is_open_redirect_target gd previous ws in_claude_dir then Some Settings_Write
      else if is_open_redirect_into_store (gd_lc gd) previous ws (gd_home gd) then Some Config_Store
      else case program_index (gd_lc gd) ws of
        None \<Rightarrow>
          if redirects_to_settings gd ws in_claude_dir then Some Settings_Write
          else if writes_config_store (gd_lc gd) ws (gd_home gd) then Some Config_Store
          else check_commands gd in_claude_dir (Some ws) rest
      | Some i \<Rightarrow>
          (case check_words gd in_claude_dir ws i of
             Some r \<Rightarrow> Some r
           | None \<Rightarrow> check_commands gd (in_claude_dir \<or> enters_claude_dir gd ws i) (Some ws) rest))"

definition check_command :: "ground \<Rightarrow> str \<Rightarrow> policy_reason option" where
  "check_command gd t = (if \<not> mentions_a_guarded_program gd t then None else check_commands gd False None (simple_commands t))"

definition check_path :: "ground \<Rightarrow> str \<Rightarrow> policy_reason option" where
  "check_path gd path =
     (if gd_home gd \<noteq> [] \<and> is_config_file (gd_lc gd) path (playbook_root (gd_home gd)) then Some Config_Store
      else if is_claude_memory_path path (gd_home gd) then Some Memory_Off_Limits else None)"

definition decide_policy :: "ground \<Rightarrow> str \<Rightarrow> str \<Rightarrow> policy_reason option" where
  "decide_policy gd command path =
     (if command \<noteq> [] then check_command gd command
      else if settings_path gd path \<noteq> None then Some Settings_Edit
      else check_path gd path)"

definition path_extension :: "str \<Rightarrow> str option" where
  "path_extension p = Option.bind (file_name p) (\<lambda>name. case rsplit_once 46 name of
     Some (before, ext) \<Rightarrow> if before = [] then None else Some ext | None \<Rightarrow> None)"

definition is_fact_file :: "str \<Rightarrow> str \<Rightarrow> bool" where
  "is_fact_file path memory_dir \<longleftrightarrow> starts_with path (lit ''/'') \<and> path_extension path = Some (lit ''md'') \<and>
     parts_start_with (path_parts path) (path_parts memory_dir) \<and> ParentDir \<notin> set (path_parts path)"

datatype policy_answer = Policy_Deny policy_reason | Memory_Schema | Policy_Silent

text \<open>\<^verbatim>\<open>POLICY_GUARD\<close>, where it is set, and the stored \<^verbatim>\<open>hooks.policyGuard.enabled\<close>.\<close>

definition env_override :: "str option \<Rightarrow> bool option" where
  "env_override var = (if var = Some (lit ''0'') then Some False else if var = Some (lit ''1'') then Some True else None)"

definition policy_enabled :: "str option \<Rightarrow> bool \<Rightarrow> bool" where
  "policy_enabled var stored = (case env_override var of Some on \<Rightarrow> on | None \<Rightarrow> stored)"

definition run_policy :: "ground \<Rightarrow> str option \<Rightarrow> bool \<Rightarrow> str \<Rightarrow> str \<Rightarrow> str \<Rightarrow> str \<Rightarrow> policy_answer" where
  "run_policy gd var stored tool command path memory_dir =
     (if var = Some (lit ''0'') then Policy_Silent
      else case (if policy_enabled var stored then decide_policy gd command path else None) of
        Some r \<Rightarrow> Policy_Deny r
      | None \<Rightarrow> if tool = lit ''Write'' \<and> is_fact_file path memory_dir then Memory_Schema else Policy_Silent)"

end
