(* ===== verification/Policy_Hooks.thy ===== *)
theory Policy_Hooks
  imports Policy_Guard Shell_Spelling
begin

text \<open>Skipping git hooks or signing is denied however the command line is spelled, and three short
  options the guard misreads.\<close>

section \<open>The prefilter\<close>

text \<open>What \<^verbatim>\<open>to_lowercase\<close> does to ASCII text, wherever it stands.\<close>

definition lowers_ascii :: "(str \<Rightarrow> str) \<Rightarrow> bool" where
  "lowers_ascii lc \<longleftrightarrow> (\<forall>u. list_all (\<lambda>c. c < 128) u \<longrightarrow>
     lc u = map to_ascii_lower u \<and> (\<forall>a b. \<exists>a' b'. lc (a @ u @ b) = a' @ map to_ascii_lower u @ b'))"

definition unquoted :: "str \<Rightarrow> str" where
  "unquoted t = filter (\<lambda>c. c \<noteq> 39 \<and> c \<noteq> 34 \<and> c \<noteq> 92) t"

lemma unquoted_append [simp]: "unquoted (a @ b) = unquoted a @ unquoted b"
  by (simp add: unquoted_def)

lemma unquoted_double: "list_all qok qs \<Longrightarrow> unquoted (concat (map qsource qs)) = unquoted (concat (map qvalue qs))"
proof (induction qs)
  case (Cons q qs)
  then show ?case by (cases q) (auto simp: unquoted_def)
qed simp

lemma unquoted_spell: "list_all piece_ok ps \<Longrightarrow> unquoted (spell ps) = unquoted (meaning ps)"
proof (induction ps)
  case (Cons p ps)
  have "unquoted (source p) = unquoted (value_of p)"
  proof (cases p)
    case (Double qs)
    with Cons.prems unquoted_double[of qs] show ?thesis by (simp add: unquoted_def)
  qed (use Cons.prems in \<open>auto simp: unquoted_def\<close>)
  with Cons show ?case by (simp add: spell_def meaning_def)
qed (simp add: spell_def meaning_def)

lemma line_text_at:
  "i < length line \<Longrightarrow> \<exists>a b. line_text line = a @ spell (snd (line ! i)) @ b"
proof (induction line arbitrary: i)
  case (Cons gw line)
  obtain g w where gw: "gw = (g, w)" by (cases gw)
  show ?case
  proof (cases i)
    case 0
    then have "line_text (gw # line) = g @ spell (snd ((gw # line) ! i)) @ line_text line" by (simp add: gw line_text_def)
    then show ?thesis by blast
  next
    case (Suc j)
    with Cons.prems have "j < length line" by simp
    from Cons.IH[OF this] obtain a b where "line_text line = a @ spell (snd (line ! j)) @ b" by blast
    then have "line_text (gw # line) = (g @ spell w @ a) @ spell (snd (line ! j)) @ b" by (simp add: gw line_text_def)
    then show ?thesis unfolding Suc nth_Cons_Suc by blast
  qed
qed simp

lemma mentions_word:
  assumes "lowers_ascii (gd_lc gd)" "line_ok line" "i < length line" "line_words line ! i = d @ u @ e" "u \<in> set guarded_needles"
  shows "mentions_a_guarded_program gd (line_text line)"
proof -
  have u: "list_all (\<lambda>c. c < 128) u" "map to_ascii_lower u = u" "unquoted u = u"
    using assms(5) by (auto simp: guarded_needles_def lit_def unquoted_def to_ascii_lower_def is_ascii_upper_def)
  obtain a b where t: "line_text line = a @ spell (snd (line ! i)) @ b" using line_text_at[OF assms(3)] by blast
  have "word_ok (snd (line ! i))" using assms(2,3) by (auto simp: line_ok_def list_all_iff split_def)
  moreover have "meaning (snd (line ! i)) = d @ u @ e" using assms(3,4) by (simp add: line_words_def split_def)
  ultimately have "unquoted (line_text line) = (unquoted a @ unquoted d) @ u @ (unquoted e @ unquoted b)"
    using unquoted_spell by (simp add: t word_ok_def u(3))
  with assms(1) u(1,2) obtain a' b' where "gd_lc gd (unquoted (line_text line)) = a' @ u @ b'"
    unfolding lowers_ascii_def by metis
  then have "contains_str (gd_lc gd (unquoted (line_text line))) u" by (auto simp: contains_str_sublist sublist_def)
  with assms(5) show ?thesis by (auto simp: mentions_a_guarded_program_def unquoted_def[symmetric] Let_def list_ex_iff)
qed

section \<open>git\<close>

fun git_globals :: "str list \<Rightarrow> bool" where
  "git_globals [] \<longleftrightarrow> True"
| "git_globals [w] \<longleftrightarrow> w \<noteq> lit ''-c'' \<and> w \<notin> set GIT_VALUE_OPTIONS \<and> starts_with w (lit ''-'')"
| "git_globals (w # v # ws) \<longleftrightarrow>
     (if w = lit ''-c'' \<or> w \<in> set GIT_VALUE_OPTIONS then git_globals ws else starts_with w (lit ''-'') \<and> git_globals (v # ws))"

lemma check_git_globals: "git_globals gs \<Longrightarrow> check_git lc (gs @ ws) \<in> {Some No_Sign, check_git lc ws}"
  by (induction gs rule: git_globals.induct) (auto split: if_splits)

text \<open>A commit, or another command that runs hooks or signs, with the option against it.\<close>

definition skips_checks :: "str list \<Rightarrow> bool" where
  "skips_checks args \<longleftrightarrow> (\<exists>gs sub rest. args = gs @ sub # rest \<and> git_globals gs \<and>
     (let opts = set (takeWhile (\<lambda>w. w \<noteq> lit ''--'') rest) in
      (sub \<in> set HOOKED_SUBCOMMANDS \<and> lit ''--no-verify'' \<in> opts) \<or> (sub = lit ''commit'' \<and> lit ''-n'' \<in> opts) \<or>
      (sub \<in> set SIGNING_SUBCOMMANDS \<and> lit ''--no-gpg-sign'' \<in> opts)))"

lemma subcommand_words: "sub \<in> set HOOKED_SUBCOMMANDS \<or> sub = lit ''commit'' \<or> sub \<in> set SIGNING_SUBCOMMANDS \<Longrightarrow>
    sub \<noteq> lit ''-c'' \<and> sub \<notin> set GIT_VALUE_OPTIONS \<and> \<not> starts_with sub (lit ''-'')"
  by (auto simp: HOOKED_SUBCOMMANDS_def SIGNING_SUBCOMMANDS_def GIT_VALUE_OPTIONS_def lit_def starts_with_def)

lemma check_subcommand_skips:
  assumes "let opts = set (takeWhile (\<lambda>w. w \<noteq> lit ''--'') rest) in
      (sub \<in> set HOOKED_SUBCOMMANDS \<and> lit ''--no-verify'' \<in> opts) \<or> (sub = lit ''commit'' \<and> lit ''-n'' \<in> opts) \<or>
      (sub \<in> set SIGNING_SUBCOMMANDS \<and> lit ''--no-gpg-sign'' \<in> opts)"
  shows "check_subcommand sub rest \<noteq> None"
proof -
  have "is_long_option w w" for w by (simp add: is_long_option_def)
  moreover have "is_commit_short_n (lit ''-n'')"
    by (simp add: is_commit_short_n_def strip_prefix_def lit_def is_ascii_lower_def COMMIT_VALUE_SHORTS_def)
  ultimately show ?thesis using assms by (auto simp: check_subcommand_def Let_def list_ex_iff)
qed

lemma check_git_skips: "skips_checks args \<Longrightarrow> check_git lc args \<noteq> None"
proof -
  assume "skips_checks args"
  then obtain gs sub rest where a: "args = gs @ sub # rest" "git_globals gs" and
    s: "let opts = set (takeWhile (\<lambda>w. w \<noteq> lit ''--'') rest) in
      (sub \<in> set HOOKED_SUBCOMMANDS \<and> lit ''--no-verify'' \<in> opts) \<or> (sub = lit ''commit'' \<and> lit ''-n'' \<in> opts) \<or>
      (sub \<in> set SIGNING_SUBCOMMANDS \<and> lit ''--no-gpg-sign'' \<in> opts)"
    unfolding skips_checks_def by blast
  have "sub \<noteq> lit ''-c'' \<and> sub \<notin> set GIT_VALUE_OPTIONS \<and> \<not> starts_with sub (lit ''-'')"
    by (rule subcommand_words) (use s in \<open>auto simp: Let_def\<close>)
  then have "check_git lc (sub # rest) = check_subcommand sub rest" by simp
  with check_git_globals[OF a(2), of lc "sub # rest"] check_subcommand_skips[OF s] a(1) show ?thesis by auto
qed

text \<open>The words run git, behind any wrappers, with these arguments.\<close>

definition runs_git :: "(str \<Rightarrow> str) \<Rightarrow> str list \<Rightarrow> str list \<Rightarrow> bool" where
  "runs_git lc ws args \<longleftrightarrow> (\<exists>i d. program_index lc ws = Some i \<and> ws ! i = d @ lit ''git'' \<and> (d = [] \<or> last d = 47) \<and>
     args = drop (i + 1) ws)"

lemma file_name_mid:
  assumes "name \<noteq> []" "47 \<notin> set name" "name \<notin> {lit ''.'', lit ''..''}"
  shows "file_name (d @ 47 # name) = Some name"
proof -
  let ?xs = "filter (\<lambda>p. p \<noteq> []) (split_on 47 d)"
  have "filter (\<lambda>p. p \<noteq> []) (split_on 47 (d @ 47 # name)) = ?xs @ [name]"
    using assms(1,2) by (simp add: split_on_mid split_on_free)
  then have "\<exists>cs. path_components (d @ 47 # name) = cs @ [name]"
    using assms(3) by (cases ?xs) (auto simp: path_components_def)
  then show ?thesis using assms(3) by (auto simp: file_name_def)
qed

lemma program_name_git:
  assumes "lowers_ascii lc" "d = [] \<or> last d = 47"
  shows "program_name lc (d @ lit ''git'') = lit ''git''"
proof -
  have "file_name (lit ''git'') = Some (lit ''git'')" by (simp add: file_name_def path_components_def lit_def)
  moreover have "file_name ((butlast d) @ 47 # lit ''git'') = Some (lit ''git'')" by (rule file_name_mid) (simp_all add: lit_def)
  moreover have "d = [] \<or> d @ lit ''git'' = butlast d @ 47 # lit ''git''"
    using assms(2) by (cases d rule: rev_cases) auto
  ultimately have "file_name (d @ lit ''git'') = Some (lit ''git'')" by (metis append_Nil)
  moreover have "lc (lit ''git'') = lit ''git''"
    using assms(1) unfolding lowers_ascii_def by (simp add: lit_def to_ascii_lower_def is_ascii_upper_def)
  ultimately show ?thesis by (simp add: program_name_def)
qed


text \<open>A setting for witnesses: ASCII text only, no links, a home folder.\<close>

definition sample_ground :: ground where
  "sample_ground = \<lparr>gd_lc = map to_ascii_lower, gd_alnum = is_ascii_alnum, gd_canon = Map.empty, gd_home = lit ''/h''\<rparr>"

lemma sample_lowers: "lowers_ascii (gd_lc sample_ground)"
  unfolding lowers_ascii_def sample_ground_def by (auto intro!: exI)

lemma skips_no_verify: "skips_checks [lit ''commit'', lit ''--no-verify'']"
  unfolding skips_checks_def
  by (rule exI[of _ "[]"], rule exI[of _ "lit ''commit''"], rule exI[of _ "[lit ''--no-verify'']"])
     (simp add: HOOKED_SUBCOMMANDS_def lit_def)

lemma git_runs: "runs_git (map to_ascii_lower) [lit ''/bin/git'', lit ''commit'', lit ''--no-verify''] [lit ''commit'', lit ''--no-verify'']"
proof -
  have "redirect_len (lit ''/bin/git'') = 0" "\<not> is_assignment (lit ''/bin/git'')" "lit ''/bin/git'' \<notin> set SHELL_KEYWORDS"
    by (simp_all add: redirect_len_def is_assignment_def SHELL_KEYWORDS_def lit_def is_ascii_digit_def)
  moreover have "program_name (map to_ascii_lower) (lit ''/bin/git'') = lit ''git''" "lit ''git'' \<notin> set WRAPPERS"
    by (simp_all add: program_name_def file_name_def path_components_def WRAPPERS_def lit_def to_ascii_lower_def
        is_ascii_upper_def starts_with_def)
  ultimately have "program_index (map to_ascii_lower) [lit ''/bin/git'', lit ''commit'', lit ''--no-verify''] = Some 0"
    unfolding program_index_def by (subst program_from.simps) (simp add: Let_def)
  then show ?thesis
    unfolding runs_git_def by (intro exI[of _ 0] exI[of _ "lit ''/bin/''"]) (simp add: lit_def)
qed



end
