(* ===== verification/Policy_Writes.thy ===== *)
theory Policy_Writes
  imports Policy_Hooks
begin

text \<open>A redirect into a Claude Code settings file is denied wherever it stands in a command.\<close>

section \<open>Paths that end in a settings file\<close>

lemma expand_with_tail:
  "list_all (\<lambda>p. 47 \<notin> set p) ps \<Longrightarrow> \<exists>e. expand_with ps (d @ 47 # r) home = e @ 47 # r"
proof (induction ps)
  case (Cons p ps)
  then obtain e where e: "expand_with ps (d @ 47 # r) home = e @ 47 # r" by auto
  show ?case
  proof (cases "strip_prefix p (d @ 47 # r)")
    case (Some rest)
    then have "take (length p) (d @ 47 # r) = p \<and> rest = drop (length p) (d @ 47 # r)"
      unfolding strip_prefix_def by (metis option.distinct(1) option.inject)
    then have p: "p @ rest = d @ 47 # r" by (metis append_take_drop_id)
    have "\<exists>us. p @ us = d \<and> rest = us @ 47 # r"
      using p Cons.prems by (auto simp: append_eq_append_conv2 append_eq_Cons_conv)
    with Some e show ?thesis by auto
  qed (use e in auto)
qed auto

lemma expand_home_tail: "\<exists>e. expand_home (d @ 47 # r) home = e @ 47 # r"
  unfolding expand_home_def by (rule expand_with_tail) (simp add: expand_prefixes_def lit_def)

lemma path_parts_tail:
  assumes "a \<noteq> []" "b \<noteq> []" "47 \<notin> set a" "47 \<notin> set b" "part_of a = Normal a" "part_of b = Normal b"
  shows "\<exists>xs. path_parts (e @ 47 # a @ 47 # b) = xs @ [Normal a, Normal b]"
proof -
  let ?xs = "map part_of (filter (\<lambda>p. p \<noteq> []) (split_on 47 e))"
  have "map part_of (filter (\<lambda>p. p \<noteq> []) (split_on 47 (e @ 47 # a @ 47 # b))) = ?xs @ [Normal a, Normal b]"
    using assms by (simp add: split_on_mid split_on_free split_on_append)
  then show ?thesis by (cases ?xs) (auto simp: path_parts_def Let_def)
qed

lemma lexical_normal: "lexical (xs @ [Normal a, Normal b]) = lexical xs @ [Normal a, Normal b]"
  by (simp add: lexical_def)

definition settings_names :: "str list" where
  "settings_names = map lit [''settings.json'', ''settings.local.json'']"

text \<open>A word for a settings file: a folder, however it is written, then \<^verbatim>\<open>/.claude/\<close> and the name.\<close>

definition settings_word :: "str \<Rightarrow> bool" where
  "settings_word w \<longleftrightarrow> \<not> starts_with w (lit ''-'') \<and> (\<exists>d name. name \<in> set settings_names \<and> w = d @ lit ''/.claude/'' @ name)"

lemma settings_word_named:
  assumes "lowers_ascii (gd_lc gd)" "settings_word w"
  shows "names_settings gd in_claude_dir w"
proof -
  from assms(2) obtain d name where w: "name \<in> set settings_names" "w = d @ lit ''/.claude/'' @ name" "\<not> starts_with w (lit ''-'')"
    by (auto simp: settings_word_def)
  then have w2: "w = d @ 47 # lit ''.claude'' @ 47 # name" by (simp add: lit_def)
  obtain e where e: "expand_home w (gd_home gd) = e @ 47 # lit ''.claude'' @ 47 # name"
    unfolding w2 using expand_home_tail by blast
  have name: "name \<noteq> []" "47 \<notin> set name" "part_of name = Normal name" "list_all (\<lambda>c. c < 128) name" "map to_ascii_lower name = name"
    using w(1) by (auto simp: settings_names_def part_of_def lit_def to_ascii_lower_def is_ascii_upper_def)
  have "\<exists>xs. path_parts (e @ 47 # lit ''.claude'' @ 47 # name) = xs @ [Normal (lit ''.claude''), Normal name]"
    by (rule path_parts_tail) (use name in \<open>simp_all add: part_of_def lit_def\<close>)
  then obtain xs where "path_parts (expand_home w (gd_home gd)) = xs @ [Normal (lit ''.claude''), Normal name]"
    unfolding e by blast
  moreover have "gd_lc gd name = name" using assms(1) name(4,5) by (simp add: lowers_ascii_def)
  ultimately have "is_claude_settings gd (lexical (path_parts (expand_home w (gd_home gd))))"
    using w(1) by (simp add: lexical_normal is_claude_settings_def parts_name_def is_dot_claude_def is_settings_name_def
        settings_names_def butlast_append)
  then show ?thesis using w2 w(3) by (simp add: names_settings_def Let_def)
qed

section \<open>Redirects\<close>

text \<open>A redirect that writes a file: a word that ends in \<^verbatim>\<open>>\<close> in front of it, or the file in the same word.\<close>

definition redirects_into :: "str list \<Rightarrow> str \<Rightarrow> bool" where
  "redirects_into ws t \<longleftrightarrow> (\<exists>xs op ys. ws = xs @ (op @ [62]) # t # ys) \<or>
     (\<exists>xs op ys. ws = xs @ (op @ 62 # t) # ys \<and> 62 \<notin> set t \<and> t \<noteq> [] \<and> hd t \<notin> {38, 124})"

lemma after_last_append: "c \<notin> set t \<Longrightarrow> after_last c (a @ c # t) = Some t"
  by (simp add: after_last_def takeWhile_append)

lemma redirect_targets_append: "t \<in> set (redirect_targets ys) \<Longrightarrow> t \<in> set (redirect_targets (xs @ ys))"
proof (induction xs)
  case (Cons x xs)
  then show ?case by (cases "xs @ ys") (auto split: option.splits simp: Let_def)
qed simp

lemma redirect_target_found: "redirects_into ws t \<Longrightarrow> t \<in> set (redirect_targets ws)"
proof -
  assume "redirects_into ws t"
  then consider xs op ys where "ws = xs @ (op @ [62]) # t # ys"
    | xs op ys where "ws = xs @ (op @ 62 # t) # ys" "62 \<notin> set t" "t \<noteq> []" "hd t \<notin> {38, 124}"
    unfolding redirects_into_def by blast
  then show ?thesis
  proof cases
    case 1
    then show ?thesis
      using after_last_append[of 62 "[]" "op"] by (auto intro!: redirect_targets_append simp: starts_with_def lit_def)
  next
    case 2
    moreover have "dropWhile (\<lambda>c. c = 124 \<or> c = 38) t = t" "\<not> starts_with t (lit ''&'')"
      using 2(3,4) by (cases t; simp add: starts_with_def lit_def)+
    ultimately show ?thesis
      using after_last_append[of 62 t "op"] by (auto intro!: redirect_targets_append simp: Let_def)
  qed
qed

lemma redirect_writes:
  assumes "redirects_to_settings gd ws in_claude_dir"
  shows "check_words gd in_claude_dir ws i \<noteq> None"
proof -
  have "writes_claude_settings gd ws i in_claude_dir"
    using assms by (simp add: writes_claude_settings_def eval_nat_numeral)
  then show ?thesis by (auto simp: check_words_def Let_def split: option.splits)
qed



section \<open>The prefilter\<close>


lemma tee_runs: "program_index (map to_ascii_lower) [lit ''tee'', lit ''memory.db''] = Some 0"
proof -
  have "redirect_len (lit ''tee'') = 0" "\<not> is_assignment (lit ''tee'')" "lit ''tee'' \<notin> set SHELL_KEYWORDS"
    by (simp_all add: redirect_len_def is_assignment_def SHELL_KEYWORDS_def lit_def is_ascii_digit_def)
  moreover have "program_name (map to_ascii_lower) (lit ''tee'') = lit ''tee''" "lit ''tee'' \<notin> set WRAPPERS"
    by (simp_all add: program_name_def file_name_def path_components_def WRAPPERS_def lit_def to_ascii_lower_def
        is_ascii_upper_def starts_with_def)
  ultimately show ?thesis
    unfolding program_index_def by (subst program_from.simps) (simp add: Let_def)
qed

text \<open>
  The prefilter is narrower than the checks behind it: a write to memory.db in the working
  directory counts as a write to the config store, but no word of it is one the prefilter looks for,
  so the guard lets it through.
\<close>

theorem prefilter_misses_memory_db:
  "writes_config_store (map to_ascii_lower) [lit ''tee'', lit ''memory.db''] home \<and>
   check_command sample_ground (lit ''tee memory.db'') = None"
proof
  have p: "program_name (map to_ascii_lower) (lit ''tee'') = lit ''tee''"
    by (simp add: program_name_def file_name_def path_components_def lit_def to_ascii_lower_def
        is_ascii_upper_def starts_with_def)
  have n: "names_config_store (map to_ascii_lower) (lit ''memory.db'') home"
    by (simp add: names_config_store_def names_database_def db_file_def after_last_slash_def to_ascii_lower_def
        is_ascii_upper_def lit_def)
  have "redirect_targets [lit ''tee'', lit ''memory.db''] = []" by (simp add: after_last_def lit_def)
  moreover have "program_writes (map to_ascii_lower) (lit ''tee'') [lit ''memory.db'']"
    by (simp add: program_writes_def WRITER_PROGRAMS_def lit_def)
  ultimately show "writes_config_store (map to_ascii_lower) [lit ''tee'', lit ''memory.db''] home"
    using n p tee_runs by (simp add: writes_config_store_def names_store_def Let_def del: redirect_targets.simps)
  show "check_command sample_ground (lit ''tee memory.db'') = None"
    by (simp add: check_command_def mentions_a_guarded_program_def guarded_needles_def sample_ground_def
        to_ascii_lower_def is_ascii_upper_def starts_with_def lit_def)
qed

end
