(* ===== verification/Cli_Opts.thy ===== *)
theory Cli_Opts
  imports Paths
begin

text \<open>
  The scanner for the options of one subcommand, \<^verbatim>\<open>crates/cli/src/common/cli_opts.rs\<close>: which options
  the words hold, and where the value of each sits.
\<close>

record opt_spec =
  os_short_values :: str
  os_short_attached :: str
  os_long_values :: "str list"
  os_long_flags :: "str list"
  os_other_long :: "str list"
  os_abbreviate :: bool

record opt =
  ot_name :: str
  ot_value :: "str option"
  ot_word :: nat
  ot_value_word :: nat
  ot_inline_at :: "nat option"

section \<open>Names\<close>

definition known_options :: "opt_spec \<Rightarrow> str list" where
  "known_options sp = os_long_values sp @ os_long_flags sp"

definition resolve_option :: "opt_spec \<Rightarrow> str \<Rightarrow> str option" where
  "resolve_option sp w =
     (case find (\<lambda>k. k = w) (known_options sp) of
        Some exact \<Rightarrow> Some exact
      | None \<Rightarrow>
          if w = [] \<or> \<not> os_abbreviate sp \<or> w \<in> set (os_other_long sp) then None
          else (case filter (\<lambda>k. starts_with k w) (known_options sp @ os_other_long sp) of
              [only] \<Rightarrow> find (\<lambda>k. k = only) (known_options sp)
            | _ \<Rightarrow> None))"

section \<open>The scan\<close>

text \<open>Each step gives the options found and the index of the next word.\<close>

definition take_next :: "opt \<Rightarrow> str list \<Rightarrow> nat \<Rightarrow> opt \<times> nat" where
  "take_next opt args i = (if i < length args then (opt\<lparr>ot_value := Some (args ! i), ot_value_word := i\<rparr>, i + 1) else (opt, i))"

definition scan_long :: "opt_spec \<Rightarrow> str \<Rightarrow> nat \<Rightarrow> str list \<Rightarrow> nat \<Rightarrow> opt \<times> nat" where
  "scan_long sp long k args i =
     (let (name, inline) = (case split_once 61 long of Some (name, v) \<Rightarrow> (name, Some v) | None \<Rightarrow> (long, None));
          known = resolve_option sp name;
          opt = \<lparr>ot_name = (case known of Some n \<Rightarrow> n | None \<Rightarrow> name), ot_value = None, ot_word = k, ot_value_word = k, ot_inline_at = None\<rparr>
      in if (case known of Some n \<Rightarrow> n \<in> set (os_long_values sp) | None \<Rightarrow> False)
         then (case inline of
                 Some v \<Rightarrow> (opt\<lparr>ot_inline_at := Some (2 + length name + 1), ot_value := Some v\<rparr>, i)
               | None \<Rightarrow> take_next opt args i)
         else (opt, i))"

fun scan_cluster :: "opt_spec \<Rightarrow> nat \<Rightarrow> str \<Rightarrow> nat \<Rightarrow> str list \<Rightarrow> nat \<Rightarrow> opt list \<times> nat" where
  "scan_cluster sp index [] k args i = ([], i)"
| "scan_cluster sp index (letter # rest) k args i =
     (let opt = \<lparr>ot_name = [letter], ot_value = None, ot_word = k, ot_value_word = k, ot_inline_at = None\<rparr> in
      if letter \<in> set (os_short_values sp) \<or> letter \<in> set (os_short_attached sp) then
        (if rest \<noteq> [] then ([opt\<lparr>ot_value := Some rest, ot_inline_at := Some (1 + index + 1)\<rparr>], i)
         else if letter \<in> set (os_short_values sp) then (case take_next opt args i of (opt, i) \<Rightarrow> ([opt], i))
         else ([opt], i))
      else (case scan_cluster sp (index + 1) rest k args i of (opts, i) \<Rightarrow> (opt # opts, i)))"

definition scan_word :: "opt_spec \<Rightarrow> str list \<Rightarrow> nat \<Rightarrow> opt list \<times> nat" where
  "scan_word sp args k =
     (let w = args ! k in
      case strip_prefix (lit ''--'') w of
        Some long \<Rightarrow> (case scan_long sp long k args (k + 1) of (opt, i) \<Rightarrow> ([opt], i))
      | None \<Rightarrow>
          if length w > 1 \<and> starts_with w (lit ''-'') then scan_cluster sp 0 (drop 1 w) k args (k + 1) else ([], k + 1))"

lemma take_next_le: "take_next opt args i = (opt', i') \<Longrightarrow> i \<le> i'"
  by (auto simp: take_next_def split: if_splits)

lemma scan_cluster_le: "scan_cluster sp n cluster k args i = (opts, i') \<Longrightarrow> i \<le> i'"
  by (induction sp n cluster k args i arbitrary: opts i' rule: scan_cluster.induct)
     (auto simp: Let_def dest: take_next_le split: if_splits prod.splits)

lemma scan_word_gt: "scan_word sp args k = (opts, i) \<Longrightarrow> k < i"
  by (auto simp: scan_word_def scan_long_def Let_def dest!: take_next_le scan_cluster_le
      split: option.splits if_splits prod.splits)

function scan_opts_from :: "opt_spec \<Rightarrow> str list \<Rightarrow> nat \<Rightarrow> opt list" where
  "scan_opts_from sp args k =
     (if k \<ge> length args \<or> args ! k = lit ''--'' then []
      else case scan_word sp args k of (opts, i) \<Rightarrow> opts @ scan_opts_from sp args i)"
  by pat_completeness auto
termination by (relation "measure (\<lambda>(_, args, k). length args - k)") (auto dest: scan_word_gt[OF sym])

declare scan_opts_from.simps [simp del]

definition scan_opts :: "opt_spec \<Rightarrow> str list \<Rightarrow> opt list" where
  "scan_opts sp args = scan_opts_from sp args 0"

definition opts_named :: "opt list \<Rightarrow> str list \<Rightarrow> opt list" where
  "opts_named opts names = filter (\<lambda>o'. ot_name o' \<in> set names) opts"

definition has_opt :: "opt list \<Rightarrow> str list \<Rightarrow> bool" where
  "has_opt opts names \<longleftrightarrow> list_ex (\<lambda>o'. ot_name o' \<in> set names) opts"

section \<open>Where the values sit\<close>

definition value_at :: "str list \<Rightarrow> opt \<Rightarrow> bool" where
  "value_at args opt \<longleftrightarrow> ot_word opt \<le> ot_value_word opt \<and> ot_value_word opt < length args \<and>
     (case ot_value opt of None \<Rightarrow> True
      | Some v \<Rightarrow> v = drop (case ot_inline_at opt of None \<Rightarrow> 0 | Some n \<Rightarrow> n) (args ! ot_value_word opt))"

lemma take_next_value: "take_next opt args i = (opt', i') \<Longrightarrow> ot_word opt < i \<Longrightarrow> ot_value opt = None \<Longrightarrow> ot_inline_at opt = None \<Longrightarrow>
    ot_value_word opt = ot_word opt \<Longrightarrow> ot_word opt < length args \<Longrightarrow> value_at args opt'"
  by (auto simp: take_next_def value_at_def split: if_splits)

lemma split_once_drop: "split_once d s = Some (a, b) \<Longrightarrow> drop (Suc (length a)) s = b"
  by (induction s arbitrary: a) (auto split: if_splits)

lemma scan_long_value:
  assumes "scan_long sp long k args i = (opt, i')" "k < i" "k < length args" "args ! k = lit ''--'' @ long"
  shows "value_at args opt"
proof -
  have "split_once 61 long = Some (a, b) \<Longrightarrow> drop (2 + length a + 1) (args ! k) = b" for a b
    using split_once_drop[of 61 long a b] by (simp add: assms(4) lit_def)
  with assms(1-3) show ?thesis
    by (fastforce simp: scan_long_def Let_def value_at_def dest: take_next_value split: option.splits if_splits)
qed

lemma scan_cluster_value:
  "scan_cluster sp n cluster k args i = (opts, i') \<Longrightarrow> k < i \<Longrightarrow> k < length args \<Longrightarrow> drop (n + 1) (args ! k) = cluster \<Longrightarrow>
    list_all (value_at args) opts"
proof (induction sp n cluster k args i arbitrary: opts i' rule: scan_cluster.induct)
  case (2 sp n letter rest k args i)
  have rest: "drop (n + 2) (args ! k) = rest" using 2(5) by (metis add_2_eq_Suc' drop_Suc drop_tl list.sel(3) plus_1_eq_Suc add.commute)
  show ?case
  proof (cases "letter \<in> set (os_short_values sp) \<or> letter \<in> set (os_short_attached sp)")
    case True
    with 2(2-4) rest show ?thesis
      by (auto simp: Let_def value_at_def split: if_splits prod.splits dest!: take_next_value)
  next
    case False
    obtain opts' j where r: "scan_cluster sp (n + 1) rest k args i = (opts', j)" by fastforce
    have "list_all (value_at args) opts'"
      using 2(1)[OF refl False r 2(3,4)] rest by simp
    moreover have "value_at args \<lparr>ot_name = [letter], ot_value = None, ot_word = k, ot_value_word = k, ot_inline_at = None\<rparr>"
      using 2(4) by (simp add: value_at_def)
    ultimately show ?thesis using 2(2) False r by (auto simp: Let_def)
  qed
qed simp

lemma scan_word_value: "scan_word sp args k = (opts, i) \<Longrightarrow> k < length args \<Longrightarrow> list_all (value_at args) opts"
proof -
  assume s: "scan_word sp args k = (opts, i)" and k: "k < length args"
  show ?thesis
  proof (cases "strip_prefix (lit ''--'') (args ! k)")
    case (Some long)
    then have "args ! k = lit ''--'' @ long" unfolding strip_prefix_def by (metis append_take_drop_id option.distinct(1) option.inject)
    with Some s k show ?thesis by (auto simp: scan_word_def Let_def dest!: scan_long_value split: prod.splits)
  next
    case None
    with s k show ?thesis by (auto simp: scan_word_def Let_def dest!: scan_cluster_value split: if_splits)
  qed
qed

lemma scan_opts_from_value: "list_all (value_at args) (scan_opts_from sp args k)"
proof (induction sp args k rule: scan_opts_from.induct)
  case (1 sp args k)
  then show ?case
    by (subst scan_opts_from.simps) (auto dest: scan_word_value split: prod.splits)
qed

text \<open>
  C15. Every value the scanner reports stands where it says: in a word of the command, not before the
  option's own word, and past the reported number of characters of it the rest of the word is the value.
\<close>

theorem values_are_located: "list_all (value_at args) (scan_opts sp args)"
  unfolding scan_opts_def by (rule scan_opts_from_value)

end
