(* ===== verification/Attribution.thy ===== *)
theory Attribution
  imports Paths
begin

text \<open>
  Finding and removing AI attribution in messages, \<^verbatim>\<open>crates/cli/src/common/attribution.rs\<close>. The
  Unicode lower case and letters the code asks of the standard library are the record \<open>letters\<close>.
\<close>

record letters =
  lt_lc :: "str \<Rightarrow> str"
  lt_alnum :: "rchar \<Rightarrow> bool"

datatype shape = SessionTrailer | ClaudeLink | SessionId | Footer | CreditTrailer | AiTrailer | RobotEmoji

record sanitized =
  sn_text :: str
  sn_removed :: "(nat \<times> shape) list"

section \<open>Words the reader knows\<close>

definition SCISSORS :: str where
  "SCISSORS = lit ''# ------------------------ >8 ------------------------''"

definition GIT_GENERATED_PREFIXES :: "str list" where
  "GIT_GENERATED_PREFIXES = map lit [''Signed-off-by: '', ''(cherry picked from commit '']"

definition AI_NAMES :: "str list" where
  "AI_NAMES = map lit [''claude'', ''anthropic'', ''openai'', ''chatgpt'', ''gpt-'', ''copilot'', ''gemini'', ''cursor'',
     ''codeium'', ''windsurf'', ''aider'', ''codex'']"

definition FOOTER_PHRASES :: "str list" where
  "FOOTER_PHRASES = map lit [''generated with'', ''generated by'', ''created with'', ''created by'', ''made with'',
     ''written by'', ''assisted by'', ''authored by'', ''built with'']"

definition SESSION_ID_MIN_LEN :: nat where
  "SESSION_ID_MIN_LEN = 16"

definition AI_EMAIL_DOMAINS :: "str list" where
  "AI_EMAIL_DOMAINS = map lit [''anthropic.com'', ''claude.ai'', ''openai.com'', ''cursor.com'', ''codeium.com'',
     ''windsurf.com'', ''devin.ai'', ''cognition.ai'', ''aider.chat'']"

definition VENDOR_LOCAL_PARTS :: "str list" where
  "VENDOR_LOCAL_PARTS = map lit [''noreply'', ''no-reply'', ''donotreply'', ''do-not-reply'', ''cursoragent'']"

definition PRODUCT_WORDS :: "str list" where
  "PRODUCT_WORDS = map lit [''claude'', ''anthropic'', ''openai'', ''chatgpt'', ''gpt'', ''copilot'', ''gemini'', ''cursor'',
     ''codeium'', ''windsurf'', ''aider'', ''codex'']"

definition NAME_QUALIFIERS :: "str list" where
  "NAME_QUALIFIERS = map lit [''code'', ''opus'', ''sonnet'', ''haiku'', ''ai'', ''agent'', ''cli'', ''bot'', ''assistant'',
     ''swe'', ''integration'', ''pro'', ''flash'', ''mini'', ''nano'', ''lite'', ''ultra'', ''max'', ''plus'', ''turbo'',
     ''thinking'', ''preview'', ''instant'', ''reasoning'']"

definition AI_IDENTITY_NAMES :: "str list" where
  "AI_IDENTITY_NAMES = map lit [''claude'', ''claude code'', ''chatgpt'', ''github copilot'', ''copilot'', ''gemini'',
     ''cursor agent'', ''codex'', ''aider'', ''windsurf'']"

section \<open>Text\<close>

definition ends_with :: "str \<Rightarrow> str \<Rightarrow> bool" where
  "ends_with s p \<longleftrightarrow> starts_with (rev s) (rev p)"

text \<open>\<^verbatim>\<open>match_indices\<close>: what stands before and behind each match, which do not overlap.\<close>

function match_contexts :: "str \<Rightarrow> rchar option \<Rightarrow> str \<Rightarrow> (rchar option \<times> str) list" where
  "match_contexts p prev [] = []"
| "match_contexts p prev (c # cs) =
     (if starts_with (c # cs) p
      then (prev, drop (length p) (c # cs)) # match_contexts p (Some (last p)) (drop (length p - 1) cs)
      else match_contexts p (Some c) cs)"
  by pat_completeness auto
termination by (relation "measure (\<lambda>(_, _, s). length s)") auto

text \<open>\<^verbatim>\<open>split\<close> at every character that satisfies a predicate.\<close>

fun split_where :: "(rchar \<Rightarrow> bool) \<Rightarrow> str \<Rightarrow> str list" where
  "split_where P [] = [[]]"
| "split_where P (c # cs) =
     (if P c then [] # split_where P cs
      else case split_where P cs of [] \<Rightarrow> [[c]] | p # ps \<Rightarrow> (c # p) # ps)"

text \<open>\<^verbatim>\<open>split_inclusive\<close> at line breaks, and a piece without its line break.\<close>

fun pieces :: "str \<Rightarrow> str list" where
  "pieces [] = []"
| "pieces (c # cs) =
     (if c = 10 then [10] # pieces cs
      else case pieces cs of [] \<Rightarrow> [[c]] | p # ps \<Rightarrow> (c # p) # ps)"

definition is_break :: "rchar \<Rightarrow> bool" where
  "is_break c \<longleftrightarrow> c = 10 \<or> c = 13"

definition trim_breaks :: "str \<Rightarrow> str" where
  "trim_breaks s = rev (dropWhile is_break (rev s))"

definition blank :: "str \<Rightarrow> bool" where
  "blank s \<longleftrightarrow> trim s = []"

section \<open>Names and addresses\<close>

definition names_devin :: "str \<Rightarrow> bool" where
  "names_devin lower \<longleftrightarrow> contains_str lower (lit ''devin.ai'') \<or> contains_str lower (lit ''@cognition.ai'') \<or>
     list_ex (\<lambda>w. contains_str w (lit ''devin'') \<and> contains_str w (lit ''[bot]''))
       (split_where (\<lambda>c. is_whitespace c \<or> c \<in> set (lit ''<>(),'')) lower)"

definition names_ai :: "letters \<Rightarrow> str \<Rightarrow> bool" where
  "names_ai lt lower \<longleftrightarrow> names_devin lower \<or>
     list_ex (\<lambda>name. list_ex (\<lambda>(prev, after).
         \<not> (case prev of None \<Rightarrow> False | Some c \<Rightarrow> lt_alnum lt c) \<and>
         (ends_with name (lit ''-'') \<or> \<not> (after \<noteq> [] \<and> lt_alnum lt (hd after))))
       (match_contexts name None lower)) AI_NAMES"

definition is_vendor_address :: "letters \<Rightarrow> str \<Rightarrow> bool" where
  "is_vendor_address lt address =
     (case rsplit_once 64 (lt_lc lt (trim address)) of
        None \<Rightarrow> False
      | Some (local, domain) \<Rightarrow>
          if domain = lit ''users.noreply.github.com'' then ends_with local (lit ''[bot]'')
          else local \<in> set VENDOR_LOCAL_PARTS \<and>
            list_ex (\<lambda>d. domain = d \<or> ends_with domain (lit ''.'' @ d)) AI_EMAIL_DOMAINS)"

text \<open>A name without what stands in parentheses.\<close>

fun outside_parens :: "int \<Rightarrow> str \<Rightarrow> str" where
  "outside_parens depth [] = []"
| "outside_parens depth (c # cs) =
     (if c = 40 then 32 # outside_parens (depth + 1) cs
      else if c = 41 then 32 # outside_parens (depth - 1) cs
      else (if depth > 0 then 32 else c) # outside_parens depth cs)"

definition known_word :: "str \<Rightarrow> bool" where
  "known_word w \<longleftrightarrow> w \<in> set PRODUCT_WORDS \<or> w \<in> set NAME_QUALIFIERS \<or> list_ex is_ascii_digit w"

definition is_product_name :: "letters \<Rightarrow> str \<Rightarrow> bool" where
  "is_product_name lt name =
     (let all = filter (\<lambda>w. w \<noteq> []) (split_where (\<lambda>c. \<not> lt_alnum lt c) (outside_parens 0 (lt_lc lt name)));
          ws = (if length all > 1 \<and> hd all \<in> {lit ''github'', lit ''google''} then tl all else all)
      in case ws of
           [] \<Rightarrow> False
         | w # rest \<Rightarrow>
             if w = lit ''devin'' then rest \<noteq> [] \<and> hd rest = lit ''ai'' \<and> list_all known_word rest
             else w \<in> set PRODUCT_WORDS \<and> list_all known_word rest)"

definition name_and_address :: "str \<Rightarrow> str \<times> str" where
  "name_and_address v =
     (let val = trim v;
          bare = (if 64 \<in> set val \<and> \<not> list_ex is_whitespace val then ([], val) else (val, []))
      in case rsplit_once 60 val of
           Some (name, rest) \<Rightarrow> if rest \<noteq> [] \<and> last rest = 62 then (name, butlast rest) else bare
         | None \<Rightarrow> bare)"

definition credits_ai :: "letters \<Rightarrow> str \<Rightarrow> str \<Rightarrow> bool" where
  "credits_ai lt token val =
     (case name_and_address val of (name, address) \<Rightarrow>
        if eq_ignore_ascii_case token (lit ''signed-off-by'') then is_vendor_address lt address
        else is_product_name lt name \<or> is_vendor_address lt address)"

definition is_credit_token :: "letters \<Rightarrow> str \<Rightarrow> bool" where
  "is_credit_token lt token \<longleftrightarrow> ends_with (lt_lc lt token) (lit ''-by'') \<or> ends_with (lt_lc lt token) (lit ''-with'')"

definition is_ai_identity :: "letters \<Rightarrow> str \<Rightarrow> str \<Rightarrow> bool" where
  "is_ai_identity lt name email =
     (let name = lt_lc lt (trim name); email = lt_lc lt (trim email) in
      list_ex (\<lambda>d. ends_with email (lit ''@'' @ d) \<or> ends_with email (lit ''.'' @ d)) AI_EMAIL_DOMAINS \<or>
      (contains_str email (lit ''[bot]'') \<and> names_ai lt email) \<or> name \<in> set AI_IDENTITY_NAMES \<or> names_devin name)"

section \<open>Trailers\<close>

text \<open>The place of the separator: the flags say whether a blank came and whether this is the first character.\<close>

fun separator_from :: "nat \<Rightarrow> bool \<Rightarrow> str \<Rightarrow> nat option" where
  "separator_from k blank_seen [] = None"
| "separator_from k blank_seen (c # cs) =
     (if c = 58 then (if k > 0 then Some k else None)
      else if \<not> blank_seen \<and> (is_ascii_alnum c \<or> c = 45) then separator_from (k + 1) blank_seen cs
      else if k > 0 \<and> (c = 32 \<or> c = 9) then separator_from (k + 1) True cs
      else None)"

definition find_separator :: "str \<Rightarrow> nat option" where
  "find_separator line = separator_from 0 False line"

definition trailer :: "str \<Rightarrow> (str \<times> str) option" where
  "trailer line = (let l = trim_start line in
     map_option (\<lambda>k. (trim_end (take k l), trim (drop (k + 1) l))) (find_separator l))"

definition starts_blank :: "str \<Rightarrow> bool" where
  "starts_blank line \<longleftrightarrow> line \<noteq> [] \<and> is_whitespace (hd line)"

definition strict_trailer :: "str \<Rightarrow> (str \<times> str) option" where
  "strict_trailer line = (if starts_blank line then None else trailer line)"

section \<open>The shape of a line\<close>

definition is_claude_link :: "str \<Rightarrow> bool" where
  "is_claude_link lower \<longleftrightarrow> contains_str lower (lit ''claude.ai/'') \<or> contains_str lower (lit ''://claude.ai'') \<or>
     contains_str lower (lit ''@claude.ai'')"

definition has_session_id :: "str \<Rightarrow> bool" where
  "has_session_id lower \<longleftrightarrow> list_ex (\<lambda>(_, after). let i = takeWhile is_ascii_alnum after in
     length i \<ge> SESSION_ID_MIN_LEN \<and> list_ex is_ascii_digit i) (match_contexts (lit ''session_'') None lower)"

definition is_footer :: "letters \<Rightarrow> str \<Rightarrow> bool" where
  "is_footer lt lower = (let body = dropWhile (\<lambda>c. \<not> lt_alnum lt c) lower in list_ex (starts_with body) FOOTER_PHRASES)"

definition classify_line :: "letters \<Rightarrow> str \<Rightarrow> bool \<Rightarrow> shape option" where
  "classify_line lt line in_trailer_block =
     (let trimmed = trim line; lower = lt_lc lt trimmed; loose = trailer trimmed in
      if (case loose of None \<Rightarrow> False | Some (token, _) \<Rightarrow> eq_ignore_ascii_case token (lit ''claude-session''))
      then Some SessionTrailer
      else if is_claude_link lower then Some ClaudeLink
      else if has_session_id lower then Some SessionId
      else if is_footer lt lower \<and> names_ai lt lower then Some Footer
      else if (case loose of None \<Rightarrow> False | Some (token, val) \<Rightarrow> is_credit_token lt token \<and> credits_ai lt token val)
      then Some CreditTrailer
      else if in_trailer_block \<and> (case strict_trailer line of None \<Rightarrow> False
        | Some (token, val) \<Rightarrow> names_ai lt (lt_lc lt token) \<or> credits_ai lt token val)
      then Some AiTrailer
      else if 129302 \<in> set line then Some RobotEmoji
      else None)"

definition trailer_shape :: "letters \<Rightarrow> str \<Rightarrow> shape option" where
  "trailer_shape lt line = classify_line lt line True"

section \<open>The final trailer block\<close>

text \<open>
  The lines from the last one up to the end of the title, with how many trailers, prose lines and
  continuations were seen, whether git wrote one, and whether only blank lines were seen. The result
  is the index of the first line of the block; what is left of the list says where the reader is.
\<close>

fun block_from :: "nat \<Rightarrow> nat \<Rightarrow> nat \<Rightarrow> nat \<Rightarrow> bool \<Rightarrow> bool \<Rightarrow> str list \<Rightarrow> nat option" where
  "block_from base trailers prose conts recognised only_blank [] = None"
| "block_from base trailers prose conts recognised only_blank (line # rest) =
     (if starts_with line (lit ''#'') then block_from base trailers (prose + conts) 0 recognised only_blank rest
      else if blank line then
        (if only_blank then block_from base trailers prose conts recognised only_blank rest
         else let prose = prose + conts in
           if (recognised \<and> trailers * 3 \<ge> prose) \<or> (trailers > 0 \<and> prose = 0) then Some (base + length rest + 1) else None)
      else if list_ex (starts_with line) GIT_GENERATED_PREFIXES then block_from base (trailers + 1) prose 0 True False rest
      else if starts_blank line then block_from base trailers prose (conts + 1) recognised False rest
      else if find_separator line \<noteq> None then block_from base (trailers + 1) prose 0 recognised False rest
      else block_from base trailers (prose + 1 + conts) 0 recognised False rest)"

definition first_blank :: "str list \<Rightarrow> nat option" where
  "first_blank lines = (let n = length (takeWhile (\<lambda>l. \<not> (\<not> starts_with l (lit ''#'') \<and> blank l)) lines) in
     if n < length lines then Some n else None)"

text \<open>The block is given by its first line; it ends with the text.\<close>

definition trailer_block :: "str list \<Rightarrow> nat option" where
  "trailer_block lines = Option.bind (first_blank lines) (\<lambda>title_end.
     block_from title_end 0 0 0 False True (rev (drop title_end lines)))"

section \<open>Removing lines\<close>

text \<open>How many lines fold into the trailer that starts the list.\<close>

definition continuations :: "str \<Rightarrow> str list \<Rightarrow> bool \<Rightarrow> nat" where
  "continuations line rest in_block =
     (if \<not> in_block \<or> strict_trailer line = None then 0
      else length (takeWhile (\<lambda>l. starts_blank l \<and> \<not> blank l) rest))"

fun removed_from :: "letters \<Rightarrow> nat option \<Rightarrow> nat \<Rightarrow> nat \<Rightarrow> str list \<Rightarrow> (nat \<times> shape) list" where
  "removed_from lt block i covered_until [] = []"
| "removed_from lt block i covered_until (line # rest) =
     (if i < covered_until then removed_from lt block (i + 1) covered_until rest
      else
        let in_block = (case block of None \<Rightarrow> False | Some b \<Rightarrow> b \<le> i); n = continuations line rest in_block in
        if n = 0 then
          (case classify_line lt line in_block of
             None \<Rightarrow> removed_from lt block (i + 1) covered_until rest
           | Some sh \<Rightarrow> (i + 1, sh) # removed_from lt block (i + 1) covered_until rest)
        else (case classify_line lt (join_with 32 (map trim (line # take n rest))) in_block of
             None \<Rightarrow> removed_from lt block (i + 1) covered_until rest
           | Some sh \<Rightarrow> map (\<lambda>k. (k + 1, sh)) [i..<i + 1 + n] @ removed_from lt block (i + 1) (i + 1 + n) rest))"

definition removed_lines :: "letters \<Rightarrow> str list \<Rightarrow> nat option \<Rightarrow> (nat \<times> shape) list" where
  "removed_lines lt lines block = removed_from lt block 0 0 lines"

definition tidy :: "str list \<Rightarrow> bool \<Rightarrow> str" where
  "tidy kept ends_with_newline =
     (let kept = rev (dropWhile blank (rev kept)); text0 = concat (dropWhile blank kept);
          text1 = (if text0 \<noteq> [] \<and> ends_with_newline \<and> last text0 \<noteq> 10 then text0 @ [10] else text0)
      in if ends_with_newline then text1 else trim_breaks text1)"

text \<open>One line of the text, with the lines kept before it and whether some were dropped since the last of them.\<close>

definition drop_step :: "nat set \<Rightarrow> str list \<times> bool \<Rightarrow> nat \<times> str \<Rightarrow> str list \<times> bool" where
  "drop_step gone acc iline = (case acc of (kept, dropped_since) \<Rightarrow> case iline of (i, line) \<Rightarrow>
     if i + 1 \<in> gone then (kept, True)
     else if blank line \<and> dropped_since \<and> (kept = [] \<or> blank (last kept)) then (kept, dropped_since)
     else (kept @ [line], dropped_since \<and> blank line))"

definition drop_lines :: "str \<Rightarrow> (nat \<times> shape) list \<Rightarrow> str" where
  "drop_lines t removed = (if removed = [] then t
     else tidy (fst (foldl (drop_step (set (map fst removed))) ([], False) (enumerate 0 (pieces t)))) (t \<noteq> [] \<and> last t = 10))"

definition scan :: "letters \<Rightarrow> str \<Rightarrow> bool \<Rightarrow> sanitized" where
  "scan lt t trailer_rule =
     (let lines = map trim_breaks (pieces t); block = (if trailer_rule then trailer_block lines else None);
          removed = removed_lines lt lines block
      in \<lparr>sn_text = drop_lines t removed, sn_removed = removed\<rparr>)"

definition sanitize :: "letters \<Rightarrow> str \<Rightarrow> sanitized" where
  "sanitize lt message = scan lt message True"

definition sanitize_prose :: "letters \<Rightarrow> str \<Rightarrow> sanitized" where
  "sanitize_prose lt t = scan lt t False"

definition problems :: "letters \<Rightarrow> str \<Rightarrow> (nat \<times> shape) list" where
  "problems lt message = sn_removed (sanitize lt message)"

definition prose_problems :: "letters \<Rightarrow> str \<Rightarrow> (nat \<times> shape) list" where
  "prose_problems lt t = sn_removed (sanitize_prose lt t)"

section \<open>Editor files\<close>

text \<open>\<^verbatim>\<open>str::lines\<close>: a piece without its line break, and without a carriage return right before it.\<close>

definition line_of :: "str \<Rightarrow> str" where
  "line_of p = (if p \<noteq> [] \<and> last p = 10
     then (let q = butlast p in if q \<noteq> [] \<and> last q = 13 then butlast q else q) else p)"

definition text_lines :: "str \<Rightarrow> str list" where
  "text_lines t = map line_of (pieces t)"

definition has_sign_off :: "str \<Rightarrow> bool" where
  "has_sign_off message \<longleftrightarrow> list_ex (\<lambda>l. starts_with l (lit ''Signed-off-by:'')) (text_lines message)"

record template_scan =
  ts_offset :: nat
  ts_scissors :: "nat option"
  ts_run :: "nat option"
  ts_blank :: "nat option"

definition template_step :: "template_scan \<Rightarrow> str \<Rightarrow> template_scan" where
  "template_step s line =
     (let content = trim_breaks line; offset = ts_offset s;
          s1 = (if ts_scissors s = None \<and> content = SCISSORS then s\<lparr>ts_scissors := Some offset\<rparr> else s);
          s2 = (if blank content then s1\<lparr>ts_blank := (case ts_blank s1 of None \<Rightarrow> Some offset | b \<Rightarrow> b)\<rparr>
                else if starts_with content (lit ''#'')
                then s1\<lparr>ts_run := (case ts_run s1 of
                         None \<Rightarrow> Some (case ts_blank s1 of None \<Rightarrow> offset | Some b \<Rightarrow> b) | r \<Rightarrow> r), ts_blank := None\<rparr>
                else s1\<lparr>ts_run := None, ts_blank := None\<rparr>)
      in s2\<lparr>ts_offset := offset + length line\<rparr>)"

definition template_scanned :: "str list \<Rightarrow> template_scan" where
  "template_scanned ps = foldl template_step \<lparr>ts_offset = 0, ts_scissors = None, ts_run = None, ts_blank = None\<rparr> ps"

definition split_template :: "letters \<Rightarrow> str \<Rightarrow> str \<times> str" where
  "split_template lt raw =
     (let s = template_scanned (pieces raw) in
      case ts_scissors s of
        Some k \<Rightarrow> (take k raw, drop k raw)
      | None \<Rightarrow> (case ts_run s of
          Some k \<Rightarrow> if \<not> list_ex (\<lambda>l. classify_line lt l False \<noteq> None) (text_lines (drop k raw))
            then (take k raw, drop k raw) else (raw, [])
        | None \<Rightarrow> (raw, [])))"

definition sanitize_editor :: "letters \<Rightarrow> str \<Rightarrow> sanitized" where
  "sanitize_editor lt raw =
     (case split_template lt raw of (message, template) \<Rightarrow>
        let s = sanitize lt message in s\<lparr>sn_text := sn_text s @ template\<rparr>)"

section \<open>The sanitize command\<close>

text \<open>\<^verbatim>\<open>crates/cli/src/sanitize.rs\<close>: the file's new text, when it is rewritten, and what is reported.\<close>

datatype text_kind = CommitMsg | PrText

datatype report_line = Report_Line bool nat shape | Missing_Sign_Off

definition lacks_sign_off :: "str \<Rightarrow> bool" where
  "lacks_sign_off message \<longleftrightarrow> list_ex (\<lambda>l. \<not> starts_with l (lit ''#'') \<and> \<not> blank l) (text_lines message) \<and> \<not> has_sign_off message"

definition sanitize_report :: "sanitized \<Rightarrow> bool \<Rightarrow> report_line list" where
  "sanitize_report s check_only = map (\<lambda>(n, sh). Report_Line check_only n sh) (sn_removed s)"

definition run_sanitize :: "letters \<Rightarrow> text_kind \<Rightarrow> bool \<Rightarrow> str \<Rightarrow> str option \<times> report_line list" where
  "run_sanitize lt kind check_only raw =
     (let s = (case kind of CommitMsg \<Rightarrow> sanitize_editor lt raw | PrText \<Rightarrow> sanitize_prose lt raw) in
      (if \<not> check_only \<and> sn_removed s \<noteq> [] then Some (sn_text s) else None,
       sanitize_report s check_only @ (if check_only \<and> kind = CommitMsg \<and> lacks_sign_off (sn_text s) then [Missing_Sign_Off] else [])))"

end
