(* ===== verification/Sanitizer_Sources.thy ===== *)
theory Sanitizer_Sources
  imports Cli_Opts Attribution Shell_Spelling
begin

text \<open>
  Where a command keeps a message, \<^verbatim>\<open>crates/cli/src/hooks/commit_message_sanitizer/sources.rs\<close>, with the
  call and the findings of \<^verbatim>\<open>engine.rs\<close>. What the hook asks of the machine is the record \<open>machine\<close>:
  the standard library's letters, files, the environment, git, the lint and the settings.
\<close>

datatype file_at = No_File | Link | Other_File | Plain_File nat "str option option"

record machine =
  mc_letters :: letters
  mc_home :: str
  mc_env :: "str \<Rightarrow> str option"
  mc_file :: "str \<Rightarrow> file_at"
  mc_exists :: "str \<Rightarrow> bool"
  mc_script :: "str \<Rightarrow> str option"
  mc_git :: "str \<Rightarrow> str list \<Rightarrow> str option"
  mc_lint :: "str \<Rightarrow> (bool \<times> str) list"
  mc_lint_mode :: str
  mc_sign_off :: bool

abbreviation mc_lc :: "machine \<Rightarrow> str \<Rightarrow> str" where
  "mc_lc m \<equiv> lt_lc (mc_letters m)"

section \<open>The call and what was found\<close>

datatype inline_at = Anywhere | In_Heredoc heredoc | Nowhere

record program_call =
  cl_chars :: str
  cl_cmds :: "command list"
  cl_index :: nat
  cl_at :: nat
  cl_dir :: str
  cl_depth :: nat
  cl_inline :: inline_at

definition cmd_of :: "program_call \<Rightarrow> command" where
  "cmd_of c = cl_cmds c ! cl_index c"

definition span_at :: "program_call \<Rightarrow> nat \<Rightarrow> span" where
  "span_at c w = cm_spans (cmd_of c) ! w"

definition raw_at :: "program_call \<Rightarrow> nat \<times> nat \<Rightarrow> str" where
  "raw_at c r = take (snd r - fst r) (drop (fst r) (cl_chars c))"

definition STDIN_CARRIERS :: "str list" where
  "STDIN_CARRIERS = map lit [''xargs'', ''parallel'', ''find'', ''watch'']"

definition under_stdin_carrier :: "machine \<Rightarrow> program_call \<Rightarrow> bool" where
  "under_stdin_carrier m c =
     (let ws = cm_words (cmd_of c);
          start = min (case program_index (mc_lc m) ws of Some i \<Rightarrow> i | None \<Rightarrow> cl_at c) (cl_at c)
      in list_ex (\<lambda>w. program_name (mc_lc m) w \<in> set STDIN_CARRIERS) (drop start (take (cl_at c) ws)))"

datatype finding_note = Removed_Line str nat shape | Dropped_Variable str | Dropped_Setting str | Dropped_Option str

record findings =
  fn_notes :: "finding_note list"
  fn_unread :: "str list"
  fn_signed_off :: bool
  fn_lint :: "(str \<times> str) list"
  fn_lint_hard :: bool

definition unread :: "str \<Rightarrow> findings \<Rightarrow> findings" where
  "unread t f = f\<lparr>fn_unread := fn_unread f @ [t]\<rparr>"

definition add_note :: "finding_note \<Rightarrow> findings \<Rightarrow> findings" where
  "add_note n f = f\<lparr>fn_notes := fn_notes f @ [n]\<rparr>"

type_synonym text_edit = "(nat \<times> nat) \<times> str"

section \<open>Sources\<close>

definition MAX_MESSAGE_BYTES :: nat where
  "MAX_MESSAGE_BYTES = 1048576"

definition STDIN_PATHS :: "str list" where
  "STDIN_PATHS = map lit [''-'', ''/dev/stdin'', ''/dev/fd/0'', ''/proc/self/fd/0'']"

record slot =
  sl_at :: "nat \<times> nat"
  sl_lead :: str
  sl_avoid :: "str option"

datatype target =
    Word "nat \<times> nat" "((nat \<times> nat) \<times> str) option"
  | Body "nat \<times> nat"
  | Feed "nat \<times> nat" str "str + slot"
  | Escaped "nat \<times> nat" bool

record text_source =
  sr_label :: str
  sr_text :: str
  sr_target :: target

datatype message_rule = Commit_Rule | Prose_Rule | Lint_Rule

definition is_stdin_path :: "str \<Rightarrow> bool" where
  "is_stdin_path path \<longleftrightarrow> path \<in> set STDIN_PATHS"

definition resolve_path :: "machine \<Rightarrow> str \<Rightarrow> str \<Rightarrow> str" where
  "resolve_path m path base = path_join base
     (case strip_prefix (lit ''~/'') path of Some rest \<Rightarrow> path_join (mc_home m) rest | None \<Rightarrow> path)"

text \<open>\<^verbatim>\<open>PathBuf\<close> compares part by part.\<close>

definition same_path :: "str \<Rightarrow> str \<Rightarrow> bool" where
  "same_path a b \<longleftrightarrow> path_parts a = path_parts b"

definition is_var_char :: "rchar \<Rightarrow> bool" where
  "is_var_char c \<longleftrightarrow> is_ascii_alnum c \<or> c = 95"

definition var_name :: "str \<Rightarrow> (str \<times> str) option" where
  "var_name after = (case strip_prefix (lit ''{'') after of
     Some braced \<Rightarrow> split_once 125 braced
   | None \<Rightarrow> Some (takeWhile is_var_char after, dropWhile is_var_char after))"

lemma split_once_shorter: "split_once d s = Some (a, b) \<Longrightarrow> length b < length s"
  by (induction s arbitrary: a) (auto split: if_splits intro: less_SucI)

lemma var_name_shorter: "var_name after = Some (name, tail) \<Longrightarrow> length tail \<le> length after"
proof -
  assume v: "var_name after = Some (name, tail)"
  show ?thesis
  proof (cases "strip_prefix (lit ''{'') after")
    case (Some braced)
    then have "length braced \<le> length after" by (auto simp: strip_prefix_def split: if_splits)
    with v Some split_once_shorter show ?thesis by (fastforce simp: var_name_def)
  qed (use v length_dropWhile_le in \<open>auto simp: var_name_def\<close>)
qed

function expand_vars :: "machine \<Rightarrow> str \<Rightarrow> str option" where
  "expand_vars m t =
     (case split_once 36 t of
        None \<Rightarrow> Some t
      | Some (head, after) \<Rightarrow>
          (case var_name after of
             None \<Rightarrow> None
           | Some (name, tail) \<Rightarrow>
               if name = [] then None
               else (case mc_env m name of
                   None \<Rightarrow> None
                 | Some v \<Rightarrow> map_option (\<lambda>r. head @ v @ r) (expand_vars m tail))))"
  by pat_completeness auto
termination
  by (relation "measure (\<lambda>(_, t). length t)") (auto dest!: split_once_shorter var_name_shorter)

declare expand_vars.simps [simp del]

text \<open>Where the value of the word sits, when the characters in front of it are written plainly.\<close>

definition value_span :: "program_call \<Rightarrow> nat \<Rightarrow> nat option \<Rightarrow> (nat \<times> nat) option" where
  "value_span c k inline_at =
     (let sp = span_at c k; skip = (case inline_at of None \<Rightarrow> 0 | Some n \<Rightarrow> n); start = sp_start sp + skip in
      if raw_at c (sp_start sp, start) = take skip (cm_words (cmd_of c) ! k) then Some (start, sp_end sp) else None)"

definition last_index :: "('a \<Rightarrow> bool) \<Rightarrow> 'a list \<Rightarrow> nat option" where
  "last_index P xs = map_option (\<lambda>i. length xs - 1 - i) (first_index P (rev xs))"

fun dollar_paren :: "str \<Rightarrow> nat option" where
  "dollar_paren (a # b # cs) = (if a = 36 \<and> b = 40 then Some 0 else map_option Suc (dollar_paren (b # cs)))"
| "dollar_paren _ = None"

text \<open>\<^verbatim>\<open>substitution\<close> of \<^verbatim>\<open>sources.rs\<close>: the script inside the first and the last bracket or backtick of a word.\<close>

definition inner_script :: "str \<Rightarrow> (str \<times> nat) option" where
  "inner_script raw =
     (let bounds = (case dollar_paren raw of
            Some k \<Rightarrow> map_option (\<lambda>e. (k + 2, e)) (last_index (\<lambda>c. c = 41) raw)
          | None \<Rightarrow> Option.bind (first_index (\<lambda>c. c = 96) raw) (\<lambda>k. map_option (\<lambda>e. (k + 1, e)) (last_index (\<lambda>c. c = 96) raw)))
      in case bounds of
           None \<Rightarrow> None
         | Some (start, stop) \<Rightarrow> if start \<le> stop then Some (take (stop - start) (drop start raw), start) else None)"

section \<open>Files and heredocs\<close>

definition read_message :: "machine \<Rightarrow> str \<Rightarrow> str + str" where
  "read_message m path = (case mc_file m path of
     No_File \<Rightarrow> Inl (lit ''it cannot be read'')
   | Link \<Rightarrow> Inl (lit ''it is a symbolic link'')
   | Other_File \<Rightarrow> Inl (lit ''it is not a regular file under 1 MiB'')
   | Plain_File n content \<Rightarrow>
       if n > MAX_MESSAGE_BYTES then Inl (lit ''it is not a regular file under 1 MiB'')
       else (case content of
           None \<Rightarrow> Inl (lit ''it cannot be read'')
         | Some None \<Rightarrow> Inl (lit ''it is not valid UTF-8'')
         | Some (Some t) \<Rightarrow> Inr t))"

definition touched_before :: "machine \<Rightarrow> program_call \<Rightarrow> str \<Rightarrow> nat \<Rightarrow> bool" where
  "touched_before m c path n \<longleftrightarrow> list_ex (\<lambda>cmd. list_ex (\<lambda>w.
       let w = dropWhile (\<lambda>ch. ch = 60 \<or> ch = 62) w in w \<noteq> [] \<and> same_path (resolve_path m w (cl_dir c)) path)
     (cm_words cmd)) (take n (cl_cmds c))"

definition changed_inside :: "heredoc \<Rightarrow> str \<Rightarrow> bool" where
  "changed_inside host t \<longleftrightarrow> list_ex (\<lambda>l. rev (dropWhile (\<lambda>c. c = 13) (rev l)) = hd_delimiter host \<or>
     (hd_strip_tabs host \<and> starts_with l [9])) (text_lines t)"

definition host_delimiter :: "inline_at \<Rightarrow> str \<Rightarrow> str + str option" where
  "host_delimiter i t = (case i of
     Anywhere \<Rightarrow> Inr None
   | Nowhere \<Rightarrow> Inl (lit ''it would sit in a heredoc inside an outer heredoc'')
   | In_Heredoc host \<Rightarrow>
       if \<not> hd_quoted host \<or> changed_inside host t
       then Inl (lit ''it would sit in an outer heredoc that expands it or could end early'')
       else Inr (Some (hd_delimiter host)))"

definition redirects_stdin :: "program_call \<Rightarrow> bool" where
  "redirects_stdin c \<longleftrightarrow>
     list_ex (\<lambda>s. starts_with (dropWhile is_ascii_digit (raw_at c (sp_start s, sp_end s))) (lit ''<'')) (cm_spans (cmd_of c))"

definition line_slot :: "program_call \<Rightarrow> ((nat \<times> nat) \<times> str) option" where
  "line_slot c =
     (let line_end = cm_line_end (cmd_of c) in
      if list_ex (\<lambda>d. cm_line_end d = line_end \<and> cm_heredocs d \<noteq> []) (cl_cmds c) then None
      else Some (case line_end of
          Some k \<Rightarrow> ((k + 1, k + 1), [])
        | None \<Rightarrow> ((length (cl_chars c), length (cl_chars c)), [10])))"

definition slot_after_line :: "machine \<Rightarrow> program_call \<Rightarrow> str \<Rightarrow> bool \<Rightarrow> str + slot" where
  "slot_after_line m c t takes_stdin =
     (if takes_stdin \<and> (cm_heredocs (cmd_of c) \<noteq> [] \<or> redirects_stdin c \<or> under_stdin_carrier m c)
      then Inl (lit ''standard input is already in use or taken by a carrier such as xargs'')
      else sbind (host_delimiter (cl_inline c) t) (\<lambda>avoid.
        case line_slot c of
          None \<Rightarrow> Inl (lit ''another heredoc is open on its line'')
        | Some (k, lead) \<Rightarrow> Inr \<lparr>sl_at = k, sl_lead = lead, sl_avoid = avoid\<rparr>))"

definition feed :: "machine \<Rightarrow> program_call \<Rightarrow> str \<Rightarrow> str \<Rightarrow> nat \<times> nat \<Rightarrow> str \<Rightarrow> text_source" where
  "feed m c label t replace opener =
     \<lparr>sr_label = label, sr_text = t, sr_target = Feed replace opener (slot_after_line m c t (opener \<noteq> []))\<rparr>"

section \<open>What a script prints\<close>

record place =
  pl_call :: program_call
  pl_base :: nat
  pl_inside :: bool
  pl_before :: nat

definition shift_range :: "nat \<times> nat \<Rightarrow> nat \<Rightarrow> nat \<times> nat" where
  "shift_range r base = (fst r + base, snd r + base)"

definition join_words :: "str list \<Rightarrow> str" where
  "join_words ws = join_with 32 ws"

fun cat_text :: "machine \<Rightarrow> place \<Rightarrow> str list \<Rightarrow> str option" where
  "cat_text m pl [] = Some []"
| "cat_text m pl (arg # args) =
     (let path = resolve_path m arg (cl_dir (pl_call pl)) in
      case read_message m path of
        Inl _ \<Rightarrow> None
      | Inr t \<Rightarrow> if touched_before m (pl_call pl) path (pl_before pl) then None
                 else map_option (\<lambda>r. t @ r) (cat_text m pl args))"

definition cat_slot :: "machine \<Rightarrow> place \<Rightarrow> str \<Rightarrow> span \<Rightarrow> bool \<Rightarrow> str + slot" where
  "cat_slot m pl t last_span tail_blank =
     (if pl_inside pl then sbind (host_delimiter (cl_inline (pl_call pl)) t) (\<lambda>avoid.
        if tail_blank then Inr \<lparr>sl_at = shift_range (sp_end last_span, sp_end last_span) (pl_base pl), sl_lead = [10], sl_avoid = avoid\<rparr>
        else Inl (lit ''its command is not the last in its substitution''))
      else slot_after_line m (pl_call pl) t False)"

definition cat_files :: "machine \<Rightarrow> str list \<Rightarrow> span list \<Rightarrow> place \<Rightarrow> bool \<Rightarrow> str \<Rightarrow> text_source list" where
  "cat_files m args spans pl tail_blank label =
     (if spans = [] then []
      else if list_ex (\<lambda>(a, s). starts_with a (lit ''-'') \<or> sp_dynamic s) (zip args spans) then []
      else case cat_text m pl args of
          None \<Rightarrow> []
        | Some t \<Rightarrow> [\<lparr>sr_label = label @ lit '' in '' @ join_words args, sr_text = t,
            sr_target = Feed (shift_range (sp_start (hd spans), sp_end (last spans)) (pl_base pl)) []
              (cat_slot m pl t (last spans) tail_blank)\<rparr>])"

definition echo_flag :: "str \<Rightarrow> bool" where
  "echo_flag a \<longleftrightarrow> length a > 1 \<and> starts_with a (lit ''-'') \<and> list_all (\<lambda>c. c \<in> set (lit ''neE'')) (drop 1 a)"

definition echo :: "str list \<Rightarrow> span list \<Rightarrow> nat \<Rightarrow> str \<Rightarrow> text_source list" where
  "echo args spans base label =
     (let flags = takeWhile echo_flag args; rest = drop (length flags) args; sp = spans ! length flags;
          reads_escapes = list_ex (\<lambda>f. 101 \<in> set f) flags; literal = list_ex (\<lambda>f. 69 \<in> set f) flags in
      if length rest \<noteq> 1 \<or> sp_dynamic sp then []
      else if 92 \<in> set (hd rest) \<and> \<not> reads_escapes \<and> \<not> literal then []
      else
        let rg = shift_range (sp_start sp, sp_end sp) base in
        [\<lparr>sr_label = label, sr_text = (if reads_escapes then unescape (hd rest) else hd rest),
          sr_target = (if reads_escapes then Escaped rg False else Word rg None)\<rparr>])"

definition heredoc_sources :: "str \<Rightarrow> nat \<Rightarrow> heredoc list \<Rightarrow> text_source list" where
  "heredoc_sources label base hs =
     map (\<lambda>h. \<lparr>sr_label = label, sr_text = hd_text h, sr_target = Body (shift_range (hd_body h) base)\<rparr>) hs"

text \<open>\<^verbatim>\<open>str::replace\<close> of \<^verbatim>\<open>%%\<close> by \<^verbatim>\<open>%\<close>.\<close>

fun single_percents :: "str \<Rightarrow> str" where
  "single_percents (a # b # cs) =
     (if a = 37 \<and> b = 37 then 37 # single_percents cs else a # single_percents (b # cs))"
| "single_percents cs = cs"

definition producer :: "machine \<Rightarrow> command \<Rightarrow> place \<Rightarrow> bool \<Rightarrow> str \<Rightarrow> text_source list" where
  "producer m cmd pl tail_blank label =
     (case program_index (mc_lc m) (cm_words cmd) of
        None \<Rightarrow> []
      | Some k \<Rightarrow>
          let args = drop (k + 1) (cm_words cmd); spans = drop (k + 1) (cm_spans cmd); base = pl_base pl;
              program = program_name (mc_lc m) (cm_words cmd ! k) in
          if program = lit ''cat'' then
            (if cm_heredocs cmd = [] then cat_files m args spans pl tail_blank label
             else heredoc_sources label base (cm_heredocs cmd))
          else if program = lit ''printf'' \<and> length args = 1 \<and> \<not> sp_dynamic (hd spans) then
            (let format = single_percents (unescape (hd args)) in
             if 37 \<in> set format then []
             else [\<lparr>sr_label = label, sr_text = format,
                 sr_target = Escaped (shift_range (sp_start (hd spans), sp_end (hd spans)) base) True\<rparr>])
          else if program = lit ''echo'' then echo args spans base label
          else [])"

definition producers_in :: "machine \<Rightarrow> str \<Rightarrow> place \<Rightarrow> str \<Rightarrow> text_source list" where
  "producers_in m script pl label = concat (map (\<lambda>cmd.
     let stop = (if cm_spans cmd = [] then 0 else sp_end (last (cm_spans cmd)))
     in producer m cmd pl (list_all is_whitespace (drop stop script)) label) (commands script))"

section \<open>Reading a message\<close>

definition from_word :: "machine \<Rightarrow> program_call \<Rightarrow> nat \<Rightarrow> nat option \<Rightarrow> str \<Rightarrow> findings \<Rightarrow> text_source list \<times> findings" where
  "from_word m c k inline_at label f =
     (let w = cm_words (cmd_of c) ! k; sp = span_at c k; t = drop (case inline_at of None \<Rightarrow> 0 | Some n \<Rightarrow> n) w in
      if \<not> sp_dynamic sp then
        (case value_span c k inline_at of
           None \<Rightarrow> ([], unread label f)
         | Some rg \<Rightarrow> ([\<lparr>sr_label = label, sr_text = t, sr_target = Word rg None\<rparr>], f))
      else (case inner_script (raw_at c (sp_start sp, sp_end sp)) of
          None \<Rightarrow> ([], unread label f)
        | Some (inner, start) \<Rightarrow>
            let sources = producers_in m inner
              \<lparr>pl_call = c, pl_base = sp_start sp + start, pl_inside = True, pl_before = cl_index c\<rparr> label
            in (sources, if sources = [] then unread label f else f)))"

record named_file =
  nm_path :: str
  nm_dynamic :: bool
  nm_replace :: "(nat \<times> nat) option"
  nm_opener :: str

definition writes_to :: "machine \<Rightarrow> command \<Rightarrow> str \<Rightarrow> bool" where
  "writes_to m cmd path =
     (let ws = cm_words cmd;
          tee = (case program_index (mc_lc m) ws of None \<Rightarrow> False | Some k \<Rightarrow> program_name (mc_lc m) (ws ! k) = lit ''tee'') in
      list_ex (\<lambda>(i, w).
        (case strip_prefix (lit ''>>'') w of Some r \<Rightarrow> Some r | None \<Rightarrow> strip_prefix (lit ''>'') w) = Some path \<or>
        ((w = lit ''>'' \<or> w = lit ''>>'') \<and> i + 1 < length ws \<and> ws ! (i + 1) = path) \<or>
        (tee \<and> w = path)) (enumerate 0 ws))"

definition written_earlier :: "machine \<Rightarrow> program_call \<Rightarrow> str \<Rightarrow> str \<Rightarrow> text_source list option" where
  "written_earlier m c path label =
     map_option (\<lambda>cmd. heredoc_sources (label @ lit '' in '' @ path) 0 (cm_heredocs cmd))
       (find (\<lambda>cmd. cm_heredocs cmd \<noteq> [] \<and> writes_to m cmd path) (rev (take (cl_index c) (cl_cmds c))))"

definition fed_from :: "machine \<Rightarrow> program_call \<Rightarrow> str \<Rightarrow> named_file \<Rightarrow> str + str" where
  "fed_from m c path named =
     sbind (read_message m path) (\<lambda>t.
       if touched_before m c path (cl_index c) then Inl (lit ''it is changed earlier in the same command'')
       else if nm_replace named = None then Inl (lit ''its name is partly quoted'') else Inr t)"

text \<open>A file on disk or one the script wrote earlier: what is left of \<^verbatim>\<open>from_path\<close> after standard input.\<close>

definition from_file :: "machine \<Rightarrow> program_call \<Rightarrow> named_file \<Rightarrow> str \<Rightarrow> findings \<Rightarrow> text_source list \<times> findings" where
  "from_file m c named label f =
     (let path = nm_path named; described = label @ lit '' in '' @ path in
      case written_earlier m c path label of
        Some sources \<Rightarrow> (sources, f)
      | None \<Rightarrow>
          (case (if nm_dynamic named then expand_vars m path else Some path) of
             None \<Rightarrow> ([], unread described f)
           | Some p \<Rightarrow>
               (case fed_from m c (resolve_path m p (cl_dir c)) named of
                  Inl why \<Rightarrow> ([], unread (described @ lit '' ('' @ why @ lit '')'') f)
                | Inr t \<Rightarrow> ([feed m c described t (case nm_replace named of None \<Rightarrow> (0, 0) | Some r \<Rightarrow> r) (nm_opener named)], f))))"

fun redirected_from :: "command \<Rightarrow> nat \<Rightarrow> str list \<Rightarrow> named_file option" where
  "redirected_from cmd i [] = None"
| "redirected_from cmd i (w # ws) =
     (if w = lit ''<'' then
        (case ws of
           [] \<Rightarrow> redirected_from cmd (i + 1) ws
         | path # _ \<Rightarrow> Some \<lparr>nm_path = path, nm_dynamic = sp_dynamic (cm_spans cmd ! (i + 1)),
             nm_replace = Some (sp_start (cm_spans cmd ! i), sp_end (cm_spans cmd ! (i + 1))), nm_opener = []\<rparr>)
      else if starts_with w (lit ''<'') then
        Some \<lparr>nm_path = drop 1 w, nm_dynamic = sp_dynamic (cm_spans cmd ! i),
          nm_replace = Some (sp_start (cm_spans cmd ! i), sp_end (cm_spans cmd ! i)), nm_opener = []\<rparr>
      else redirected_from cmd (i + 1) ws)"

text \<open>
  A message read from standard input. A file redirected in is read as \<^verbatim>\<open>from_path\<close> reads it, and there
  a path of standard input comes back here; the result is \<open>None\<close> when the two never return.
\<close>

partial_function (option) from_stdin :: "machine \<Rightarrow> program_call \<Rightarrow> str \<Rightarrow> findings \<Rightarrow> (text_source list \<times> findings) option" where
  "from_stdin m c label f =
     (let cmd = cmd_of c in
      if cm_heredocs cmd \<noteq> [] then Some (heredoc_sources label 0 (cm_heredocs cmd), f)
      else case first_index (\<lambda>w. w = lit ''<<<'') (cm_words cmd) of
        Some k \<Rightarrow> Some (if k + 1 < length (cm_words cmd) then from_word m c (k + 1) None label f else ([], f))
      | None \<Rightarrow>
          (case redirected_from cmd 0 (cm_words cmd) of
             Some named \<Rightarrow> if is_stdin_path (nm_path named) then from_stdin m c label f else Some (from_file m c named label f)
           | None \<Rightarrow>
               Some (if cl_index c = 0 \<or> \<not> cm_piped cmd
                then ([], unread (label @ lit '' (standard input is not a heredoc or a pipe)'') f)
                else let sources = producer m (cl_cmds c ! (cl_index c - 1))
                         \<lparr>pl_call = c, pl_base = 0, pl_inside = False, pl_before = cl_index c - 1\<rparr> True label
                     in (sources, if sources = [] then unread (label @ lit '' (read from a pipe)'') f else f))))"

definition from_path :: "machine \<Rightarrow> program_call \<Rightarrow> named_file \<Rightarrow> str \<Rightarrow> findings \<Rightarrow> (text_source list \<times> findings) option" where
  "from_path m c named label f =
     (if is_stdin_path (nm_path named) then from_stdin m c label f else Some (from_file m c named label f))"

section \<open>Writing the text back\<close>

text \<open>Each turn leaves fewer lines that are as long as the delimiter, so the loop ends.\<close>

definition long_lines :: "str list \<Rightarrow> str option \<Rightarrow> str \<Rightarrow> str set" where
  "long_lines ls avoid d = {l \<in> set ls \<union> set_option avoid. length d \<le> length l}"

lemma long_lines_less:
  assumes "d \<in> set ls \<or> avoid = Some d"
  shows "card (long_lines ls avoid (d @ [c])) < card (long_lines ls avoid d)"
proof (rule psubset_card_mono)
  have "finite (set ls \<union> set_option avoid)" by simp
  then show "finite (long_lines ls avoid d)" unfolding long_lines_def by (rule finite_subset[rotated]) blast
  have "d \<in> long_lines ls avoid d" using assms by (auto simp: long_lines_def)
  moreover have "d \<notin> long_lines ls avoid (d @ [c])" by (simp add: long_lines_def)
  moreover have "long_lines ls avoid (d @ [c]) \<subseteq> long_lines ls avoid d" by (auto simp: long_lines_def)
  ultimately show "long_lines ls avoid (d @ [c]) \<subset> long_lines ls avoid d" by blast
qed

function unique_delimiter_from :: "str list \<Rightarrow> str option \<Rightarrow> str \<Rightarrow> str" where
  "unique_delimiter_from ls avoid d =
     (if d \<in> set ls \<or> avoid = Some d then unique_delimiter_from ls avoid (d @ [95]) else d)"
  by pat_completeness auto
termination
  by (relation "measure (\<lambda>(ls, avoid, d). card (long_lines ls avoid d))") (auto intro: long_lines_less)

declare unique_delimiter_from.simps [simp del]

definition unique_delimiter :: "str \<Rightarrow> str option \<Rightarrow> str" where
  "unique_delimiter t avoid = unique_delimiter_from (text_lines t) avoid (lit ''PLAYBOOK_MESSAGE_END'')"

definition joined_text :: "str list \<Rightarrow> str" where
  "joined_text ts = concat (case ts of [] \<Rightarrow> [] | t # us \<Rightarrow> t # concat (map (\<lambda>u. [[10, 10], u]) us))"

definition trim_newlines :: "str \<Rightarrow> str" where
  "trim_newlines s = rev (dropWhile (\<lambda>c. c = 10) (rev s))"

definition joined :: "text_source list \<Rightarrow> str" where
  "joined sources = joined_text (map (\<lambda>s. trim_newlines (sr_text s)) sources)"

definition ended_line :: "str \<Rightarrow> str" where
  "ended_line t = (if t = [] \<or> last t = 10 then t else t @ [10])"

definition double_char :: "rchar \<Rightarrow> str \<Rightarrow> str" where
  "double_char d t = concat (map (\<lambda>c. if c = d then [c, c] else [c]) t)"

definition rewrite_source :: "text_source \<Rightarrow> (nat \<times> shape) list \<Rightarrow> (nat \<times> shape) list \<Rightarrow> text_edit list \<times> findings \<Rightarrow> text_edit list \<times> findings" where
  "rewrite_source s removed numbered st =
     (case st of (edits, f) \<Rightarrow>
      let t = drop_lines (sr_text s) removed;
          with_note = foldl (\<lambda>f (n, sh). add_note (Removed_Line (sr_label s) n sh) f) f numbered
      in case sr_target s of
           Feed _ _ (Inl why) \<Rightarrow> (edits, unread (sr_label s @ lit '' ('' @ why @ lit '')'') f)
         | Word rg whole \<Rightarrow>
             (case whole of
                Some (option, kept) \<Rightarrow> if blank t then (edits @ [(option, kept)], with_note) else (edits @ [(rg, quote t)], with_note)
              | None \<Rightarrow> (edits @ [(rg, quote t)], with_note))
         | Body rg \<Rightarrow> (edits @ [(rg, ended_line t)], with_note)
         | Feed replace opener (Inr sl) \<Rightarrow>
             let body = ended_line t; d = unique_delimiter body (sl_avoid sl) in
             (edits @ [(replace, opener @ lit ''<<'' @ [39] @ d @ [39]), (sl_at sl, sl_lead sl @ body @ d @ [10])], with_note)
         | Escaped rg percent \<Rightarrow>
             let e = double_char 92 t in (edits @ [(rg, quote (if percent then double_char 37 e else e))], with_note))"

definition lines_of_text :: "str \<Rightarrow> nat" where
  "lines_of_text t = length (split_on 10 t)"

text \<open>The sources of one message, with the number of the first line of each in the whole message.\<close>

primrec rewrite_group :: "nat \<Rightarrow> (nat \<times> shape) list \<Rightarrow> text_source list \<Rightarrow> text_edit list \<times> findings \<Rightarrow> text_edit list \<times> findings" where
  "rewrite_group first removed [] st = st"
| "rewrite_group first removed (s # sources) st =
     (let n = lines_of_text (trim_newlines (sr_text s));
          numbered = filter (\<lambda>(k, _). first \<le> k \<and> k < first + n) removed;
          local = map (\<lambda>(k, sh). (k + 1 - first, sh)) numbered;
          st' = (if numbered = [] then st else rewrite_source s local numbered st)
      in rewrite_group (first + n + 1) removed sources st')"

definition removed_by :: "machine \<Rightarrow> message_rule \<Rightarrow> str \<Rightarrow> (nat \<times> shape) list" where
  "removed_by m r t = (case r of
     Commit_Rule \<Rightarrow> problems (mc_letters m) t | Prose_Rule \<Rightarrow> prose_problems (mc_letters m) t | Lint_Rule \<Rightarrow> [])"

definition apply_group :: "machine \<Rightarrow> message_rule \<Rightarrow> text_source list \<Rightarrow> text_edit list \<times> findings \<Rightarrow> text_edit list \<times> findings" where
  "apply_group m r gr st =
     (case st of (edits, f) \<Rightarrow>
      let t = joined gr; label = (case gr of [] \<Rightarrow> lit ''the text'' | s # _ \<Rightarrow> sr_label s);
          lint = (if mc_lint_mode m = lit ''off'' then [] else mc_lint m t);
          f' = f\<lparr>fn_lint_hard := fn_lint_hard f \<or> list_ex fst lint, fn_lint := fn_lint f @ map (\<lambda>(_, w). (label, w)) lint\<rparr>
      in rewrite_group 1 (removed_by m r t) gr (edits, f'))"

definition apply_sources :: "machine \<Rightarrow> text_source list \<Rightarrow> message_rule \<Rightarrow> bool \<Rightarrow> text_edit list \<times> findings \<Rightarrow> text_edit list \<times> findings" where
  "apply_sources m sources r is_joined st =
     foldl (\<lambda>st gr. apply_group m r gr st) st (if is_joined then [sources] else map (\<lambda>s. [s]) sources)"

end
