(* ===== verification/Sanitizer_Git.thy ===== *)
theory Sanitizer_Git
  imports Sanitizer_Sources
begin

text \<open>
  The git calls that write a message, \<^verbatim>\<open>crates/cli/src/hooks/commit_message_sanitizer/git.rs\<close>, and the
  calls of a script they follow. A handler takes the edits and the findings so far and returns them
  with its own; it returns nothing when it reads standard input for ever. The script inside a word is
  handed to the walker of \<^verbatim>\<open>engine.rs\<close>, which is an argument, absent where scripts nest too deep.
\<close>

section \<open>Options\<close>

definition COMMIT :: opt_spec where
  "COMMIT = \<lparr>os_short_values = lit ''mFCct'', os_short_attached = lit ''Su'',
    os_long_values = map lit [''message'', ''file'', ''reuse-message'', ''reedit-message'', ''author'', ''date'', ''template'',
      ''cleanup'', ''fixup'', ''squash'', ''trailer''],
    os_long_flags = map lit [''amend'', ''no-edit'', ''edit'', ''reset-author'', ''signoff'', ''no-signoff'', ''dry-run''],
    os_other_long = map lit [''quiet'', ''verbose'', ''status'', ''gpg-sign'', ''all'', ''include'', ''interactive'', ''patch'',
      ''unified'', ''inter-hunk-context'', ''only'', ''no-verify'', ''short'', ''branch'', ''ahead-behind'',
      ''porcelain'', ''long'', ''null'', ''no-post-rewrite'', ''untracked-files'', ''pathspec-from-file'',
      ''pathspec-file-nul'', ''allow-empty'', ''allow-empty-message'', ''verify'', ''post-rewrite'',
      ''no-quiet'', ''no-verbose'', ''no-file'', ''no-author'', ''no-date'', ''no-message'',
      ''no-reedit-message'', ''no-reuse-message'', ''no-fixup'', ''no-squash'', ''no-reset-author'',
      ''no-trailer'', ''no-template'', ''no-cleanup'', ''no-status'', ''no-gpg-sign'', ''no-all'',
      ''no-include'', ''no-interactive'', ''no-patch'', ''no-only'', ''no-dry-run'', ''no-short'',
      ''no-branch'', ''no-ahead-behind'', ''no-porcelain'', ''no-long'', ''no-null'', ''no-amend'',
      ''no-untracked-files'', ''no-pathspec-from-file'', ''no-pathspec-file-nul'', ''no-allow-empty'',
      ''no-allow-empty-message''],
    os_abbreviate = True\<rparr>"

definition MERGE :: opt_spec where
  "MERGE = \<lparr>os_short_values = lit ''mFsX'', os_short_attached = lit ''S'',
    os_long_values = map lit [''message'', ''file'', ''strategy'', ''strategy-option'', ''cleanup''],
    os_long_flags = map lit [''no-edit'', ''edit'', ''squash'', ''no-commit'', ''signoff''],
    os_other_long = map lit [''stat'', ''summary'', ''compact-summary'', ''log'', ''commit'', ''ff'', ''ff-only'',
      ''rerere-autoupdate'', ''verify-signatures'', ''into-name'', ''verbose'', ''quiet'', ''abort'',
      ''quit'', ''continue'', ''allow-unrelated-histories'', ''progress'', ''gpg-sign'', ''autostash'',
      ''overwrite-ignore'', ''no-verify'', ''verify'', ''no-stat'', ''no-summary'', ''no-compact-summary'',
      ''no-log'', ''no-squash'', ''no-cleanup'', ''no-ff'', ''no-rerere-autoupdate'',
      ''no-verify-signatures'', ''no-strategy'', ''no-strategy-option'', ''no-message'', ''no-into-name'',
      ''no-verbose'', ''no-quiet'', ''no-abort'', ''no-quit'', ''no-continue'',
      ''no-allow-unrelated-histories'', ''no-progress'', ''no-gpg-sign'', ''no-autostash'',
      ''no-overwrite-ignore'', ''no-signoff''],
    os_abbreviate = True\<rparr>"

definition TAG :: opt_spec where
  "TAG = \<lparr>os_short_values = lit ''mFuf'', os_short_attached = lit '''',
    os_long_values = map lit [''message'', ''file'', ''local-user'', ''cleanup'', ''trailer''],
    os_long_flags = map lit [''annotate'', ''sign'', ''force'', ''edit'', ''no-edit''],
    os_other_long = map lit [''list'', ''delete'', ''verify'', ''create-reflog'', ''column'', ''contains'', ''no-contains'',
      ''with'', ''without'', ''merged'', ''no-merged'', ''omit-empty'', ''sort'', ''points-at'', ''format'',
      ''color'', ''ignore-case'', ''no-annotate'', ''no-file'', ''no-trailer'', ''no-sign'', ''no-cleanup'',
      ''no-local-user'', ''no-force'', ''no-create-reflog'', ''no-column'', ''no-omit-empty'', ''no-sort'',
      ''no-points-at'', ''no-format'', ''no-color'', ''no-ignore-case''],
    os_abbreviate = True\<rparr>"

definition COMMIT_TREE :: opt_spec where
  "COMMIT_TREE = \<lparr>os_short_values = lit ''mFp'', os_short_attached = lit ''S'',
    os_long_values = [],
    os_long_flags = [],
    os_other_long = map lit [''gpg-sign'', ''no-gpg-sign''],
    os_abbreviate = True\<rparr>"

definition REBASE :: opt_spec where
  "REBASE = \<lparr>os_short_values = lit ''x'', os_short_attached = lit '''',
    os_long_values = map lit [''exec''],
    os_long_flags = [],
    os_other_long = [],
    os_abbreviate = True\<rparr>"

definition IDENTITY_NAME_KEYS :: "str list" where
  "IDENTITY_NAME_KEYS = map lit [''GIT_AUTHOR_NAME'', ''GIT_COMMITTER_NAME'', ''user.name'', ''author.name'']"

definition IDENTITY_EMAIL_KEYS :: "str list" where
  "IDENTITY_EMAIL_KEYS = map lit [''GIT_AUTHOR_EMAIL'', ''GIT_COMMITTER_EMAIL'', ''user.email'', ''author.email'']"

definition GLOBAL_WITH_VALUE :: "str list" where
  "GLOBAL_WITH_VALUE = map lit [''--git-dir'', ''--work-tree'', ''--namespace'', ''--super-prefix'', ''--attr-source'',
     ''--config-env'']"

definition MESSAGE_FILES :: "str list" where
  "MESSAGE_FILES = map lit [''MERGE_MSG'', ''SQUASH_MSG'']"

section \<open>Programs and nested scripts\<close>

definition ENGINE_SHELLS :: "str list" where
  "ENGINE_SHELLS = map lit [''bash'', ''sh'', ''zsh'', ''dash'', ''ksh'']"

definition CARRIERS :: "str list" where
  "CARRIERS = map lit [''rtk'', ''nohup'', ''setsid'', ''stdbuf'', ''ionice'', ''chrt'', ''xargs'', ''find'', ''parallel'',
     ''watch'', ''script'', ''unbuffer'']"

definition runs_messages :: "str \<Rightarrow> bool" where
  "runs_messages n \<longleftrightarrow> n \<in> set (map lit [''git'', ''gh'', ''eval'']) \<or> n \<in> set ENGINE_SHELLS"

definition locate_programs :: "machine \<Rightarrow> str list \<Rightarrow> (nat \<times> str) list" where
  "locate_programs m ws =
     (case program_index (mc_lc m) ws of
        None \<Rightarrow> []
      | Some k \<Rightarrow>
          let name = program_name (mc_lc m) (ws ! k);
              carried = filter (\<lambda>(_, n). runs_messages n) (map (\<lambda>i. (i, program_name (mc_lc m) (ws ! i))) [k + 1..<length ws]) in
          if name \<notin> set CARRIERS \<or> carried = [] then [(k, name)] else carried)"

type_synonym progress = "text_edit list \<times> findings"
type_synonym walker = "str \<Rightarrow> str \<Rightarrow> inline_at \<Rightarrow> findings \<Rightarrow> (str \<times> findings) option"

definition add_edit :: "text_edit \<Rightarrow> progress \<Rightarrow> progress" where
  "add_edit e st = (fst st @ [e], snd st)"

definition with_note :: "finding_note \<Rightarrow> progress \<Rightarrow> progress" where
  "with_note n st = (fst st, add_note n (snd st))"

definition nested_word :: "walker option \<Rightarrow> program_call \<Rightarrow> nat \<Rightarrow> nat option \<Rightarrow> progress \<Rightarrow> progress option" where
  "nested_word again c k skip st =
     (if sp_dynamic (span_at c k) then Some st
      else case again of
        None \<Rightarrow> Some st
      | Some walk \<Rightarrow>
          (case value_span c k skip of
             None \<Rightarrow> Some st
           | Some rg \<Rightarrow>
               let t = drop (case skip of None \<Rightarrow> 0 | Some n \<Rightarrow> n) (cm_words (cmd_of c) ! k) in
               map_option (\<lambda>(rewritten, f).
                 if rewritten \<noteq> t then (fst st @ [(rg, quote rewritten)], f) else (fst st, f))
                 (walk t (cl_dir c) (cl_inline c) (snd st))))"

section \<open>What a command does with git\<close>

function subcommand_from :: "machine \<Rightarrow> str list \<Rightarrow> nat \<Rightarrow> str \<Rightarrow> (nat \<times> str) option" where
  "subcommand_from m ws k dir =
     (if k \<ge> length ws then None
      else
        let w = ws ! k in
        if w = lit ''-C'' then subcommand_from m ws (k + 2) (if k + 1 < length ws then resolve_path m (ws ! (k + 1)) dir else dir)
        else if w = lit ''-c'' \<or> w \<in> set GLOBAL_WITH_VALUE then subcommand_from m ws (k + 2) dir
        else if starts_with w (lit ''-'') then subcommand_from m ws (k + 1) dir
        else Some (k, dir))"
  by pat_completeness auto
termination by (relation "measure (\<lambda>(_, ws, k, _). length ws - k)") auto

declare subcommand_from.simps [simp del]

record git_calls =
  gu_commit :: bool
  gu_explicit_message :: bool
  gu_no_signoff :: bool
  gu_tag :: bool
  gu_push :: bool
  gu_commit_dirs :: "str list"

definition use_command :: "machine \<Rightarrow> str \<Rightarrow> git_calls \<Rightarrow> command \<Rightarrow> git_calls" where
  "use_command m dir u cmd =
     (case find (\<lambda>(_, n). n = lit ''git'') (locate_programs m (cm_words cmd)) of
        None \<Rightarrow> u
      | Some (k, _) \<Rightarrow>
          (case subcommand_from m (cm_words cmd) (k + 1) dir of
             None \<Rightarrow> u
           | Some (sub, git_dir) \<Rightarrow>
               let name = cm_words cmd ! sub; opts = scan_opts COMMIT (drop (sub + 1) (cm_words cmd)) in
               if name = lit ''commit'' then
                 u\<lparr>gu_commit := True,
                   gu_explicit_message := gu_explicit_message u \<or>
                     has_opt opts (map lit [''m'', ''message'', ''F'', ''file'', ''C'', ''reuse-message'', ''no-edit'']),
                   gu_no_signoff := gu_no_signoff u \<or> has_opt opts [lit ''no-signoff''],
                   gu_commit_dirs := (if list_ex (same_path git_dir) (gu_commit_dirs u) then gu_commit_dirs u
                                      else gu_commit_dirs u @ [git_dir])\<rparr>
               else if name = lit ''tag'' then u\<lparr>gu_tag := True\<rparr>
               else if name = lit ''push'' then u\<lparr>gu_push := True\<rparr>
               else u))"

definition git_use :: "machine \<Rightarrow> str \<Rightarrow> str \<Rightarrow> git_calls" where
  "git_use m command dir = foldl (use_command m dir)
     \<lparr>gu_commit = False, gu_explicit_message = False, gu_no_signoff = False, gu_tag = False, gu_push = False, gu_commit_dirs = []\<rparr>
     (commands command)"

section \<open>Identities\<close>

definition is_ai_value :: "machine \<Rightarrow> str \<Rightarrow> str \<Rightarrow> bool" where
  "is_ai_value m key v \<longleftrightarrow> (key \<in> set IDENTITY_NAME_KEYS \<and> is_ai_identity (mc_letters m) v []) \<or>
     (key \<in> set IDENTITY_EMAIL_KEYS \<and> is_ai_identity (mc_letters m) [] v)"

definition drop_identity_env :: "machine \<Rightarrow> program_call \<Rightarrow> progress \<Rightarrow> progress" where
  "drop_identity_env m c st = foldl (\<lambda>st (k, w). case split_once 61 w of
       None \<Rightarrow> st
     | Some (name, v) \<Rightarrow>
         if is_assignment w \<and> is_ai_value m name v
         then with_note (Dropped_Variable name) (add_edit ((sp_start (span_at c k), sp_end (span_at c k)), []) st) else st)
     st (enumerate 0 (take (cl_at c) (cm_words (cmd_of c))))"

text \<open>The words of the setting are given by their first and last index.\<close>

definition drop_identity_config :: "machine \<Rightarrow> program_call \<Rightarrow> nat \<times> nat \<Rightarrow> str \<Rightarrow> progress \<Rightarrow> progress" where
  "drop_identity_config m c ks setting st =
     (case split_once 61 setting of
        None \<Rightarrow> st
      | Some (key0, v) \<Rightarrow>
          let key = mc_lc m key0 in
          (case find (\<lambda>k. mc_lc m k = key) (IDENTITY_NAME_KEYS @ IDENTITY_EMAIL_KEYS) of
             None \<Rightarrow> st
           | Some k \<Rightarrow> if is_ai_value m k v
               then with_note (Dropped_Setting key) (add_edit ((sp_start (span_at c (fst ks)), sp_end (span_at c (snd ks))), []) st) else st))"

function skip_globals :: "machine \<Rightarrow> program_call \<Rightarrow> nat \<Rightarrow> str \<Rightarrow> progress \<Rightarrow> (nat \<times> str) option \<times> progress" where
  "skip_globals m c k dir st =
     (let ws = cm_words (cmd_of c) in
      if k \<ge> length ws then (None, st)
      else
        let w = ws ! k in
        if w = lit ''-C'' then skip_globals m c (k + 2) (if k + 1 < length ws then resolve_path m (ws ! (k + 1)) dir else dir) st
        else if w = lit ''-c'' then
          skip_globals m c (k + 2) dir (if k + 1 < length ws then drop_identity_config m c (k, k + 1) (ws ! (k + 1)) st else st)
        else if starts_with w (lit ''-c'') \<and> \<not> starts_with w (lit ''--'') then
          skip_globals m c (k + 1) dir (drop_identity_config m c (k, k) (drop 2 w) st)
        else if w \<in> set GLOBAL_WITH_VALUE then skip_globals m c (k + 2) dir st
        else if starts_with w (lit ''-'') then skip_globals m c (k + 1) dir st
        else (Some (k, dir), st))"
  by pat_completeness auto
termination by (relation "measure (\<lambda>(_, c, k, _). length (cm_words (cmd_of c)) - k)") (auto simp: Let_def)

declare skip_globals.simps [simp del]

section \<open>Messages on the command line\<close>

definition kept_letters :: "opt \<Rightarrow> str \<Rightarrow> str" where
  "kept_letters opt w =
     (let others = (case strip_prefix (lit ''-'') w of
            Some cluster \<Rightarrow> if \<not> starts_with cluster (lit ''-'') \<and> ot_name opt = lit ''m'' then takeWhile (\<lambda>ch. ch \<noteq> 109) cluster else []
          | None \<Rightarrow> [])
      in if others = [] then [] else lit ''-'' @ others)"

definition with_option :: "(nat \<times> nat) \<times> str \<Rightarrow> text_source \<Rightarrow> text_source" where
  "with_option whole s = (case sr_target s of Word rg _ \<Rightarrow> s\<lparr>sr_target := Word rg (Some whole)\<rparr> | _ \<Rightarrow> s)"

text \<open>The sources, whether there was a message option, and the findings.\<close>

fun message_sources :: "machine \<Rightarrow> program_call \<Rightarrow> nat \<Rightarrow> opt list \<Rightarrow> str \<Rightarrow> findings \<Rightarrow> (text_source list \<times> bool \<times> findings) option" where
  "message_sources m c rest [] label f = Some ([], False, f)"
| "message_sources m c rest (opt # opts) label f =
     (let value_at = ot_value_word opt + rest; is_word = ot_name opt \<in> {lit ''m'', lit ''message''};
          is_file = ot_name opt \<in> {lit ''F'', lit ''file''} in
      case ot_value opt of
        None \<Rightarrow> message_sources m c rest opts label f
      | Some v \<Rightarrow>
          if value_at \<ge> length (cm_words (cmd_of c)) then message_sources m c rest opts label f
          else if is_word then
            (case from_word m c value_at (ot_inline_at opt) label f of (found, f') \<Rightarrow>
               let whole = ((sp_start (span_at c (ot_word opt + rest)), sp_end (span_at c value_at)),
                            kept_letters opt (cm_words (cmd_of c) ! (ot_word opt + rest))) in
               map_option (\<lambda>(sources, _, f''). (map (with_option whole) found @ sources, True, f''))
                 (message_sources m c rest opts label f'))
          else if is_file then
            Option.bind (from_path m c \<lparr>nm_path = v, nm_dynamic = sp_dynamic (span_at c value_at),
                nm_replace = value_span c value_at (ot_inline_at opt), nm_opener = lit ''- ''\<rparr> label f) (\<lambda>(found, f').
              map_option (\<lambda>(sources, _, f''). (found @ sources, True, f'')) (message_sources m c rest opts label f'))
          else message_sources m c rest opts label f)"

definition author_is_ai :: "machine \<Rightarrow> str \<Rightarrow> bool" where
  "author_is_ai m v = (case split_once 60 v of
     Some (name, email) \<Rightarrow> is_ai_identity (mc_letters m) name (rev (dropWhile (\<lambda>ch. ch = 62) (rev email)))
   | None \<Rightarrow> is_ai_identity (mc_letters m) v v)"

definition is_trailer_mark :: "rchar \<Rightarrow> bool" where
  "is_trailer_mark c \<longleftrightarrow> c = 58 \<or> c = 61"

definition trailer_is_ai :: "machine \<Rightarrow> str \<Rightarrow> bool" where
  "trailer_is_ai m v =
     (let token = takeWhile (\<lambda>ch. \<not> is_trailer_mark ch) v; after = dropWhile (\<lambda>ch. \<not> is_trailer_mark ch) v in
      after \<noteq> [] \<and> trailer_shape (mc_letters m) (trim token @ lit '': '' @ trim (tl after)) \<noteq> None)"

definition drop_ai_options :: "machine \<Rightarrow> program_call \<Rightarrow> nat \<Rightarrow> opt list \<Rightarrow> progress \<Rightarrow> progress" where
  "drop_ai_options m c rest opts st = foldl (\<lambda>st opt. case ot_value opt of
       None \<Rightarrow> st
     | Some v \<Rightarrow>
         let value_at = ot_value_word opt + rest;
             ai = (ot_name opt = lit ''author'' \<and> author_is_ai m v) \<or> (ot_name opt = lit ''trailer'' \<and> trailer_is_ai m v) in
         if ai \<and> \<not> sp_dynamic (span_at c value_at)
         then with_note (Dropped_Option (ot_name opt))
           (add_edit ((sp_start (span_at c (ot_word opt + rest)), sp_end (span_at c value_at)), []) st)
         else st) st opts"

section \<open>Messages in the repository\<close>

definition author_flags :: "machine \<Rightarrow> str \<Rightarrow> str \<Rightarrow> str" where
  "author_flags m dir rev_name =
     (case mc_git m dir [lit ''log'', lit ''-1'', lit ''--format=%an%n%ae%n%aI'', rev_name, lit ''--''] of
        None \<Rightarrow> []
      | Some out \<Rightarrow>
          (case text_lines out of
             name # email # date # _ \<Rightarrow>
               if is_ai_identity (mc_letters m) name email then []
               else lit ''--author='' @ quote (name @ lit '' <'' @ email @ lit ''>'') @ lit '' --date='' @ quote date @ lit '' ''
           | _ \<Rightarrow> []))"

definition git_ran_earlier :: "machine \<Rightarrow> program_call \<Rightarrow> bool" where
  "git_ran_earlier m c \<longleftrightarrow> list_ex (\<lambda>cmd. list_ex (\<lambda>w. program_name (mc_lc m) w = lit ''git'' \<or>
     (list_ex is_whitespace w \<and> contains_str (mc_lc m w) (lit ''git''))) (cm_words cmd)) (take (cl_index c) (cl_cmds c))"

definition after_subcommand :: "program_call \<Rightarrow> nat \<Rightarrow> nat \<times> nat" where
  "after_subcommand c rest = (sp_end (span_at c (rest - 1)), sp_end (span_at c (rest - 1)))"

definition reuse :: "machine \<Rightarrow> program_call \<Rightarrow> nat \<Rightarrow> opt option \<Rightarrow> str \<Rightarrow> progress \<Rightarrow> str option \<times> progress" where
  "reuse m c rest option rev_name st =
     (case mc_git m (cl_dir c) [lit ''log'', lit ''-1'', lit ''--format=%B'', rev_name, lit ''--''] of
        None \<Rightarrow> (None, st)
      | Some message \<Rightarrow>
          (Some message,
           if problems (mc_letters m) message = [] then st
           else
             let (replace, opener) = (case option of
                   Some opt \<Rightarrow> ((sp_start (span_at c (ot_word opt + rest)), sp_end (span_at c (ot_value_word opt + rest))),
                                author_flags m (cl_dir c) rev_name @ lit ''-F - '')
                 | None \<Rightarrow> (after_subcommand c rest, lit '' -F - ''))
             in apply_sources m [feed m c (lit ''the message reused from '' @ rev_name) message replace opener] Commit_Rule False st))"

definition stored_message :: "machine \<Rightarrow> program_call \<Rightarrow> nat \<Rightarrow> progress \<Rightarrow> str option \<times> progress" where
  "stored_message m c rest st =
     (case mc_git m (cl_dir c) [lit ''rev-parse'', lit ''--git-dir''] of
        None \<Rightarrow> (None, st)
      | Some out \<Rightarrow>
          let git_dir = resolve_path m (trim out) (cl_dir c) in
          (case find (\<lambda>name. mc_exists m (path_join git_dir name)) MESSAGE_FILES of
             None \<Rightarrow> (None, st)
           | Some name \<Rightarrow>
               if cl_depth c > 0 then (None, (fst st, unread (name @ lit '' (in a nested script, which may run later)'') (snd st)))
               else (case read_message m (path_join git_dir name) of
                   Inl why \<Rightarrow> (None, (fst st, unread (name @ lit '' ('' @ why @ lit '')'') (snd st)))
                 | Inr t \<Rightarrow> (Some t, apply_sources m [feed m c name t (after_subcommand c rest) (lit '' -F - '')] Commit_Rule False st))))"

text \<open>Where a reused message comes from: nowhere the hook reads, the option and the revision, or what a merge left.\<close>

datatype reused_from = Not_Reused | Reused "opt option" str | Stored

definition reused_source :: "opt list \<Rightarrow> reused_from" where
  "reused_source opts =
     (case opts_named opts (map lit [''C'', ''c'', ''reuse-message'', ''reedit-message'']) of
        opt # _ \<Rightarrow> Reused (Some opt) (case ot_value opt of Some v \<Rightarrow> v | None \<Rightarrow> [])
      | [] \<Rightarrow>
          if has_opt opts [lit ''amend''] \<and> has_opt opts [lit ''no-edit''] then Reused None (lit ''HEAD'')
          else if \<not> has_opt opts [lit ''amend''] then Stored else Not_Reused)"

definition reused_message :: "machine \<Rightarrow> program_call \<Rightarrow> nat \<Rightarrow> opt list \<Rightarrow> progress \<Rightarrow> str option \<times> progress" where
  "reused_message m c rest opts st =
     (let src = reused_source opts; leave = (\<lambda>why. (None, (fst st, unread why (snd st)))) in
      if src = Not_Reused then (None, st)
      else if git_ran_earlier m c
      then leave (lit ''the reused message (an earlier git command in this call may change it)'')
      else if src \<noteq> Stored \<and> cl_depth c > 0
      then leave (lit ''the reused message (it is in a nested script, which may run against other commits)'')
      else if opts_named opts (map lit [''C'', ''c'', ''reuse-message'', ''reedit-message'']) \<noteq> [] \<and> has_opt opts [lit ''reset-author'']
      then leave (lit ''the message reused with --reset-author (the rewrite would copy the author it resets)'')
      else case src of
          Reused option rev_name \<Rightarrow> reuse m c rest option rev_name st
        | _ \<Rightarrow> stored_message m c rest st)"

section \<open>Sign-off\<close>

definition is_sign_off_trailer :: "machine \<Rightarrow> str \<Rightarrow> bool" where
  "is_sign_off_trailer m v =
     (let token = mc_lc m (filter is_ascii_alnum (takeWhile (\<lambda>ch. \<not> is_trailer_mark ch) v)) in
      token = lit ''signedoffby'' \<or> token = lit ''signoff'')"

definition command_adds_sign_off :: "machine \<Rightarrow> str list \<Rightarrow> bool" where
  "command_adds_sign_off m ws \<longleftrightarrow> lit ''--signoff'' \<in> set ws \<or>
     (lit ''interpret-trailers'' \<in> set ws \<and>
      list_ex (\<lambda>(i, w). case (case strip_prefix (lit ''--trailer='') w of
           Some v \<Rightarrow> Some v
         | None \<Rightarrow> if w = lit ''--trailer'' \<and> i + 1 < length ws then Some (ws ! (i + 1)) else None) of
           None \<Rightarrow> False | Some v \<Rightarrow> is_sign_off_trailer m v) (enumerate 0 ws))"

definition script_adds_sign_off :: "machine \<Rightarrow> str \<Rightarrow> bool" where
  "script_adds_sign_off m script \<longleftrightarrow> list_ex (\<lambda>cmd. command_adds_sign_off m (cm_words cmd)) (commands script)"

definition hook_signs_off :: "machine \<Rightarrow> str \<Rightarrow> bool" where
  "hook_signs_off m dir =
     (case mc_git m dir [lit ''rev-parse'', lit ''--git-path'', lit ''hooks''] of
        None \<Rightarrow> False
      | Some out \<Rightarrow> list_ex (\<lambda>name. case mc_script m (path_join (resolve_path m (trim out) dir) name) of
            None \<Rightarrow> False | Some script \<Rightarrow> script_adds_sign_off m script)
          (map lit [''prepare-commit-msg'', ''commit-msg'']))"

definition sign_off :: "machine \<Rightarrow> program_call \<Rightarrow> nat \<Rightarrow> opt list \<Rightarrow> str option \<Rightarrow> progress \<Rightarrow> progress" where
  "sign_off m c rest opts known st =
     (let settled = has_opt opts (map lit [''s'', ''signoff'', ''no-signoff'', ''dry-run'']) \<or>
          (case known of None \<Rightarrow> False | Some t \<Rightarrow> has_sign_off (sn_text (sanitize (mc_letters m) t))) \<or>
          hook_signs_off m (cl_dir c) \<or> \<not> mc_sign_off m in
      if settled then st
      else (fst st @ [(after_subcommand c rest, lit '' -s'')], (snd st)\<lparr>fn_signed_off := True\<rparr>))"

section \<open>Subcommands\<close>

definition rest_words :: "program_call \<Rightarrow> nat \<Rightarrow> str list" where
  "rest_words c rest = drop rest (cm_words (cmd_of c))"

definition git_commit :: "machine \<Rightarrow> program_call \<Rightarrow> nat \<Rightarrow> progress \<Rightarrow> progress option" where
  "git_commit m c rest st =
     (let opts = scan_opts COMMIT (rest_words c rest) in
      map_option (\<lambda>(sources, written, f).
        let known = (if sources = [] then None else Some (joined sources));
            st1 = drop_ai_options m c rest opts (apply_sources m sources Commit_Rule True (fst st, f));
            (known, st2) = (if written then (known, st1) else reused_message m c rest opts st1)
        in sign_off m c rest opts known st2)
        (message_sources m c rest opts (lit ''the commit message'') (snd st)))"

definition message_command :: "machine \<Rightarrow> program_call \<Rightarrow> nat \<Rightarrow> opt_spec \<Rightarrow> str \<Rightarrow> progress \<Rightarrow> progress option" where
  "message_command m c rest spec label st =
     map_option (\<lambda>(sources, _, f). apply_sources m sources Commit_Rule True (fst st, f))
       (message_sources m c rest (scan_opts spec (rest_words c rest)) label (snd st))"

definition git_tag :: "machine \<Rightarrow> program_call \<Rightarrow> nat \<Rightarrow> progress \<Rightarrow> progress option" where
  "git_tag m c rest st =
     (let opts = scan_opts TAG (rest_words c rest) in
      map_option (\<lambda>(sources, _, f). drop_ai_options m c rest opts (apply_sources m sources Commit_Rule True (fst st, f)))
        (message_sources m c rest opts (lit ''the tag message'') (snd st)))"

definition commit_tree :: "machine \<Rightarrow> program_call \<Rightarrow> nat \<Rightarrow> progress \<Rightarrow> progress option" where
  "commit_tree m c rest st =
     (let label = lit ''the commit message'' in
      Option.bind (message_sources m c rest (scan_opts COMMIT_TREE (rest_words c rest)) label (snd st)) (\<lambda>(sources, written, f).
        map_option (\<lambda>(sources, f). apply_sources m sources Commit_Rule True (fst st, f))
          (if written then Some (sources, f) else from_stdin m c label f)))"

fun nested_values :: "walker option \<Rightarrow> program_call \<Rightarrow> nat \<Rightarrow> opt list \<Rightarrow> progress \<Rightarrow> progress option" where
  "nested_values again c rest [] st = Some st"
| "nested_values again c rest (opt # opts) st =
     (if ot_value opt = None then nested_values again c rest opts st
      else Option.bind (nested_word again c (ot_value_word opt + rest) (ot_inline_at opt) st) (nested_values again c rest opts))"

definition rebase :: "walker option \<Rightarrow> program_call \<Rightarrow> nat \<Rightarrow> progress \<Rightarrow> progress option" where
  "rebase again c rest st =
     nested_values again c rest (opts_named (scan_opts REBASE (rest_words c rest)) (map lit [''x'', ''exec''])) st"

definition git_handle :: "machine \<Rightarrow> walker option \<Rightarrow> program_call \<Rightarrow> progress \<Rightarrow> progress option" where
  "git_handle m again c st =
     (case skip_globals m c (cl_at c + 1) (cl_dir c) (drop_identity_env m c st) of
        (None, st) \<Rightarrow> Some st
      | (Some (sub, dir), st) \<Rightarrow>
          let c = c\<lparr>cl_dir := dir\<rparr>; rest = sub + 1; name = cm_words (cmd_of c) ! sub in
          if name = lit ''commit'' then git_commit m c rest st
          else if name = lit ''merge'' then message_command m c rest MERGE (lit ''the merge message'') st
          else if name = lit ''tag'' then git_tag m c rest st
          else if name = lit ''commit-tree'' then commit_tree m c rest st
          else if name = lit ''rebase'' then rebase again c rest st
          else Some st)"

end
