(* ===== verification/Sanitizer_Engine.thy ===== *)
theory Sanitizer_Engine
  imports Sanitizer_Git
begin

text \<open>
  The walk over a command, \<^verbatim>\<open>crates/cli/src/hooks/commit_message_sanitizer/engine.rs\<close>, with the calls of
  \<^verbatim>\<open>gh\<close> in \<^verbatim>\<open>gh.rs\<close>: every git and gh call that writes a message, through nested scripts, ends as edits
  of the text.
\<close>

section \<open>gh\<close>

definition PR_WRITE :: opt_spec where
  "PR_WRITE = \<lparr>os_short_values = lit ''tbFaBHlmprRT'', os_short_attached = lit '''',
    os_long_values = map lit [''title'', ''body'', ''body-file'', ''assignee'', ''base'', ''head'', ''label'', ''milestone'',
      ''project'', ''reviewer'', ''repo'', ''template''],
    os_long_flags = map lit [''fill'', ''fill-first'', ''fill-verbose'', ''draft'', ''web''],
    os_other_long = [],
    os_abbreviate = False\<rparr>"

definition COMMENT_WRITE :: opt_spec where
  "COMMENT_WRITE = \<lparr>os_short_values = lit ''bFR'', os_short_attached = lit '''',
    os_long_values = map lit [''body'', ''body-file'', ''repo''],
    os_long_flags = map lit [''edit-last'', ''delete-last'', ''create-if-none'', ''yes'', ''editor'', ''web''],
    os_other_long = [],
    os_abbreviate = False\<rparr>"

definition REVIEW_WRITE :: opt_spec where
  "REVIEW_WRITE = \<lparr>os_short_values = lit ''bFR'', os_short_attached = lit '''',
    os_long_values = map lit [''body'', ''body-file'', ''repo''],
    os_long_flags = map lit [''approve'', ''comment'', ''request-changes''],
    os_other_long = [],
    os_abbreviate = False\<rparr>"

definition PR_MERGE :: opt_spec where
  "PR_MERGE = \<lparr>os_short_values = lit ''tbFAR'', os_short_attached = lit '''',
    os_long_values = map lit [''subject'', ''body'', ''body-file'', ''author-email'', ''match-head-commit'', ''repo''],
    os_long_flags = map lit [''merge'', ''squash'', ''rebase'', ''auto'', ''admin'', ''delete-branch''],
    os_other_long = [],
    os_abbreviate = False\<rparr>"

fun text_sources :: "machine \<Rightarrow> program_call \<Rightarrow> nat \<Rightarrow> opt list \<Rightarrow> str list \<Rightarrow> str \<Rightarrow> findings \<Rightarrow> (text_source list \<times> findings) option" where
  "text_sources m c rest [] names label f = Some ([], f)"
| "text_sources m c rest (opt # opts) names label f =
     (let k = ot_value_word opt + rest in
      case ot_value opt of
        None \<Rightarrow> text_sources m c rest opts names label f
      | Some v \<Rightarrow>
          if ot_name opt \<notin> set names \<or> k \<ge> length (cm_words (cmd_of c)) then text_sources m c rest opts names label f
          else if ot_name opt \<in> {lit ''F'', lit ''body-file''} then
            Option.bind (from_path m c \<lparr>nm_path = v, nm_dynamic = sp_dynamic (span_at c k),
                nm_replace = value_span c k (ot_inline_at opt), nm_opener = lit ''- ''\<rparr> label f) (\<lambda>(found, f).
              map_option (\<lambda>(sources, f). (found @ sources, f)) (text_sources m c rest opts names label f))
          else (case from_word m c k (ot_inline_at opt) label f of (found, f) \<Rightarrow>
            map_option (\<lambda>(sources, f). (found @ sources, f)) (text_sources m c rest opts names label f)))"

text \<open>A title and a body, each judged on its own.\<close>

definition title_and_body :: "machine \<Rightarrow> program_call \<Rightarrow> nat \<Rightarrow> opt list \<Rightarrow> str \<Rightarrow> str \<Rightarrow> message_rule \<Rightarrow> progress \<Rightarrow> progress option" where
  "title_and_body m c rest opts title_label body_label r st =
     Option.bind (text_sources m c rest opts (map lit [''t'', ''title'']) title_label (snd st)) (\<lambda>(title, f).
     map_option (\<lambda>(body, f). apply_sources m body r False (apply_sources m title r False (fst st, f)))
       (text_sources m c rest opts (map lit [''b'', ''body'', ''F'', ''body-file'']) body_label f))"

definition lint_text :: "machine \<Rightarrow> program_call \<Rightarrow> nat \<Rightarrow> str \<Rightarrow> progress \<Rightarrow> progress option" where
  "lint_text m c rest verb st =
     (let spec = (if verb = lit ''review'' then REVIEW_WRITE else if verb = lit ''comment'' then COMMENT_WRITE else PR_WRITE) in
      title_and_body m c rest (scan_opts spec (rest_words c rest)) (lit ''the title'') (lit ''the comment text'') Lint_Rule st)"

definition gh_handle :: "machine \<Rightarrow> program_call \<Rightarrow> progress \<Rightarrow> progress option" where
  "gh_handle m c st =
     (let ws = cm_words (cmd_of c) in
      if cl_at c + 2 \<ge> length ws then Some st
      else
        let kind = ws ! (cl_at c + 1); verb = ws ! (cl_at c + 2); rest = cl_at c + 3 in
        if kind = lit ''issue'' \<or> (kind = lit ''pr'' \<and> verb \<in> {lit ''comment'', lit ''review''}) then
          (if verb \<in> set (map lit [''create'', ''new'', ''edit'', ''comment'', ''review'']) then lint_text m c rest verb st else Some st)
        else if kind \<noteq> lit ''pr'' then Some st
        else if verb \<in> set (map lit [''create'', ''new'', ''edit'']) then
          title_and_body m c rest (scan_opts PR_WRITE (rest_words c rest)) (lit ''the PR title'') (lit ''the PR body'') Prose_Rule st
        else if verb = lit ''merge'' then
          map_option (\<lambda>(parts, f). apply_sources m parts Commit_Rule True (fst st, f))
            (text_sources m c rest (scan_opts PR_MERGE (rest_words c rest))
              (map lit [''t'', ''subject'', ''b'', ''body'', ''F'', ''body-file'']) (lit ''the merge commit message'') (snd st))
        else Some st)"

section \<open>Scripts\<close>

definition MAX_NESTING :: nat where
  "MAX_NESTING = 3"

text \<open>The heredocs fed to a shell, each a script of its own.\<close>

fun heredoc_scripts :: "walker \<Rightarrow> program_call \<Rightarrow> heredoc list \<Rightarrow> progress \<Rightarrow> progress option" where
  "heredoc_scripts walk c [] st = Some st"
| "heredoc_scripts walk c (h # hs) st =
     Option.bind (walk (hd_text h) (cl_dir c) (if cl_inline c = Anywhere then In_Heredoc h else Nowhere) (snd st)) (\<lambda>(rewritten, f).
       heredoc_scripts walk c hs (if rewritten \<noteq> hd_text h then fst st @ [(hd_body h, rewritten)] else fst st, f))"

definition is_c_flag :: "str \<Rightarrow> bool" where
  "is_c_flag w \<longleftrightarrow> starts_with w (lit ''-'') \<and> \<not> starts_with w (lit ''--'') \<and> 99 \<in> set w"

definition shell_script :: "walker \<Rightarrow> program_call \<Rightarrow> progress \<Rightarrow> progress option" where
  "shell_script walk c st =
     (let ws = cm_words (cmd_of c) in
      case map_option (\<lambda>k. cl_at c + 1 + k) (first_index is_c_flag (drop (cl_at c + 1) ws)) of
        Some k \<Rightarrow> if k + 1 < length ws then nested_word (Some walk) c (k + 1) None st
          else heredoc_scripts walk c (cm_heredocs (cmd_of c) @
            (if cm_piped (cmd_of c) \<and> cl_index c > 0 then cm_heredocs (cl_cmds c ! (cl_index c - 1)) else [])) st
      | None \<Rightarrow> heredoc_scripts walk c (cm_heredocs (cmd_of c) @
            (if cm_piped (cmd_of c) \<and> cl_index c > 0 then cm_heredocs (cl_cmds c ! (cl_index c - 1)) else [])) st)"

fun eval_scripts :: "walker option \<Rightarrow> program_call \<Rightarrow> nat list \<Rightarrow> progress \<Rightarrow> progress option" where
  "eval_scripts again c [] st = Some st"
| "eval_scripts again c (k # ks) st =
     (if list_ex is_whitespace (cm_words (cmd_of c) ! k)
      then Option.bind (nested_word again c k None st) (eval_scripts again c ks) else eval_scripts again c ks st)"

definition handle_call :: "machine \<Rightarrow> walker option \<Rightarrow> program_call \<Rightarrow> str \<Rightarrow> progress \<Rightarrow> progress option" where
  "handle_call m again c name st =
     (if name = lit ''git'' then git_handle m again c st
      else if name = lit ''gh'' then gh_handle m c st
      else if name \<in> set ENGINE_SHELLS \<and> again \<noteq> None then shell_script (the again) c st
      else if name = lit ''eval'' then eval_scripts again c [cl_at c + 1..<length (cm_words (cmd_of c))] st
      else if again \<noteq> None \<and> list_ex is_whitespace (cm_words (cmd_of c) ! cl_at c) then nested_word again c (cl_at c) None st
      else Some st)"

fun handle_calls :: "machine \<Rightarrow> walker option \<Rightarrow> program_call \<Rightarrow> (nat \<times> str) list \<Rightarrow> progress \<Rightarrow> progress option" where
  "handle_calls m again c [] st = Some st"
| "handle_calls m again c ((k, name) # located) st =
     Option.bind (handle_call m again (c\<lparr>cl_at := k\<rparr>) name st) (handle_calls m again c located)"

section \<open>The walk\<close>

definition follow_cd :: "machine \<Rightarrow> str list \<Rightarrow> str \<Rightarrow> str" where
  "follow_cd m ws dir = (case ws of
     w # target # _ \<Rightarrow> if w = lit ''cd'' \<and> target \<noteq> lit ''-'' then resolve_path m target dir else dir
   | _ \<Rightarrow> dir)"

text \<open>The folder at each depth of parentheses and the group that set it.\<close>

definition enter_depth :: "(nat \<times> str) list \<Rightarrow> nat \<Rightarrow> nat \<Rightarrow> (nat \<times> str) list" where
  "enter_depth dirs depth gr =
     (let grown = dirs @ replicate (depth + 1 - length dirs) (gr, if dirs = [] then [] else snd (last dirs));
          dirs = take (depth + 1) grown in
      if fst (dirs ! depth) \<noteq> gr then dirs[depth := (gr, snd (dirs ! (depth - 1)))] else dirs)"

definition cd_at :: "machine \<Rightarrow> str list \<Rightarrow> (nat \<times> str) list \<Rightarrow> nat \<Rightarrow> (nat \<times> str) list" where
  "cd_at m ws dirs depth = dirs[depth := (fst (dirs ! depth), follow_cd m ws (snd (dirs ! depth)))]"

fun walk_commands :: "machine \<Rightarrow> walker option \<Rightarrow> program_call \<Rightarrow> nat list \<Rightarrow> (nat \<times> str) list \<Rightarrow> progress \<Rightarrow> progress option" where
  "walk_commands m again c [] dirs st = Some st"
| "walk_commands m again c (i # is) dirs st =
     (let cmd = cl_cmds c ! i; dirs = cd_at m (cm_words cmd) (enter_depth dirs (cm_depth cmd) (cm_group cmd)) (cm_depth cmd) in
      Option.bind (handle_calls m again (c\<lparr>cl_index := i, cl_dir := snd (dirs ! cm_depth cmd)\<rparr>) (locate_programs m (cm_words cmd)) st)
        (walk_commands m again c is dirs))"

definition walk_script :: "machine \<Rightarrow> walker option \<Rightarrow> nat \<Rightarrow> walker" where
  "walk_script m again depth script dir inline f =
     (let cmds = commands script in
      map_option (\<lambda>(edits, f). (apply_edits script edits, f))
        (walk_commands m again \<lparr>cl_chars = script, cl_cmds = cmds, cl_index = 0, cl_at = 0, cl_dir = dir, cl_depth = depth, cl_inline = inline\<rparr>
          [0..<length cmds] [(0, dir)] ([], f)))"

text \<open>The first argument counts the scripts that may still nest; the depth is what is missing to the limit.\<close>

fun walk :: "nat \<Rightarrow> machine \<Rightarrow> walker" where
  "walk 0 m = walk_script m None MAX_NESTING"
| "walk (Suc n) m = walk_script m (Some (walk n m)) (MAX_NESTING - Suc n)"

definition no_findings :: findings where
  "no_findings = \<lparr>fn_notes = [], fn_unread = [], fn_signed_off = False, fn_lint = [], fn_lint_hard = False\<rparr>"

definition rewrite_command :: "machine \<Rightarrow> str \<Rightarrow> str \<Rightarrow> (str \<times> findings) option" where
  "rewrite_command m command dir = walk MAX_NESTING m command dir Anywhere no_findings"

section \<open>The hook before a call\<close>

definition may_run_git_or_gh :: "machine \<Rightarrow> str \<Rightarrow> bool" where
  "may_run_git_or_gh m t =
     (let bare = mc_lc m (filter (\<lambda>c. c \<noteq> 39 \<and> c \<noteq> 34 \<and> c \<noteq> 92) t) in
      contains_str bare (lit ''git'') \<or> contains_str bare (lit ''gh''))"

datatype hook_answer = Lint_Denied "(str \<times> str) list" | New_Command str findings | Context findings | Silent

definition has_context :: "findings \<Rightarrow> bool" where
  "has_context f \<longleftrightarrow> fn_notes f \<noteq> [] \<or> fn_unread f \<noteq> [] \<or> fn_signed_off f \<or> fn_lint f \<noteq> []"

definition pre_answer :: "machine \<Rightarrow> str \<Rightarrow> str \<Rightarrow> hook_answer option" where
  "pre_answer m command dir =
     (if \<not> may_run_git_or_gh m command then Some Silent
      else map_option (\<lambda>(rewritten, f).
        if mc_lint_mode m = lit ''block'' \<and> fn_lint_hard f then Lint_Denied (fn_lint f)
        else if rewritten \<noteq> command then New_Command rewritten f
        else if has_context f then Context f else Silent) (rewrite_command m command dir))"

end
