(* ===== verification/Sanitizer_Laws.thy ===== *)
theory Sanitizer_Laws
  imports Sanitizer_Engine
begin

text \<open>What the message sanitizer promises of the commands it rewrites.\<close>

section \<open>No change goes unreported\<close>

definition reported :: "findings \<Rightarrow> bool" where
  "reported f \<longleftrightarrow> fn_notes f \<noteq> [] \<or> fn_signed_off f"

definition keeps_reports :: "findings \<Rightarrow> findings \<Rightarrow> bool" where
  "keeps_reports f f' \<longleftrightarrow> (reported f \<longrightarrow> reported f')"

definition steps_reported :: "progress \<Rightarrow> progress \<Rightarrow> bool" where
  "steps_reported st st' \<longleftrightarrow> keeps_reports (snd st) (snd st') \<and> (fst st' \<noteq> fst st \<longrightarrow> reported (snd st'))"

lemma keeps_refl [simp]: "keeps_reports f f"
  by (simp add: keeps_reports_def)

lemma keeps_trans: "keeps_reports f g \<Longrightarrow> keeps_reports g h \<Longrightarrow> keeps_reports f h"
  by (simp add: keeps_reports_def)

lemma steps_refl [simp]: "steps_reported st st"
  by (simp add: steps_reported_def)

lemma steps_trans: "steps_reported a b \<Longrightarrow> steps_reported b c \<Longrightarrow> steps_reported a c"
  by (auto simp: steps_reported_def keeps_reports_def)

lemma keeps_simps [simp]:
  "keeps_reports f (unread t g) = keeps_reports f g" "keeps_reports (unread t f) g = keeps_reports f g"
  "reported (unread t f) = reported f" "reported (add_note n f)"
  by (simp_all add: keeps_reports_def reported_def unread_def add_note_def)

lemma steps_same_edits: "keeps_reports f f' \<Longrightarrow> steps_reported (es, f) (es, f')"
  by (simp add: steps_reported_def)

lemma steps_findings: "keeps_reports f f' \<Longrightarrow> steps_reported (es, f') st \<Longrightarrow> steps_reported (es, f) st"
  by (auto simp: steps_reported_def keeps_reports_def)

lemma steps_noted [simp]: "steps_reported st (with_note n (add_edit e st))"
  by (simp add: steps_reported_def with_note_def add_edit_def keeps_reports_def)

lemma steps_foldl: "(\<And>st x. x \<in> set xs \<Longrightarrow> steps_reported st (g st x)) \<Longrightarrow> steps_reported st (foldl g st xs)"
proof (induction xs arbitrary: st)
  case (Cons x xs)
  have "steps_reported st (g st x)" "steps_reported (g st x) (foldl g (g st x) xs)"
    using Cons by simp_all
  then show ?case unfolding foldl_Cons by (rule steps_trans)
qed simp

subsection \<open>Sources\<close>

lemma reported_foldl: "ns \<noteq> [] \<or> reported f \<Longrightarrow> reported (foldl (\<lambda>f (n, sh). add_note (Removed_Line l n sh) f) f ns)"
proof (induction ns arbitrary: f)
  case (Cons x ns)
  then show ?case by (cases x) simp
qed simp

lemma rewrite_source_steps: "numbered \<noteq> [] \<Longrightarrow> steps_reported st (rewrite_source s removed numbered st)"
  using reported_foldl[of numbered "snd st" "sr_label s"]
  by (cases st; cases "sr_target s")
     (auto simp: rewrite_source_def Let_def steps_reported_def keeps_reports_def split: option.splits sum.splits)

lemma rewrite_group_steps: "steps_reported st (rewrite_group first removed sources st)"
proof (induction sources arbitrary: first st)
  case (Cons s sources)
  let ?n = "lines_of_text (trim_newlines (sr_text s))"
  let ?numbered = "filter (\<lambda>(k, _). first \<le> k \<and> k < first + ?n) removed"
  let ?st = "if ?numbered = [] then st else rewrite_source s (map (\<lambda>(k, sh). (k + 1 - first, sh)) ?numbered) ?numbered st"
  have "steps_reported st ?st" using rewrite_source_steps by simp
  then show ?case unfolding rewrite_group.simps Let_def by (rule steps_trans) (rule Cons)
qed simp

lemma apply_group_steps: "steps_reported st (apply_group m r gr st)"
proof (cases st)
  case (Pair es f)
  have keeps: "keeps_reports f (f\<lparr>fn_lint_hard := a, fn_lint := b\<rparr>)" for a b
    by (simp add: keeps_reports_def reported_def)
  show ?thesis
    unfolding Pair apply_group_def Let_def prod.case by (rule steps_findings[OF keeps rewrite_group_steps])
qed

lemma apply_sources_steps: "steps_reported st (apply_sources m sources r j st)"
  unfolding apply_sources_def by (rule steps_foldl) (rule apply_group_steps)

lemma from_word_keeps [simp]: "keeps_reports f (snd (from_word m c k i label f))"
  by (auto simp: from_word_def Let_def split: option.splits)

lemma from_file_keeps [simp]: "keeps_reports f (snd (from_file m c named label f))"
  by (auto simp: from_file_def Let_def split: option.splits sum.splits)

lemma from_stdin_keeps:
  assumes "from_stdin m c label f = Some r"
  shows "keeps_reports f (snd r)"
proof (rule from_stdin.raw_induct[where P = "\<lambda>m c label f r. keeps_reports f (snd r)", OF _ assms], goal_cases)
  case (1 rec m c label f r)
  then show ?case
    by (auto simp: Let_def split: if_splits option.splits)
qed

lemma from_path_keeps: "from_path m c named label f = Some r \<Longrightarrow> keeps_reports f (snd r)"
  by (auto simp: from_path_def dest: from_stdin_keeps split: if_splits)

subsection \<open>git\<close>

definition walker_reports :: "walker \<Rightarrow> bool" where
  "walker_reports wk \<longleftrightarrow> (\<forall>t dir inline f r f'. wk t dir inline f = Some (r, f') \<longrightarrow>
     keeps_reports f f' \<and> (r \<noteq> t \<longrightarrow> reported f'))"

lemma nested_word_steps:
  assumes "nested_word again c k skip st = Some st'" "\<And>wk. again = Some wk \<Longrightarrow> walker_reports wk"
  shows "steps_reported st st'"
  using assms
  by (cases st) (auto simp: nested_word_def Let_def steps_reported_def walker_reports_def split: if_splits option.splits)

lemma drop_identity_env_steps: "steps_reported st (drop_identity_env m c st)"
  unfolding drop_identity_env_def by (rule steps_foldl) (auto split: option.splits)

lemma drop_identity_config_steps: "steps_reported st (drop_identity_config m c ks setting st)"
  by (auto simp: drop_identity_config_def Let_def split: option.splits)

lemma skip_globals_steps: "steps_reported st (snd (skip_globals m c k dir st))"
proof (induction "length (cm_words (cmd_of c)) - k" arbitrary: k dir st rule: less_induct)
  case less
  have ih: "steps_reported st' (snd (skip_globals m c k' dir' st'))" if "k < length (cm_words (cmd_of c))" "k < k'" for k' dir' st'
    by (rule less) (use that in simp)
  have config: "steps_reported st (snd (skip_globals m c k' dir' (drop_identity_config m c ks setting st)))"
    if "k < length (cm_words (cmd_of c))" "k < k'" for k' dir' ks setting
    using steps_trans[OF drop_identity_config_steps ih[OF that]] .
  let ?w = "cm_words (cmd_of c) ! k"
  show ?case
  proof (cases "k < length (cm_words (cmd_of c))")
    case True
    consider "?w = lit ''-C''" | "?w \<noteq> lit ''-C''" "?w = lit ''-c''"
      | "?w \<noteq> lit ''-C''" "?w \<noteq> lit ''-c''" "starts_with ?w (lit ''-c'') \<and> \<not> starts_with ?w (lit ''--'')"
      | "?w \<noteq> lit ''-C''" "?w \<noteq> lit ''-c''" "\<not> (starts_with ?w (lit ''-c'') \<and> \<not> starts_with ?w (lit ''--''))" by blast
    then show ?thesis
      by cases (subst skip_globals.simps; use True ih config in \<open>simp add: Let_def\<close>)+
  next
    case False
    then show ?thesis by (subst skip_globals.simps) simp
  qed
qed

lemma message_sources_keeps: "message_sources m c rest opts label f = Some (sources, written, f') \<Longrightarrow> keeps_reports f f'"
proof (induction opts arbitrary: f sources written f')
  case (Cons opt opts)
  let ?k = "ot_value_word opt + rest"
  obtain found g where w: "from_word m c ?k (ot_inline_at opt) label f = (found, g)" by fastforce
  then have g: "keeps_reports f g" using from_word_keeps[of f m c ?k "ot_inline_at opt" label] by simp
  show ?case
  proof (cases "ot_value opt")
    case (Some v)
    consider (other) "message_sources m c rest opts label f = Some (sources, written, f')"
      | (word) xs b where "message_sources m c rest opts label g = Some (xs, b, f')"
      | (path) named r xs b where "from_path m c named label f = Some r" "message_sources m c rest opts label (snd r) = Some (xs, b, f')"
      using Cons.prems Some w
      by (simp add: Let_def split: if_splits) (auto simp: bind_eq_Some_conv)
    then show ?thesis
    proof cases
      case other
      then show ?thesis by (rule Cons.IH)
    next
      case word
      then show ?thesis using Cons.IH keeps_trans[OF g] by blast
    next
      case path
      then show ?thesis using Cons.IH keeps_trans[OF from_path_keeps] by blast
    qed
  qed (use Cons in simp)
qed simp

lemma drop_ai_options_steps: "steps_reported st (drop_ai_options m c rest opts st)"
  unfolding drop_ai_options_def by (rule steps_foldl) (auto simp: Let_def split: option.splits)

lemma reuse_steps: "steps_reported st (snd (reuse m c rest option rev_name st))"
  by (auto simp: reuse_def Let_def apply_sources_steps split: option.splits)

lemma steps_unread [simp]: "steps_reported st (fst st, unread t (snd st))"
  by (simp add: steps_reported_def)

lemma stored_message_steps: "steps_reported st (snd (stored_message m c rest st))"
  by (auto simp: stored_message_def Let_def apply_sources_steps split: option.splits sum.splits)

lemma reused_message_steps: "steps_reported st (snd (reused_message m c rest opts st))"
  by (auto simp: reused_message_def Let_def reuse_steps stored_message_steps split: reused_from.splits)

lemma sign_off_steps: "steps_reported st (sign_off m c rest opts known st)"
  by (auto simp: sign_off_def Let_def steps_reported_def keeps_reports_def reported_def)

lemma git_commit_steps: "git_commit m c rest st = Some st' \<Longrightarrow> steps_reported st st'"
proof -
  assume "git_commit m c rest st = Some st'"
  then obtain sources written f known st2 where s:
    "message_sources m c rest (scan_opts COMMIT (rest_words c rest)) (lit ''the commit message'') (snd st) = Some (sources, written, f)"
    "st' = sign_off m c rest (scan_opts COMMIT (rest_words c rest)) known st2"
    "st2 = drop_ai_options m c rest (scan_opts COMMIT (rest_words c rest)) (apply_sources m sources Commit_Rule True (fst st, f)) \<or>
     st2 = snd (reused_message m c rest (scan_opts COMMIT (rest_words c rest))
       (drop_ai_options m c rest (scan_opts COMMIT (rest_words c rest)) (apply_sources m sources Commit_Rule True (fst st, f))))"
    by (auto simp: git_commit_def Let_def split_def split: if_splits) (metis prod.collapse)+
  let ?a = "apply_sources m sources Commit_Rule True (fst st, f)"
  let ?d = "drop_ai_options m c rest (scan_opts COMMIT (rest_words c rest)) ?a"
  have "keeps_reports (snd st) f" using message_sources_keeps[OF s(1)] .
  then have "steps_reported st ?a" using steps_findings[OF _ apply_sources_steps] by (metis prod.collapse)
  then have "steps_reported st ?d" using drop_ai_options_steps steps_trans by blast
  then have "steps_reported st st2" using s(3) reused_message_steps steps_trans by blast
  then show ?thesis unfolding s(2) using sign_off_steps steps_trans by blast
qed

lemma apply_after: "keeps_reports (snd st) f \<Longrightarrow> steps_reported st (apply_sources m sources r j (fst st, f))"
  using steps_findings[OF _ apply_sources_steps] by (metis prod.collapse)

lemma message_command_steps: "message_command m c rest spec label st = Some st' \<Longrightarrow> steps_reported st st'"
  by (auto simp: message_command_def dest!: message_sources_keeps intro: apply_after)

lemma git_tag_steps: "git_tag m c rest st = Some st' \<Longrightarrow> steps_reported st st'"
  by (auto simp: git_tag_def Let_def dest!: message_sources_keeps
      intro: steps_trans[OF apply_after drop_ai_options_steps])

lemma commit_tree_steps: "commit_tree m c rest st = Some st' \<Longrightarrow> steps_reported st st'"
proof -
  assume "commit_tree m c rest st = Some st'"
  then obtain sources written f xs g where s:
    "message_sources m c rest (scan_opts COMMIT_TREE (rest_words c rest)) (lit ''the commit message'') (snd st) = Some (sources, written, f)"
    "(xs, g) = (sources, f) \<or> from_stdin m c (lit ''the commit message'') f = Some (xs, g)"
    "st' = apply_sources m xs Commit_Rule True (fst st, g)"
    by (auto simp: commit_tree_def Let_def bind_eq_Some_conv split: if_splits) blast+
  have "keeps_reports (snd st) f" by (rule message_sources_keeps[OF s(1)])
  moreover have "keeps_reports f g" using s(2) from_stdin_keeps[of m c _ f "(xs, g)"] by auto
  ultimately show ?thesis unfolding s(3) by (blast intro: apply_after keeps_trans)
qed

lemma nested_values_steps:
  assumes "nested_values again c rest opts st = Some st'" "\<And>wk. again = Some wk \<Longrightarrow> walker_reports wk"
  shows "steps_reported st st'"
  using assms(1)
proof (induction opts arbitrary: st)
  case (Cons opt opts)
  then show ?case
    by (auto simp: bind_eq_Some_conv split: if_splits dest: nested_word_steps[OF _ assms(2)] intro: steps_trans)
qed simp

lemma git_handle_steps:
  assumes "git_handle m again c st = Some st'" "\<And>wk. again = Some wk \<Longrightarrow> walker_reports wk"
  shows "steps_reported st st'"
proof -
  let ?r = "skip_globals m c (cl_at c + 1) (cl_dir c) (drop_identity_env m c st)"
  have globals: "steps_reported st (snd ?r)" by (rule steps_trans[OF drop_identity_env_steps skip_globals_steps])
  have "steps_reported (snd ?r) st'"
    using assms(1)
    by (auto simp: git_handle_def Let_def rebase_def split: prod.splits option.splits if_splits
        dest: git_commit_steps message_command_steps git_tag_steps commit_tree_steps nested_values_steps[OF _ assms(2)])
  with globals show ?thesis by (rule steps_trans)
qed

subsection \<open>gh and scripts\<close>

lemma text_sources_keeps: "text_sources m c rest opts names label f = Some (sources, f') \<Longrightarrow> keeps_reports f f'"
proof (induction opts arbitrary: f sources f')
  case (Cons opt opts)
  let ?k = "ot_value_word opt + rest"
  obtain found g where w: "from_word m c ?k (ot_inline_at opt) label f = (found, g)" by fastforce
  then have g: "keeps_reports f g" using from_word_keeps[of f m c ?k "ot_inline_at opt" label] by simp
  show ?case
  proof (cases "ot_value opt")
    case (Some v)
    consider (other) "text_sources m c rest opts names label f = Some (sources, f')"
      | (word) xs where "text_sources m c rest opts names label g = Some (xs, f')"
      | (path) named r xs where "from_path m c named label f = Some r" "text_sources m c rest opts names label (snd r) = Some (xs, f')"
      using Cons.prems Some w
      by (simp add: Let_def split: if_splits) (auto simp: bind_eq_Some_conv)
    then show ?thesis
    proof cases
      case other
      then show ?thesis by (rule Cons.IH)
    next
      case word
      then show ?thesis using Cons.IH keeps_trans[OF g] by blast
    next
      case path
      then show ?thesis using Cons.IH keeps_trans[OF from_path_keeps] by blast
    qed
  qed (use Cons in simp)
qed simp

lemma title_and_body_steps: "title_and_body m c rest opts l1 l2 r st = Some st' \<Longrightarrow> steps_reported st st'"
proof -
  assume "title_and_body m c rest opts l1 l2 r st = Some st'"
  then obtain title f body g where s:
    "text_sources m c rest opts (map lit [''t'', ''title'']) l1 (snd st) = Some (title, f)"
    "text_sources m c rest opts (map lit [''b'', ''body'', ''F'', ''body-file'']) l2 f = Some (body, g)"
    "st' = apply_sources m body r False (apply_sources m title r False (fst st, g))"
    by (auto simp: title_and_body_def bind_eq_Some_conv)
  have "keeps_reports (snd st) g" using s(1,2) by (blast dest: text_sources_keeps intro: keeps_trans)
  then show ?thesis unfolding s(3) by (blast intro: apply_after apply_sources_steps steps_trans)
qed

lemma gh_handle_steps: "gh_handle m c st = Some st' \<Longrightarrow> steps_reported st st'"
  by (auto simp: gh_handle_def Let_def lint_text_def split: if_splits
      dest!: title_and_body_steps text_sources_keeps intro: apply_after)

lemma heredoc_scripts_steps:
  assumes "heredoc_scripts wk c hs st = Some st'" "walker_reports wk"
  shows "steps_reported st st'"
  using assms(1)
proof (induction hs arbitrary: st)
  case (Cons h hs)
  then obtain r f where w: "wk (hd_text h) (cl_dir c) (if cl_inline c = Anywhere then In_Heredoc h else Nowhere) (snd st) = Some (r, f)"
    and rest: "heredoc_scripts wk c hs (if r \<noteq> hd_text h then fst st @ [(hd_body h, r)] else fst st, f) = Some st'"
    by (auto simp: bind_eq_Some_conv)
  have "keeps_reports (snd st) f \<and> (r \<noteq> hd_text h \<longrightarrow> reported f)" using assms(2) w unfolding walker_reports_def by blast
  then have "steps_reported st (if r \<noteq> hd_text h then fst st @ [(hd_body h, r)] else fst st, f)"
    by (simp add: steps_reported_def)
  with Cons.IH[OF rest] show ?case by (blast intro: steps_trans)
qed simp

lemma shell_script_steps: "shell_script wk c st = Some st' \<Longrightarrow> walker_reports wk \<Longrightarrow> steps_reported st st'"
  by (auto simp: shell_script_def Let_def split: option.splits if_splits
      dest: heredoc_scripts_steps nested_word_steps)

lemma eval_scripts_steps:
  assumes "eval_scripts again c ks st = Some st'" "\<And>wk. again = Some wk \<Longrightarrow> walker_reports wk"
  shows "steps_reported st st'"
  using assms(1)
proof (induction ks arbitrary: st)
  case (Cons k ks)
  then show ?case
    by (auto simp: bind_eq_Some_conv split: if_splits dest: nested_word_steps[OF _ assms(2)] intro: steps_trans)
qed simp

lemma handle_call_steps:
  assumes "handle_call m again c name st = Some st'" "\<And>wk. again = Some wk \<Longrightarrow> walker_reports wk"
  shows "steps_reported st st'"
  using assms(1)
  by (auto simp: handle_call_def split: if_splits
      dest: git_handle_steps[OF _ assms(2)] gh_handle_steps shell_script_steps[OF _ assms(2)] eval_scripts_steps[OF _ assms(2)]
        nested_word_steps[OF _ assms(2)])

lemma handle_calls_steps:
  assumes "handle_calls m again c located st = Some st'" "\<And>wk. again = Some wk \<Longrightarrow> walker_reports wk"
  shows "steps_reported st st'"
  using assms(1)
proof (induction located arbitrary: st)
  case (Cons l located)
  then show ?case
    by (cases l) (auto simp: bind_eq_Some_conv dest: handle_call_steps[OF _ assms(2)] intro: steps_trans)
qed simp

lemma walk_commands_steps:
  assumes "walk_commands m again c ks dirs st = Some st'" "\<And>wk. again = Some wk \<Longrightarrow> walker_reports wk"
  shows "steps_reported st st'"
  using assms(1)
proof (induction ks arbitrary: dirs st)
  case (Cons k ks)
  then show ?case
    by (auto simp: Let_def bind_eq_Some_conv dest: handle_calls_steps[OF _ assms(2)] intro: steps_trans)
qed simp

lemma apply_no_edits [simp]: "apply_edits t [] = t"
  by (simp add: apply_edits_def)

lemma walk_script_reports:
  assumes "\<And>wk. again = Some wk \<Longrightarrow> walker_reports wk"
  shows "walker_reports (walk_script m again depth)"
  unfolding walker_reports_def
proof (intro allI impI)
  fix t dir inline f r f'
  assume "walk_script m again depth t dir inline f = Some (r, f')"
  then obtain edits where e: "walk_commands m again \<lparr>cl_chars = t, cl_cmds = commands t, cl_index = 0, cl_at = 0, cl_dir = dir,
      cl_depth = depth, cl_inline = inline\<rparr> [0..<length (commands t)] [(0, dir)] ([], f) = Some (edits, f')" "r = apply_edits t edits"
    by (auto simp: walk_script_def Let_def)
  from walk_commands_steps[OF e(1) assms] e(2) show "keeps_reports f f' \<and> (r \<noteq> t \<longrightarrow> reported f')"
    by (auto simp: steps_reported_def)
qed

lemma walk_reports: "walker_reports (walk n m)"
  by (induction n) (auto intro!: walk_script_reports)

end
