(* ===== verification/Attribution_Laws.thy ===== *)
theory Attribution_Laws
  imports Attribution
begin

text \<open>What removing attribution keeps and what it leaves.\<close>

section \<open>Pieces of a text\<close>

fun proper :: "str list \<Rightarrow> bool" where
  "proper [] \<longleftrightarrow> True"
| "proper [p] \<longleftrightarrow> p \<noteq> [] \<and> 10 \<notin> set (butlast p)"
| "proper (p # q # ps) \<longleftrightarrow> p \<noteq> [] \<and> 10 \<notin> set (butlast p) \<and> last p = 10 \<and> proper (q # ps)"

lemma proper_Cons: "proper (p # ps) \<longleftrightarrow> p \<noteq> [] \<and> 10 \<notin> set (butlast p) \<and> (ps = [] \<or> last p = 10) \<and> proper ps"
  by (cases ps) auto

lemma pieces_not_Nil [simp]: "pieces (c # cs) \<noteq> []"
  by (auto split: list.splits)

lemma concat_pieces [simp]: "concat (pieces t) = t"
  by (induction t) (auto split: list.splits)

lemma proper_pieces: "proper (pieces t)"
proof (induction t)
  case (Cons c t)
  then show ?case by (cases "pieces t") (auto simp: proper_Cons)
qed simp

lemma pieces_line: "10 \<notin> set a \<Longrightarrow> pieces (a @ 10 # s) = (a @ [10]) # pieces s"
  by (induction a) auto

lemma pieces_end: "10 \<notin> set a \<Longrightarrow> a \<noteq> [] \<Longrightarrow> pieces a = [a]"
proof (induction a)
  case (Cons c a)
  then show ?case by (cases a) auto
qed simp

lemma pieces_concat: "proper ps \<Longrightarrow> pieces (concat ps) = ps"
proof (induction ps)
  case (Cons p ps)
  show ?case
  proof (cases "last p = 10")
    case True
    from Cons.prems have p: "p \<noteq> []" "10 \<notin> set (butlast p)" by (simp_all add: proper_Cons)
    from p(1) True have "p = butlast p @ [10]" by (metis append_butlast_last_id)
    moreover have "pieces (concat ps) = ps" using Cons by (simp add: proper_Cons)
    ultimately show ?thesis using pieces_line[OF p(2), of "concat ps"] by (metis append.assoc append_Cons append_Nil concat.simps(2))
  next
    case False
    with Cons.prems have "ps = []" "10 \<notin> set p" "p \<noteq> []"
      by (auto simp: proper_Cons) (metis append_butlast_last_id in_set_conv_decomp last_snoc rotate1.simps set_ConsD set_rotate1)
    then show ?thesis using pieces_end by simp
  qed
qed simp

lemma proper_last: "proper (ps @ [p]) \<Longrightarrow> p \<noteq> [] \<and> 10 \<notin> set (butlast p)"
  by (induction ps) (auto simp: proper_Cons)

lemma proper_replace: "proper (ps @ [p]) \<Longrightarrow> q \<noteq> [] \<Longrightarrow> 10 \<notin> set q \<Longrightarrow> proper (ps @ [q])"
  by (induction ps) (auto simp: proper_Cons dest: in_set_butlastD)

lemma proper_subseq: "subseq xs ys \<Longrightarrow> proper ys \<Longrightarrow> proper xs"
proof (induction rule: list_emb.induct)
  case (list_emb_Cons2 x y xs ys)
  then have "xs \<noteq> [] \<Longrightarrow> ys \<noteq> []" by auto
  with list_emb_Cons2 show ?case by (auto simp: proper_Cons)
qed (auto simp: proper_Cons)

section \<open>Line breaks\<close>

lemma trim_breaks_snoc: "trim_breaks (s @ [c]) = (if is_break c then trim_breaks s else s @ [c])"
  by (simp add: trim_breaks_def)

lemma trim_breaks_prefix: "\<exists>u. s = trim_breaks s @ u \<and> list_all is_break u"
proof (induction s rule: rev_induct)
  case (snoc c s)
  then obtain u where "s = trim_breaks s @ u" "list_all is_break u" by blast
  then show ?case by (auto simp: trim_breaks_snoc intro!: exI[of _ "u @ [c]"])
qed (simp add: trim_breaks_def)

lemma trim_breaks_idem [simp]: "trim_breaks (trim_breaks s) = trim_breaks s"
  by (induction s rule: rev_induct) (auto simp: trim_breaks_snoc, simp add: trim_breaks_def)

lemma break_is_whitespace: "is_break c \<Longrightarrow> is_whitespace c"
  by (auto simp: is_break_def is_whitespace_def)

lemma blank_iff: "blank s \<longleftrightarrow> list_all is_whitespace s"
  by (auto simp: blank_def trim_def trim_start_def trim_end_def list_all_iff dropWhile_eq_Nil_conv
      dest: set_dropWhileD) (metis dropWhile_eq_Nil_conv hd_dropWhile list.set_sel(1) set_rev)

lemma blank_trim_breaks [simp]: "blank (trim_breaks s) \<longleftrightarrow> blank s"
proof -
  obtain u where "s = trim_breaks s @ u" "list_all is_break u" using trim_breaks_prefix by blast
  then have "blank s \<longleftrightarrow> list_all is_whitespace (trim_breaks s @ u)" by (simp add: blank_iff)
  moreover have "list_all is_whitespace u" using \<open>list_all is_break u\<close> break_is_whitespace by (auto simp: list_all_iff)
  ultimately show ?thesis by (simp add: blank_iff)
qed

lemma trim_breaks_append: "trim_breaks b \<noteq> [] \<Longrightarrow> trim_breaks (a @ b) = a @ trim_breaks b"
  by (induction b rule: rev_induct) (auto simp: trim_breaks_snoc trim_breaks_def simp flip: append_assoc)

lemma set_trim_breaks: "set (trim_breaks s) \<subseteq> set s"
  using trim_breaks_prefix[of s] by (metis set_append sup_ge1)

lemma no_inner_break: "10 \<notin> set (butlast x) \<Longrightarrow> 10 \<notin> set (trim_breaks x)"
proof (cases x rule: rev_cases)
  case (snoc y c)
  then show "10 \<notin> set (butlast x) \<Longrightarrow> 10 \<notin> set (trim_breaks x)"
    using set_trim_breaks[of y] by (auto simp: trim_breaks_snoc is_break_def)
qed (simp add: trim_breaks_def)

text \<open>The lines of a text without their line breaks.\<close>

definition contents :: "str \<Rightarrow> str list" where
  "contents t = map trim_breaks (pieces t)"

section \<open>Tidying\<close>

definition tidied :: "str list \<Rightarrow> str list" where
  "tidied kept = dropWhile blank (rev (dropWhile blank (rev kept)))"

lemma last_dropWhile: "dropWhile P xs = [] \<or> last (dropWhile P xs) = last xs"
  by (induction xs) auto

lemma tidied_last: "tidied kept = [] \<or> \<not> blank (last (tidied kept))"
proof (cases "dropWhile blank (rev kept)")
  case (Cons x xs)
  then have "\<not> blank x" by (metis hd_dropWhile list.distinct(1) list.sel(1))
  then show ?thesis using last_dropWhile[of blank "rev (x # xs)"] by (simp add: tidied_def Cons)
next
  case Nil
  then show ?thesis unfolding tidied_def Nil by simp
qed

lemma subseq_dropWhile: "subseq (dropWhile P xs) xs"
  by (metis list_emb_append2 subseq_order.order_refl takeWhile_dropWhile_id)

lemma subseq_tidied: "subseq (tidied kept) kept"
proof -
  let ?a = "rev (dropWhile blank (rev kept))"
  have eq: "?a @ rev (takeWhile blank (rev kept)) = kept" by (simp flip: rev_append)
  have "subseq ?a (?a @ rev (takeWhile blank (rev kept)))" by (rule prefix_imp_subseq) simp
  then have "subseq ?a kept" by (simp only: eq)
  then show ?thesis unfolding tidied_def using subseq_dropWhile subseq_order.order_trans by blast
qed

lemma filter_dropWhile_blank: "filter (\<lambda>l. \<not> blank l) (dropWhile blank xs) = filter (\<lambda>l. \<not> blank l) xs"
  by (induction xs) auto

lemma filter_tidied: "filter (\<lambda>l. \<not> blank l) (tidied kept) = filter (\<lambda>l. \<not> blank l) kept"
  unfolding tidied_def by (simp add: filter_dropWhile_blank rev_filter[symmetric])

lemma contents_tidy:
  assumes "proper kept" "e \<longrightarrow> list_all (\<lambda>p. last p = 10) kept"
  shows "contents (tidy kept e) = map trim_breaks (tidied kept)"
proof -
  let ?ks = "tidied kept"
  have p: "proper ?ks" by (rule proper_subseq[OF subseq_tidied assms(1)])
  have concat: "contents (concat ?ks) = map trim_breaks ?ks" by (simp add: contents_def pieces_concat[OF p])
  show ?thesis
  proof (cases "?ks = []")
    case True
    then have "tidy kept e = []" by (simp add: tidy_def Let_def tidied_def[symmetric] trim_breaks_def)
    with True show ?thesis by (simp add: contents_def)
  next
    case False
    then obtain xs x where ks: "?ks = xs @ [x]" by (metis rev_exhaust)
    with p have x: "x \<noteq> []" "10 \<notin> set (butlast x)" using proper_last by auto
    have nb: "\<not> blank x" using tidied_last[of kept] ks by simp
    show ?thesis
    proof (cases e)
      case True
      have "set ?ks \<subseteq> set kept" unfolding tidied_def by (auto dest!: set_dropWhileD)
      with True assms(2) ks have "last x = 10" by (auto simp: list_all_iff)
      then have "tidy kept e = concat ?ks" using True x(1)
        by (simp add: tidy_def Let_def tidied_def[symmetric] ks)
      with concat show ?thesis by simp
    next
      case False
      have tx: "trim_breaks x \<noteq> []" using nb blank_trim_breaks[of x] by (auto simp: blank_def trim_def trim_start_def trim_end_def)
      have "10 \<notin> set (trim_breaks x)" by (rule no_inner_break[OF x(2)])
      then have "proper (xs @ [trim_breaks x])"
        using proper_replace p ks tx by simp
      from pieces_concat[OF this] have "pieces (concat xs @ trim_breaks x) = xs @ [trim_breaks x]" by simp
      moreover have "tidy kept e = concat xs @ trim_breaks x"
        using False tx by (simp add: tidy_def Let_def tidied_def[symmetric] ks trim_breaks_append)
      ultimately show ?thesis by (simp add: contents_def ks)
    qed
  qed
qed

section \<open>Dropping lines\<close>

lemma drop_step_apply: "drop_step gone (ks, b) (i, l) =
    (if i + 1 \<in> gone then (ks, True) else if blank l \<and> b \<and> (ks = [] \<or> blank (last ks)) then (ks, b)
     else (ks @ [l], b \<and> blank l))"
  by (simp add: drop_step_def)

lemma drop_extends: "\<exists>ys. fst (foldl (drop_step gone) (ks, b) ps) = ks @ ys"
proof (induction ps arbitrary: ks b)
  case (Cons p ps)
  obtain ks' b' where s: "drop_step gone (ks, b) p = (ks', b')" by (cases "drop_step gone (ks, b) p")
  then have "\<exists>zs. ks' = ks @ zs" by (auto simp: drop_step_def split: prod.splits if_splits)
  with Cons.IH[of ks' b'] s show ?case by auto
qed simp

lemma dropped:
  "fst (foldl (drop_step gone) (ks, b) (enumerate i ps)) = ks @ xs \<Longrightarrow> subseq xs ps \<and>
     set xs \<subseteq> {p. \<exists>j < length ps. p = ps ! j \<and> i + j + 1 \<notin> gone} \<and>
     filter (\<lambda>l. \<not> blank l) xs = filter (\<lambda>l. \<not> blank l) (map snd (filter (\<lambda>(j, _). j + 1 \<notin> gone) (enumerate i ps)))"
proof (induction ps arbitrary: i ks b xs)
  case (Cons p ps)
  have shift: "{q. \<exists>j < length ps. q = ps ! j \<and> Suc i + j + 1 \<notin> gone} \<subseteq> {q. \<exists>j < length (p # ps). q = (p # ps) ! j \<and> i + j + 1 \<notin> gone}"
    by (safe, rule_tac x = "Suc j" in exI, simp)
  consider (drop) "i + 1 \<in> gone" | (skip) "i + 1 \<notin> gone" "blank p" "b" "ks = [] \<or> blank (last ks)"
    | (keep) "i + 1 \<notin> gone" "\<not> (blank p \<and> b \<and> (ks = [] \<or> blank (last ks)))" by blast
  then show ?case
  proof cases
    case drop
    with Cons.prems have "fst (foldl (drop_step gone) (ks, True) (enumerate (Suc i) ps)) = ks @ xs" by (simp add: drop_step_apply)
    from Cons.IH[OF this] have ih: "subseq xs ps" "set xs \<subseteq> {q. \<exists>j < length ps. q = ps ! j \<and> Suc i + j + 1 \<notin> gone}"
      "filter (\<lambda>l. \<not> blank l) xs = filter (\<lambda>l. \<not> blank l) (map snd (filter (\<lambda>(j, _). j + 1 \<notin> gone) (enumerate (Suc i) ps)))"
      by blast+
    from subset_trans[OF ih(2) shift] ih(1,3) drop show ?thesis by (simp add: list_emb_Cons)
  next
    case skip
    with Cons.prems have "fst (foldl (drop_step gone) (ks, b) (enumerate (Suc i) ps)) = ks @ xs" by (simp add: drop_step_apply)
    from Cons.IH[OF this] have ih: "subseq xs ps" "set xs \<subseteq> {q. \<exists>j < length ps. q = ps ! j \<and> Suc i + j + 1 \<notin> gone}"
      "filter (\<lambda>l. \<not> blank l) xs = filter (\<lambda>l. \<not> blank l) (map snd (filter (\<lambda>(j, _). j + 1 \<notin> gone) (enumerate (Suc i) ps)))"
      by blast+
    from subset_trans[OF ih(2) shift] ih(1,3) skip(1,2) show ?thesis by (simp add: list_emb_Cons)
  next
    case keep
    then have "fst (foldl (drop_step gone) (ks @ [p], b \<and> blank p) (enumerate (Suc i) ps)) = ks @ xs"
      using Cons.prems by (auto simp: drop_step_apply)
    moreover obtain ys where ys: "fst (foldl (drop_step gone) (ks @ [p], b \<and> blank p) (enumerate (Suc i) ps)) = (ks @ [p]) @ ys"
      using drop_extends by blast
    ultimately have xs: "xs = p # ys" by simp
    from Cons.IH[OF ys] have ih: "subseq ys ps" "set ys \<subseteq> {q. \<exists>j < length ps. q = ps ! j \<and> Suc i + j + 1 \<notin> gone}"
      "filter (\<lambda>l. \<not> blank l) ys = filter (\<lambda>l. \<not> blank l) (map snd (filter (\<lambda>(j, _). j + 1 \<notin> gone) (enumerate (Suc i) ps)))"
      by blast+
    have "p \<in> {q. \<exists>j < length (p # ps). q = (p # ps) ! j \<and> i + j + 1 \<notin> gone}"
      using keep(1) by (auto intro!: exI[of _ 0])
    with subset_trans[OF ih(2) shift] ih(1,3) keep(1) show ?thesis unfolding xs by simp
  qed
qed simp

text \<open>What is left of a text, whichever lines go.\<close>

definition kept_pieces :: "str \<Rightarrow> nat set \<Rightarrow> str list" where
  "kept_pieces t gone = fst (foldl (drop_step gone) ([], False) (enumerate 0 (pieces t)))"

lemma kept_pieces:
  shows "subseq (kept_pieces t gone) (pieces t)"
    and "set (kept_pieces t gone) \<subseteq> {p. \<exists>j < length (pieces t). p = pieces t ! j \<and> j + 1 \<notin> gone}"
    and "filter (\<lambda>l. \<not> blank l) (kept_pieces t gone) =
      filter (\<lambda>l. \<not> blank l) (map snd (filter (\<lambda>(j, _). j + 1 \<notin> gone) (enumerate 0 (pieces t))))"
  using dropped[of gone "[]" False 0 "pieces t" "kept_pieces t gone"] by (simp_all add: kept_pieces_def)

lemma pieces_newline: "t \<noteq> [] \<Longrightarrow> last t = 10 \<Longrightarrow> list_all (\<lambda>p. last p = 10) (pieces t)"
proof -
  assume t: "t \<noteq> []" "last t = 10"
  have "proper ps \<Longrightarrow> ps = [] \<or> last (concat ps) = 10 \<Longrightarrow> list_all (\<lambda>p. last p = 10) ps" for ps
  proof (induction ps)
    case (Cons p ps)
    then show ?case by (cases ps) (auto simp: proper_Cons)
  qed simp
  with proper_pieces[of t] t show ?thesis by simp
qed

lemma contents_drop_lines:
  "removed \<noteq> [] \<Longrightarrow> contents (drop_lines t removed) = map trim_breaks (tidied (kept_pieces t (set (map fst removed))))"
proof -
  assume r: "removed \<noteq> []"
  let ?k = "kept_pieces t (set (map fst removed))" and ?e = "t \<noteq> [] \<and> last t = 10"
  have "proper ?k" using proper_subseq[OF kept_pieces(1) proper_pieces] .
  moreover have "set ?k \<subseteq> set (pieces t)" using kept_pieces(2)[of t "set (map fst removed)"] by auto
  then have "?e \<longrightarrow> list_all (\<lambda>p. last p = 10) ?k" using pieces_newline[of t] by (auto simp: list_all_iff)
  ultimately have "contents (tidy ?k ?e) = map trim_breaks (tidied ?k)" by (rule contents_tidy)
  with r show ?thesis by (simp add: drop_lines_def kept_pieces_def)
qed

text \<open>The lines of a text that no removal names.\<close>

definition surviving :: "(nat \<times> shape) list \<Rightarrow> str \<Rightarrow> str list" where
  "surviving removed t = map snd (filter (\<lambda>(j, _). j + 1 \<notin> set (map fst removed)) (enumerate 0 (contents t)))"

definition text_of :: "str list \<Rightarrow> str list" where
  "text_of ls = filter (\<lambda>l. \<not> blank l) ls"

lemma text_of_trim_breaks: "text_of (map trim_breaks ls) = map trim_breaks (filter (\<lambda>l. \<not> blank l) ls)"
  by (induction ls) (auto simp: text_of_def)

text \<open>
  C9. Removing attribution loses nothing else: the lines of the result that are not blank are the
  lines of the message that are not blank and not reported as removed, in order, whatever is removed.
\<close>

theorem only_reported_lines_go:
  "text_of (contents (sn_text (scan lt t trailer_rule))) = text_of (surviving (sn_removed (scan lt t trailer_rule)) t)"
proof (cases "sn_removed (scan lt t trailer_rule) = []")
  case True
  then have "sn_text (scan lt t trailer_rule) = t" by (auto simp: scan_def drop_lines_def Let_def)
  with True show ?thesis by (simp add: surviving_def filter_id_conv)
next
  case False
  let ?r = "sn_removed (scan lt t trailer_rule)"
  let ?P = "\<lambda>(j, _). j + 1 \<notin> set (map fst ?r)"
  have enum: "map snd (filter ?P (enumerate i (map trim_breaks ps))) = map trim_breaks (map snd (filter ?P (enumerate i ps)))" for i ps
    by (induction ps arbitrary: i) auto
  have t: "sn_text (scan lt t trailer_rule) = drop_lines t ?r" by (simp add: scan_def Let_def)
  have "text_of (contents (drop_lines t ?r)) =
      map trim_breaks (filter (\<lambda>l. \<not> blank l) (map snd (filter ?P (enumerate 0 (pieces t)))))"
    by (simp only: contents_drop_lines[OF False] text_of_trim_breaks filter_tidied kept_pieces(3))
  also have "\<dots> = text_of (surviving ?r t)"
    unfolding surviving_def contents_def enum text_of_trim_breaks ..
  finally show ?thesis unfolding t .
qed

section \<open>Free text is clean after one pass\<close>

lemma removed_prose:
  "removed_from lt None i 0 ls = concat (map (\<lambda>(j, l). case classify_line lt l False of None \<Rightarrow> [] | Some sh \<Rightarrow> [(j + 1, sh)]) (enumerate i ls))"
  by (induction ls arbitrary: i) (auto simp: continuations_def split: option.splits)

lemma prose_removed: "sn_removed (sanitize_prose lt t) =
    concat (map (\<lambda>(j, l). case classify_line lt l False of None \<Rightarrow> [] | Some sh \<Rightarrow> [(j + 1, sh)]) (enumerate 0 (contents t)))"
  by (simp add: sanitize_prose_def scan_def Let_def removed_lines_def removed_prose contents_def)

lemma prose_clean_iff: "sn_removed (sanitize_prose lt t) = [] \<longleftrightarrow> list_all (\<lambda>l. classify_line lt l False = None) (contents t)"
proof -
  have "concat (map (\<lambda>(j, l). case classify_line lt l False of None \<Rightarrow> [] | Some sh \<Rightarrow> [(j + 1, sh)]) (enumerate i ls)) = [] \<longleftrightarrow>
      list_all (\<lambda>l. classify_line lt l False = None) ls" for i ls
    by (induction ls arbitrary: i) (auto split: option.splits)
  then show ?thesis unfolding prose_removed .
qed

text \<open>
  C10. One pass over free text such as the body of a pull request leaves no attribution: every line of
  the result, read again, carries none of its shapes, so a second pass changes nothing.
\<close>

theorem prose_is_clean:
  "prose_problems lt (sn_text (sanitize_prose lt t)) = [] \<and>
   sn_text (sanitize_prose lt (sn_text (sanitize_prose lt t))) = sn_text (sanitize_prose lt t)"
proof -
  let ?r = "sn_removed (sanitize_prose lt t)"
  have t: "sn_text (sanitize_prose lt t) = drop_lines t ?r" by (simp add: sanitize_prose_def scan_def Let_def)
  have "list_all (\<lambda>l. classify_line lt l False = None) (contents (drop_lines t ?r))"
  proof (cases "?r = []")
    case True
    then show ?thesis using prose_clean_iff by (simp add: drop_lines_def)
  next
    case False
    have "classify_line lt (trim_breaks p) False = None" if p: "p \<in> set (tidied (kept_pieces t (set (map fst ?r))))" for p
    proof (rule ccontr)
      assume c: "classify_line lt (trim_breaks p) False \<noteq> None"
      have "p \<in> set (kept_pieces t (set (map fst ?r)))" using p unfolding tidied_def by (auto dest!: set_dropWhileD)
      with kept_pieces(2) obtain j where j: "j < length (pieces t)" "p = pieces t ! j" "j + 1 \<notin> set (map fst ?r)" by blast
      from c obtain sh where "classify_line lt (contents t ! j) False = Some sh" using j(1,2) by (auto simp: contents_def)
      moreover have "(j, contents t ! j) \<in> set (enumerate 0 (contents t))" using j(1) by (simp add: in_set_enumerate_eq contents_def)
      ultimately have "(j + 1, sh) \<in> set ?r" unfolding prose_removed by force
      with j(3) show False by (metis fst_conv image_eqI list.set_map)
    qed
    then show ?thesis unfolding contents_drop_lines[OF False] by (simp add: list_all_iff)
  qed
  then have "sn_removed (sanitize_prose lt (sn_text (sanitize_prose lt t))) = []" unfolding t prose_clean_iff .
  then show ?thesis by (simp add: prose_problems_def sanitize_prose_def scan_def Let_def drop_lines_def)
qed


section \<open>Editor files\<close>

definition template_lines :: "str list \<Rightarrow> bool" where
  "template_lines ps \<longleftrightarrow> list_all (\<lambda>p. blank p \<or> starts_with p (lit ''#'')) ps"

text \<open>What the scan of a file knows of the lines read so far.\<close>

definition suffix_at :: "str list \<Rightarrow> nat option \<Rightarrow> (str list \<Rightarrow> bool) \<Rightarrow> bool" where
  "suffix_at ps k0 P \<longleftrightarrow> (case k0 of None \<Rightarrow> True
     | Some k \<Rightarrow> \<exists>as bs. ps = as @ bs \<and> bs \<noteq> [] \<and> length (concat as) = k \<and> P bs)"

definition scanned_inv :: "str list \<Rightarrow> template_scan \<Rightarrow> bool" where
  "scanned_inv ps s \<longleftrightarrow> ts_offset s = length (concat ps) \<and>
     suffix_at ps (ts_scissors s) (\<lambda>bs. trim_breaks (hd bs) = SCISSORS) \<and>
     suffix_at ps (ts_run s) template_lines \<and> suffix_at ps (ts_blank s) (list_all blank)"

lemma suffix_at_snoc: "suffix_at ps k0 P \<Longrightarrow> (\<And>bs. bs \<noteq> [] \<Longrightarrow> P bs \<Longrightarrow> Q (bs @ [p])) \<Longrightarrow> suffix_at (ps @ [p]) k0 Q"
  by (fastforce simp: suffix_at_def split: option.splits)

lemma suffix_at_new: "P [p] \<Longrightarrow> suffix_at (ps @ [p]) (Some (length (concat ps))) P"
  unfolding suffix_at_def by fastforce

lemma starts_with_trim_breaks: "starts_with (trim_breaks p) (lit ''#'') \<Longrightarrow> starts_with p (lit ''#'')"
proof -
  assume "starts_with (trim_breaks p) (lit ''#'')"
  moreover obtain u where "p = trim_breaks p @ u" using trim_breaks_prefix by blast
  ultimately show ?thesis by (metis starts_with_prefix prefix_prefix)
qed

lemma template_step_inv: "scanned_inv ps s \<Longrightarrow> scanned_inv (ps @ [p]) (template_step s p)"
proof -
  assume inv: "scanned_inv ps s"
  let ?c = "trim_breaks p" and ?s = "template_step s p"
  have off: "ts_offset s = length (concat ps)" using inv by (simp add: scanned_inv_def)
  have sc: "ts_scissors ?s = (if ts_scissors s = None \<and> ?c = SCISSORS then Some (ts_offset s) else ts_scissors s)"
    by (simp add: template_step_def Let_def)
  have rn: "ts_run ?s = (if blank p then ts_run s else if starts_with ?c (lit ''#'')
      then Some (case ts_run s of Some r \<Rightarrow> r | None \<Rightarrow> case ts_blank s of None \<Rightarrow> ts_offset s | Some b \<Rightarrow> b) else None)"
    by (simp add: template_step_def Let_def split: option.splits)
  have bl: "ts_blank ?s = (if blank p then Some (case ts_blank s of None \<Rightarrow> ts_offset s | Some b \<Rightarrow> b) else None)"
    by (simp add: template_step_def Let_def split: option.splits)
  have "ts_offset ?s = length (concat (ps @ [p]))" using off by (simp add: template_step_def Let_def)
  moreover have "suffix_at (ps @ [p]) (ts_scissors ?s) (\<lambda>bs. trim_breaks (hd bs) = SCISSORS)"
    unfolding sc off using inv by (auto simp: scanned_inv_def intro!: suffix_at_new elim!: suffix_at_snoc)
  moreover have "suffix_at (ps @ [p]) (ts_blank ?s) (list_all blank)"
    unfolding bl off using inv
    by (auto simp: scanned_inv_def suffix_at_def[of _ None] intro!: suffix_at_new elim!: suffix_at_snoc split: option.splits)
  moreover have "suffix_at (ps @ [p]) (ts_run ?s) template_lines"
  proof (cases "blank p")
    case True
    then show ?thesis unfolding rn using inv
      by (auto simp: scanned_inv_def template_lines_def elim!: suffix_at_snoc)
  next
    case False
    show ?thesis
    proof (cases "starts_with ?c (lit ''#'')")
      case True
      then have hash: "starts_with p (lit ''#'')" by (rule starts_with_trim_breaks)
      have grow: "\<And>bs. template_lines bs \<Longrightarrow> template_lines (bs @ [p])" "\<And>bs. list_all blank bs \<Longrightarrow> template_lines (bs @ [p])"
        using hash by (auto simp: template_lines_def list_all_iff)
      show ?thesis
        using inv False True hash grow unfolding rn off scanned_inv_def
        by (auto intro!: suffix_at_new suffix_at_snoc[of ps] split: option.splits simp: template_lines_def[of "[p]"])
    qed (use False rn in \<open>simp add: suffix_at_def\<close>)
  qed
  ultimately show ?thesis by (simp add: scanned_inv_def)
qed

lemma template_scanned_inv: "scanned_inv ps (template_scanned ps)"
proof (induction ps rule: rev_induct)
  case (snoc p ps)
  then show ?case using template_step_inv by (simp add: template_scanned_def)
qed (simp add: template_scanned_def scanned_inv_def suffix_at_def)

lemma pieces_suffix: "pieces t = as @ bs \<Longrightarrow> pieces (drop (length (concat as)) t) = bs"
proof -
  assume p: "pieces t = as @ bs"
  then have "t = concat as @ concat bs" by (metis concat_append concat_pieces)
  moreover have "proper bs" using proper_pieces[of t] p proper_subseq[of bs "pieces t"] by (simp add: list_emb_append2)
  ultimately show ?thesis using pieces_concat by simp
qed

text \<open>A template git appended: from the scissors line down, or only comments and blank lines that carry no attribution.\<close>

definition git_template :: "letters \<Rightarrow> str \<Rightarrow> bool" where
  "git_template lt t \<longleftrightarrow> (pieces t \<noteq> [] \<and> trim_breaks (hd (pieces t)) = SCISSORS) \<or>
     (template_lines (pieces t) \<and> list_all (\<lambda>l. classify_line lt l False = None) (text_lines t))"

text \<open>
  C11. An editor file is split without loss into a message and a template, and the part that is kept
  without being read is only what git put there: it starts with the scissors line, or it holds nothing
  but comments and blank lines, none of which carries attribution. The result is the cleaned message
  and that template, byte for byte.
\<close>

theorem editor_template_is_gits:
  "fst (split_template lt raw) @ snd (split_template lt raw) = raw \<and>
   (snd (split_template lt raw) = [] \<or> git_template lt (snd (split_template lt raw))) \<and>
   sn_text (sanitize_editor lt raw) = sn_text (sanitize lt (fst (split_template lt raw))) @ snd (split_template lt raw)"
proof -
  let ?s = "template_scanned (pieces raw)"
  have inv: "scanned_inv (pieces raw) ?s" by (rule template_scanned_inv)
  have "snd (split_template lt raw) = [] \<or> git_template lt (snd (split_template lt raw))"
  proof (cases "ts_scissors ?s")
    case (Some k)
    with inv obtain as bs where "pieces raw = as @ bs" "bs \<noteq> []" "length (concat as) = k" "trim_breaks (hd bs) = SCISSORS"
      by (auto simp: scanned_inv_def suffix_at_def)
    with pieces_suffix have "pieces (drop k raw) = bs" by blast
    with Some \<open>bs \<noteq> []\<close> \<open>trim_breaks (hd bs) = SCISSORS\<close> show ?thesis by (simp add: split_template_def git_template_def)
  next
    case None
    show ?thesis
    proof (cases "ts_run ?s")
      case (Some k)
      with inv obtain as bs where "pieces raw = as @ bs" "length (concat as) = k" "template_lines bs"
        by (auto simp: scanned_inv_def suffix_at_def)
      with pieces_suffix have "template_lines (pieces (drop k raw))" by blast
      with Some None show ?thesis by (auto simp: split_template_def git_template_def list_ex_iff list_all_iff)
    qed (use None in \<open>simp add: split_template_def\<close>)
  qed
  moreover have "fst (split_template lt raw) @ snd (split_template lt raw) = raw"
    by (simp add: split_template_def Let_def split: option.splits)
  ultimately show ?thesis by (simp add: sanitize_editor_def Let_def split_def)
qed

section \<open>One pass over a commit message\<close>

definition sample_letters :: letters where
  "sample_letters = \<lparr>lt_lc = map to_ascii_lower, lt_alnum = is_ascii_alnum\<rparr>"

definition two_blocks :: str where
  "two_blocks = lit ''a'' @ [10, 10] @ lit ''M: Claude'' @ [10, 10] @ lit ''Claude-Session: x'' @ [10]"

definition one_block :: str where
  "one_block = lit ''a'' @ [10, 10] @ lit ''M: Claude'' @ [10]"

lemmas classify_defs = classify_line_def is_claude_link_def has_session_id_def is_footer_def names_ai_def names_devin_def
  trailer_def find_separator_def strict_trailer_def starts_blank_def credits_ai_def is_product_name_def name_and_address_def
  known_word_def PRODUCT_WORDS_def is_credit_token_def ends_with_def starts_with_def eq_ignore_ascii_case_def trim_def
  trim_start_def trim_end_def is_whitespace_def is_ascii_alnum_def is_ascii_lower_def is_ascii_upper_def is_ascii_digit_def
  to_ascii_lower_def sample_letters_def FOOTER_PHRASES_def AI_NAMES_def rsplit_once_def lit_def

lemma classify_samples:
  "classify_line sample_letters (lit ''a'') False = None" "classify_line sample_letters [] b = None"
  "classify_line sample_letters (lit ''M: Claude'') False = None" "classify_line sample_letters (lit ''M: Claude'') True = Some AiTrailer"
  "classify_line sample_letters (lit ''Claude-Session: x'') True = Some SessionTrailer"
  by (simp_all add: classify_defs)

lemma two_blocks_lines:
  "map trim_breaks (pieces two_blocks) = [lit ''a'', [], lit ''M: Claude'', [], lit ''Claude-Session: x'']"
  "map trim_breaks (pieces one_block) = [lit ''a'', [], lit ''M: Claude'']"
  by (simp_all add: two_blocks_def one_block_def lit_def trim_breaks_def is_break_def)

lemmas block_defs = trailer_block_def first_blank_def GIT_GENERATED_PREFIXES_def blank_def starts_blank_def
  find_separator_def starts_with_def trim_def trim_start_def trim_end_def is_whitespace_def is_ascii_alnum_def
  is_ascii_lower_def is_ascii_upper_def is_ascii_digit_def lit_def

lemma block_of_lines:
  "trailer_block [lit ''a'', [], lit ''M: Claude'', [], lit ''Claude-Session: x''] = Some 4"
  "trailer_block [lit ''a'', [], lit ''M: Claude''] = Some 2"
  by (simp_all add: block_defs)

lemma removed_of_lines:
  "removed_lines sample_letters [lit ''a'', [], lit ''M: Claude'', [], lit ''Claude-Session: x''] (Some 4) = [(5, SessionTrailer)]"
  "removed_lines sample_letters [lit ''a'', [], lit ''M: Claude''] (Some 2) = [(3, AiTrailer)]"
  by (simp_all add: removed_lines_def continuations_def classify_samples)

lemma dropped_line: "drop_lines two_blocks [(5, SessionTrailer)] = one_block"
  by (simp add: drop_lines_def two_blocks_def one_block_def lit_def drop_step_def tidy_def blank_def trim_def
      trim_start_def trim_end_def is_whitespace_def)

lemma no_template: "split_template sample_letters two_blocks = (two_blocks, [])" "split_template sample_letters one_block = (one_block, [])"
  by (simp_all add: split_template_def template_scanned_def template_step_def two_blocks_def one_block_def lit_def
      trim_breaks_def is_break_def SCISSORS_def blank_def trim_def trim_start_def trim_end_def is_whitespace_def starts_with_def)


end
