(* ===== verification/Sanitizer_Lines.thy ===== *)
theory Sanitizer_Lines
  imports Sanitizer_Laws Policy_Hooks Attribution_Laws
begin

text \<open>The message sanitizer on a line that runs one git commit.\<close>

section \<open>One commit\<close>

definition line_call :: "str \<Rightarrow> command \<Rightarrow> str \<Rightarrow> program_call" where
  "line_call t cmd dir = \<lparr>cl_chars = t, cl_cmds = [cmd], cl_index = 0, cl_at = 0, cl_dir = dir, cl_depth = 0, cl_inline = Anywhere\<rparr>"

text \<open>The words run git by this name or path, with nothing in front.\<close>

definition starts_git :: "machine \<Rightarrow> str list \<Rightarrow> bool" where
  "starts_git m ws \<longleftrightarrow> program_index (mc_lc m) ws = Some 0 \<and> ws \<noteq> [] \<and> program_name (mc_lc m) (hd ws) = lit ''git''"

lemma skip_to_commit: "cm_words (cmd_of c) = g # lit ''commit'' # args \<Longrightarrow> skip_globals m c (Suc 0) dir st = (Some (1, dir), st)"
  by (subst skip_globals.simps) (simp add: Let_def GLOBAL_WITH_VALUE_def lit_def starts_with_def)

lemma line_call_at [simp]: "(line_call t cmd dir)\<lparr>cl_at := 0\<rparr> = line_call t cmd dir"
  by (simp add: line_call_def)

lemma rewrite_commit:
  assumes "commands t = [plain_command (g # lit ''commit'' # args) ss]" "starts_git m (g # lit ''commit'' # args)"
  shows "rewrite_command m t dir = map_option (\<lambda>(edits, f). (apply_edits t edits, f))
    (git_commit m (line_call t (plain_command (g # lit ''commit'' # args) ss) (follow_cd m (g # lit ''commit'' # args) dir)) 2 ([], no_findings))"
proof -
  let ?ws = "g # lit ''commit'' # args"
  let ?cmd = "plain_command ?ws ss" and ?dir = "follow_cd m ?ws dir"
  have locate: "locate_programs m ?ws = [(0, lit ''git'')]"
    using assms(2) by (simp add: locate_programs_def starts_git_def CARRIERS_def)
  have dirs: "cd_at m ?ws (enter_depth [(0, dir)] 0 0) 0 = [(0, ?dir)]"
    by (simp add: cd_at_def enter_depth_def)
  have cmd: "cmd_of (line_call t ?cmd d) = ?cmd" for d by (simp add: cmd_of_def line_call_def)
  have env: "drop_identity_env m (line_call t ?cmd d) st = st" for d st
    by (simp add: drop_identity_env_def line_call_def)
  have handle: "git_handle m again (line_call t ?cmd ?dir) st = git_commit m (line_call t ?cmd ?dir) 2 st" for again st
  proof -
    have w: "cm_words (cmd_of (line_call t ?cmd ?dir)) = ?ws" unfolding cmd by (simp add: plain_command_def)
    have c: "cl_at (line_call t ?cmd ?dir) = 0" "cl_dir (line_call t ?cmd ?dir) = ?dir"
      "(line_call t ?cmd ?dir)\<lparr>cl_dir := ?dir\<rparr> = line_call t ?cmd ?dir" by (simp_all add: line_call_def)
    show ?thesis by (simp add: git_handle_def env w c skip_to_commit[OF w] Let_def eval_nat_numeral)
  qed
  have call: "\<lparr>cl_chars = t, cl_cmds = [?cmd], cl_index = 0, cl_at = 0, cl_dir = ?dir, cl_depth = 0, cl_inline = Anywhere\<rparr> = line_call t ?cmd ?dir"
    by (simp add: line_call_def)
  have "walk_commands m again \<lparr>cl_chars = t, cl_cmds = [?cmd], cl_index = 0, cl_at = 0, cl_dir = dir, cl_depth = 0, cl_inline = Anywhere\<rparr>
      [0] [(0, dir)] st = git_commit m (line_call t ?cmd ?dir) 2 st" for again st
    using locate dirs handle[of again st] call
    by (simp add: plain_command_def Let_def handle_call_def)
  then show ?thesis
    using assms(1) by (simp add: rewrite_command_def MAX_NESTING_def eval_nat_numeral walk_script_def)
qed

section \<open>A redirect on the line\<close>

lemma reading_less:
  assumes "reading l cs a cw ws ss" "drop a cs = 60 # c # r" "c \<noteq> 60"
  shows "run_lexer l = run_lexer (lex_step l)" "reading (lex_step l) cs (a + 1) (Some (Shell_Spelling.extend cw a [60] False)) ws ss"
proof -
  have a: "a < length cs" "cs ! a = 60" "Suc a < length cs" "cs ! Suc a = c"
    using drop_Cons[OF assms(2)] by (auto dest: drop_Cons)
  show "run_lexer l = run_lexer (lex_step l)" by (rule run_step) (use a reading_at[OF assms(1)] in simp)
  show "reading (lex_step l) cs (a + 1) (Some (Shell_Spelling.extend cw a [60] False)) ws ss"
    using assms(1,3) a
    by (cases "(cw, a, [60 :: nat], False)" rule: Shell_Spelling.extend.cases)
       (auto simp: lex_step_def Let_def reading_def begin_word_def push_str_def lit_def not_looking_at is_whitespace_def)
qed

lemma reading_prefix:
  assumes "reading l cs a cw ws ss" "drop a cs = line_text line @ r"
    "list_all (\<lambda>(gap, w). list_all is_blank gap \<and> word_ok w) line"
    "list_all (\<lambda>(gap, _). gap \<noteq> []) (if cw = None then tl line else line)"
  shows "\<exists>l' cw' ws' ss'. run_lexer l = run_lexer l' \<and> reading l' cs (a + length (line_text line)) cw' ws' ss' \<and>
    ws' @ pending_word cw' = ws @ pending_word cw @ line_words line \<and>
    ss' @ pending_span cw' (a + length (line_text line)) = ss @ pending_span cw a @ line_spans a line"
  using assms
proof (induction line arbitrary: l a cw ws ss)
  case Nil
  then show ?case by (fastforce simp: line_text_def line_words_def)
next
  case (Cons gw line)
  obtain g w where gw: "gw = (g, w)" by (cases gw)
  from Cons.prems have str: "drop a cs = g @ spell w @ line_text line @ r" by (simp add: gw line_text_def)
  from Cons.prems gw have ok: "list_all is_blank g" "cw = None \<or> g \<noteq> []" "word_ok w" by auto
  from reading_gap[OF Cons.prems(1) str ok(1,2)] obtain l1 where l1: "run_lexer l = run_lexer l1"
    "reading l1 cs (a + length g) None (ws @ pending_word cw) (ss @ pending_span cw a)" by blast
  have "drop (length g) (drop a cs) = spell w @ line_text line @ r" by (simp add: str)
  then have str1: "drop (a + length g) cs = spell w @ line_text line @ r" by (simp add: add.commute)
  from reading_word[OF l1(2) str1] ok(3) obtain l2 where l2: "run_lexer l1 = run_lexer l2"
    "reading l2 cs (a + length g + length (spell w)) (Some (meaning w, a + length g, list_ex dynamic w))
      (ws @ pending_word cw) (ss @ pending_span cw a)" by (auto simp: word_ok_def)
  have "drop (length (spell w)) (drop (a + length g) cs) = line_text line @ r" by (simp add: str1)
  then have str2: "drop (a + length g + length (spell w)) cs = line_text line @ r" by (simp add: add.commute)
  have gaps: "list_all (\<lambda>(gap, _). gap \<noteq> []) line" using Cons.prems(4) gw by (auto split: if_splits)
  from Cons.IH[OF l2(2) str2] Cons.prems(3) gaps l1(1) l2(1) show ?case
    by (simp add: gw line_words_def line_text_def add.assoc)
qed

lemma redirected_line_commands:
  assumes "line_ok line" "line_ok after" "fst (hd after) \<noteq> []"
  shows "\<exists>ss. commands (line_text line @ 32 # 60 # line_text after) = [plain_command (line_words line @ lit ''<'' # line_words after) ss]"
proof -
  let ?cs = "line_text line @ 32 # 60 # line_text after"
  have ok: "list_all (\<lambda>(gap, w). list_all is_blank gap \<and> word_ok w) line" "list_all (\<lambda>(gap, _). gap \<noteq> []) (tl line)"
    "list_all (\<lambda>(gap, w). list_all is_blank gap \<and> word_ok w) after" "list_all (\<lambda>(gap, _). gap \<noteq> []) after"
    using assms by (auto simp: line_ok_def) (cases after; auto)+
  obtain l1 cw ws ss where l1: "run_lexer (new_lexer ?cs) = run_lexer l1" "reading l1 ?cs (length (line_text line)) cw ws ss"
    "ws @ pending_word cw = line_words line"
    using reading_prefix[OF reading_new, of ?cs line "32 # 60 # line_text after"] ok(1,2) by auto
  let ?a = "length (line_text line)"
  have d: "drop ?a ?cs = 32 # 60 # line_text after" by simp
  obtain g w rest where after: "after = (g, w) # rest" using assms(2) by (cases after) (auto simp: line_ok_def)
  then obtain b g' where g: "g = b # g'" using assms(3) by (cases g) auto
  have b: "is_blank b" using ok(3) by (simp add: after g)
  note blank = reading_blank[OF l1(2) d, unfolded is_blank_def, simplified]
  obtain ws1 ss1 where r1: "run_lexer l1 = run_lexer (lex_step l1)" "reading (lex_step l1) ?cs (?a + 1) None ws1 ss1" "ws1 = line_words line"
    using blank l1(3) by (cases cw) (auto simp: is_whitespace_def)
  have d1: "drop (?a + 1) ?cs = 60 # b # g' @ spell w @ line_text rest" by (simp add: after g line_text_def)
  have "b \<noteq> 60" using b by (auto simp: is_blank_def is_whitespace_def)
  note r2 = reading_less[OF r1(2) d1 this]
  have d2: "drop (?a + 1 + 1) ?cs = line_text after" by simp
  have "lx_commands (run_lexer (lex_step (lex_step l1))) = [plain_command (ws1 @ pending_word (Some (Shell_Spelling.extend None (?a + 1) [60] False)) @ line_words after)
      (ss1 @ pending_span (Some (Shell_Spelling.extend None (?a + 1) [60] False)) (?a + 1 + 1) @ line_spans (?a + 1 + 1) after)]"
    by (rule reading_line[OF r2(2) _ d2 ok(3)]) (use ok(4) in auto)
  then have "commands ?cs = [plain_command (line_words line @ [60] # line_words after)
      (ss1 @ pending_span (Some (Shell_Spelling.extend None (?a + 1) [60] False)) (?a + 1 + 1) @ line_spans (?a + 1 + 1) after)]"
    using l1(1) r1(1,3) r2(1) by (simp add: commands_def)
  then show ?thesis unfolding lit_def by auto
qed

section \<open>Standard input read from itself\<close>

lemma from_stdin_loops:
  assumes "cm_heredocs (cmd_of c) = []" "lit ''<<<'' \<notin> set (cm_words (cmd_of c))"
    "redirected_from (cmd_of c) 0 (cm_words (cmd_of c)) = Some named" "is_stdin_path (nm_path named)"
  shows "from_stdin m c label f = None"
proof (cases "from_stdin m c label f")
  case (Some r)
  have none: "first_index P xs = None" if "\<forall>x\<in>set xs. \<not> P x" for P and xs :: "str list"
    using that by (induction xs) auto
  have "\<not> (cm_heredocs (cmd_of c) = [] \<and> lit ''<<<'' \<notin> set (cm_words (cmd_of c)) \<and>
      redirected_from (cmd_of c) 0 (cm_words (cmd_of c)) = Some named \<and> is_stdin_path (nm_path named))"
  proof (rule from_stdin.raw_induct[where P = "\<lambda>m c label f r. \<not> (cm_heredocs (cmd_of c) = [] \<and>
      lit ''<<<'' \<notin> set (cm_words (cmd_of c)) \<and> redirected_from (cmd_of c) 0 (cm_words (cmd_of c)) = Some named \<and>
      is_stdin_path (nm_path named))", OF _ Some], goal_cases)
    case (1 rec m c label f r)
    then show ?case using none[of "cm_words (cmd_of c)" "\<lambda>w. w = lit ''<<<''"]
      by (auto simp: Let_def split: if_splits option.splits)
  qed
  with assms show ?thesis by blast
qed

lemma starts_git:
  assumes "lowers_ascii (mc_lc m)"
  shows "starts_git m (lit ''git'' # ws)"
proof -
  have name: "program_name (mc_lc m) (lit ''git'') = lit ''git''"
    using program_name_git[OF assms, of "[]"] by simp
  have "redirect_len (lit ''git'') = 0" "\<not> is_assignment (lit ''git'')" "lit ''git'' \<notin> set SHELL_KEYWORDS" "lit ''git'' \<notin> set WRAPPERS"
    by (simp_all add: redirect_len_def is_assignment_def SHELL_KEYWORDS_def WRAPPERS_def lit_def is_ascii_digit_def)
  with name have "program_index (mc_lc m) (lit ''git'' # ws) = Some 0"
    unfolding program_index_def by (subst program_from.simps) (simp add: Let_def)
  with name show ?thesis by (simp add: starts_git_def)
qed

lemma redirect_found:
  "\<exists>named. redirected_from cmd 0 (lit ''git'' # lit ''commit'' # [lit ''-F'', lit ''-'', lit ''<'', path]) = Some named \<and> nm_path named = path"
  by (simp add: lit_def starts_with_def)

lemma commit_file_options:
  assumes "is_stdin_path path"
  shows "scan_opts COMMIT [lit ''-F'', lit ''-'', lit ''<'', path] =
    [\<lparr>ot_name = lit ''F'', ot_value = Some (lit ''-''), ot_word = 0, ot_value_word = 1, ot_inline_at = None\<rparr>]"
proof -
  have path: "path = lit ''-'' \<or> (\<exists>c r. path = c # r \<and> c \<noteq> 45)"
    using assms by (auto simp: is_stdin_path_def STDIN_PATHS_def lit_def)
  let ?args = "[lit ''-F'', lit ''-'', lit ''<'', path]"
  have four: "scan_opts_from COMMIT ?args 4 = []" by (subst scan_opts_from.simps) simp
  have three: "scan_opts_from COMMIT ?args 3 = []"
    using path four by (subst scan_opts_from.simps) (auto simp: scan_word_def strip_prefix_def starts_with_def lit_def)
  have two: "scan_opts_from COMMIT ?args 2 = []"
    using three by (subst scan_opts_from.simps) (simp add: scan_word_def strip_prefix_def starts_with_def lit_def)
  have "(70 :: nat) \<in> set (os_short_values COMMIT)" by (simp add: COMMIT_def lit_def)
  then have "scan_word COMMIT ?args 0 =
      ([\<lparr>ot_name = lit ''F'', ot_value = Some (lit ''-''), ot_word = 0, ot_value_word = 1, ot_inline_at = None\<rparr>], 2)"
    by (simp add: scan_word_def strip_prefix_def starts_with_def lit_def take_next_def)
  then show ?thesis
    unfolding scan_opts_def using two
    by (subst scan_opts_from.simps) (simp add: lit_def)
qed

text \<open>A machine for witnesses: ASCII letters, no files, no repository, sign-off asked for.\<close>

definition sample_machine :: machine where
  "sample_machine = \<lparr>mc_letters = sample_letters, mc_home = lit ''/h'', mc_env = Map.empty, mc_file = (\<lambda>_. No_File),
    mc_exists = (\<lambda>_. False), mc_script = Map.empty, mc_git = (\<lambda>_ _. None), mc_lint = (\<lambda>_. []), mc_lint_mode = lit ''off'',
    mc_sign_off = True\<rparr>"

lemma sample_machine: "lowers_ascii (mc_lc sample_machine)" "mc_letters sample_machine = sample_letters"
    "mc_sign_off sample_machine" "\<not> hook_signs_off sample_machine dir"
  using sample_lowers by (simp_all add: sample_machine_def sample_letters_def sample_ground_def hook_signs_off_def)

text \<open>
  C14. The message sanitizer does not return from git commit -F - < /dev/stdin, nor from any other name
  of standard input after the redirect: it reads the message from the redirect, whose path stands for
  standard input, for which it reads the redirect again. The two functions call each other without
  end, whatever the files, the repository and the settings.
\<close>

theorem stdin_redirect_never_returns:
  assumes "lowers_ascii (mc_lc m)" "line_ok line" "line_words line = map lit [''git'', ''commit'', ''-F'', ''-'']"
    and "line_ok after" "fst (hd after) \<noteq> []" "line_words after = [path]" "is_stdin_path path"
  shows "rewrite_command m (line_text line @ 32 # 60 # line_text after) dir = None"
proof -
  let ?ws = "lit ''git'' # lit ''commit'' # [lit ''-F'', lit ''-'', lit ''<'', path]"
  let ?t = "line_text line @ 32 # 60 # line_text after"
  obtain ss where ss: "commands ?t = [plain_command ?ws ss]"
    using redirected_line_commands[OF assms(2,4,5)] assms(3,6) by auto
  define c where "c = line_call ?t (plain_command ?ws ss) (follow_cd m ?ws dir)"
  have cmd: "cm_words (cmd_of c) = ?ws" "cm_heredocs (cmd_of c) = []"
    by (simp_all add: c_def cmd_of_def line_call_def plain_command_def)
  obtain named where "redirected_from (cmd_of c) 0 ?ws = Some named" "nm_path named = path"
    using redirect_found by blast
  moreover have "lit ''<<<'' \<notin> set ?ws" using assms(7) by (auto simp: is_stdin_path_def STDIN_PATHS_def lit_def)
  ultimately have loop: "from_stdin m c label f = None" for label f
    using from_stdin_loops[of c named] cmd assms(7) by simp
  have "is_stdin_path (lit ''-'')" by (simp add: is_stdin_path_def STDIN_PATHS_def)
  then have "from_path m c \<lparr>nm_path = lit ''-'', nm_dynamic = d, nm_replace = r, nm_opener = o'\<rparr> label f = None" for d r o' label f
    using loop by (simp add: from_path_def)
  then have "message_sources m c 2
      [\<lparr>ot_name = lit ''F'', ot_value = Some (lit ''-''), ot_word = 0, ot_value_word = 1, ot_inline_at = None\<rparr>] label f = None" for label f
    using cmd by (simp add: lit_def)
  moreover have "rest_words c 2 = [lit ''-F'', lit ''-'', lit ''<'', path]" unfolding rest_words_def cmd by simp
  ultimately have "git_commit m c 2 st = None" for st
    unfolding git_commit_def Let_def by (simp only: commit_file_options[OF assms(7)] option.map)
  then show ?thesis unfolding rewrite_commit[OF ss starts_git[OF assms(1)]] c_def[symmetric] by simp
qed

theorem stdin_redirect_never_returns_witness:
  "rewrite_command sample_machine (lit ''git commit -F - < /dev/stdin'') (lit ''/w'') = None"
proof -
  let ?line = "quoted_line (map lit [''git'', ''commit'', ''-F'', ''-''])" and ?after = "[([32], map Bare (lit ''/dev/stdin''))]"
  have t: "line_text ?line @ 32 # 60 # line_text ?after = lit ''git commit -F - < /dev/stdin''"
    by (subst quoted_line(2)) (simp_all add: quoted_word_def is_plain_char_def is_ascii_alnum_def is_ascii_digit_def
      is_ascii_lower_def is_ascii_upper_def lit_def line_text_def spell_def)
  have "line_words ?after = [lit ''/dev/stdin'']" "line_ok ?after"
    by (simp_all add: line_words_def meaning_def line_ok_def word_ok_def is_bare_def is_blank_def is_whitespace_def lit_def)
  moreover have "line_ok ?line" "line_words ?line = map lit [''git'', ''commit'', ''-F'', ''-'']" by (simp_all add: quoted_line(1,3))
  ultimately show ?thesis
    using stdin_redirect_never_returns[OF sample_machine(1), of ?line ?after "lit ''/dev/stdin''" "lit ''/w''", unfolded t]
    by (simp add: is_stdin_path_def STDIN_PATHS_def)
qed

end
