(* ===== verification/Sanitizer_Clean.thy ===== *)
theory Sanitizer_Clean
  imports Sanitizer_Lines
begin

text \<open>
  The message of git commit -m, from the text of the command to the words of the rewritten one: which
  message git gets and when the sign-off is added.
\<close>

section \<open>Line numbers\<close>

lemma removed_from_range: "x \<in> set (removed_from lt block i c ls) \<Longrightarrow> i < fst x \<and> fst x \<le> i + length ls"
proof (induction ls arbitrary: i c)
  case (Cons line rest)
  define b where "b = (case block of None \<Rightarrow> False | Some b \<Rightarrow> b \<le> i)"
  have n: "continuations line rest b \<le> length rest" by (auto simp: continuations_def length_takeWhile_le)
  have "(\<exists>c'. x \<in> set (removed_from lt block (i + 1) c' rest)) \<or> (i < fst x \<and> fst x \<le> i + 1 + continuations line rest b)"
    using Cons.prems unfolding removed_from.simps Let_def b_def[symmetric] by (auto split: if_splits option.splits)
  with Cons.IH[of "i + 1"] n show ?case by fastforce
qed simp

lemma pieces_le_lines: "length (pieces t) \<le> lines_of_text t"
proof -
  have "length (pieces t) \<le> length (split_on 10 t) \<and> split_on 10 t \<noteq> []"
    by (induction t) (auto split: list.splits)
  then show ?thesis by (simp add: lines_of_text_def)
qed

lemma problems_range: "x \<in> set (problems lt t) \<Longrightarrow> 0 < fst x \<and> fst x \<le> lines_of_text t"
  using removed_from_range[of x lt _ 0 0 "map trim_breaks (pieces t)"] pieces_le_lines[of t]
  by (fastforce simp: problems_def sanitize_def scan_def Let_def removed_lines_def)

section \<open>The edits of one message\<close>

definition message_source :: "nat \<times> nat \<Rightarrow> nat \<times> nat \<Rightarrow> str \<Rightarrow> text_source" where
  "message_source rg whole msg = \<lparr>sr_label = lit ''the commit message'', sr_text = msg, sr_target = Word rg (Some (whole, []))\<rparr>"

definition message_edits :: "nat \<times> nat \<Rightarrow> str \<Rightarrow> (nat \<times> shape) list \<Rightarrow> text_edit list" where
  "message_edits rg msg removed = (if removed = [] then [] else [(rg, quote (drop_lines msg removed))])"

definition message_notes :: "(nat \<times> shape) list \<Rightarrow> finding_note list" where
  "message_notes removed = map (\<lambda>(n, sh). Removed_Line (lit ''the commit message'') n sh) removed"

lemma foldl_notes: "foldl (\<lambda>f (n, sh). add_note (Removed_Line l n sh) f) f removed =
    f\<lparr>fn_notes := fn_notes f @ map (\<lambda>(n, sh). Removed_Line l n sh) removed\<rparr>"
  by (induction removed arbitrary: f) (auto simp: add_note_def)

lemma apply_one_message:
  assumes "removed = problems (mc_letters m) (trim_newlines msg)" "removed = [] \<or> \<not> blank (drop_lines msg removed)" "fn_notes f = []"
  shows "\<exists>f'. apply_sources m [message_source rg whole msg] Commit_Rule True ([], f) = (message_edits rg msg removed, f') \<and>
    fn_notes f' = message_notes removed \<and> fn_signed_off f' = fn_signed_off f"
proof -
  let ?s = "message_source rg whole msg"
  have joined: "joined [?s] = trim_newlines msg" by (simp add: joined_def joined_text_def message_source_def)
  have all: "filter (\<lambda>(k, _). 1 \<le> k \<and> k < 1 + lines_of_text (trim_newlines msg)) removed = removed"
    using problems_range[of _ "mc_letters m" "trim_newlines msg"] unfolding assms(1)[symmetric]
    by (intro filter_id_conv[THEN iffD2]) fastforce
  have local: "map (\<lambda>(k, sh). (k + 1 - 1, sh)) removed = removed" by (simp add: case_prod_unfold)
  have rewritten: "rewrite_source ?s removed removed ([], g) = ([(rg, quote (drop_lines msg removed))],
      g\<lparr>fn_notes := fn_notes g @ message_notes removed\<rparr>)" if "removed \<noteq> []" for g
    using assms(2) that by (simp add: rewrite_source_def message_source_def Let_def foldl_notes message_notes_def)
  have "rewrite_group 1 removed [?s] ([], g) =
      (message_edits rg msg removed, if removed = [] then g else g\<lparr>fn_notes := fn_notes g @ message_notes removed\<rparr>)" for g
    using all local rewritten[of g] by (simp add: Let_def message_source_def message_edits_def)
  then show ?thesis
    using assms(3)
    by (simp add: apply_sources_def apply_group_def Let_def joined removed_by_def assms(1)[symmetric])
       (auto simp: message_notes_def)
qed

section \<open>git commit -m\<close>

lemma commit_message_options: "scan_opts COMMIT [lit ''-m'', msg] =
    [\<lparr>ot_name = lit ''m'', ot_value = Some msg, ot_word = 0, ot_value_word = 1, ot_inline_at = None\<rparr>]"
proof -
  let ?args = "[lit ''-m'', msg]"
  have "(109 :: nat) \<in> set (os_short_values COMMIT)" by (simp add: COMMIT_def lit_def)
  then have "scan_word COMMIT ?args 0 =
      ([\<lparr>ot_name = lit ''m'', ot_value = Some msg, ot_word = 0, ot_value_word = 1, ot_inline_at = None\<rparr>], 2)"
    by (simp add: scan_word_def strip_prefix_def starts_with_def lit_def take_next_def)
  moreover have "scan_opts_from COMMIT ?args 2 = []" by (subst scan_opts_from.simps) simp
  ultimately show ?thesis
    unfolding scan_opts_def by (subst scan_opts_from.simps) (simp add: lit_def)
qed

text \<open>Whether the hook adds a sign-off to a commit with this message in this folder.\<close>

definition adds_sign_off :: "machine \<Rightarrow> str \<Rightarrow> str \<Rightarrow> bool" where
  "adds_sign_off m msg dir \<longleftrightarrow> mc_sign_off m \<and> \<not> hook_signs_off m dir \<and>
     \<not> has_sign_off (sn_text (sanitize (mc_letters m) (trim_newlines msg)))"

lemma git_commit_message:
  assumes "cm_words (cmd_of c) = g # lit ''commit'' # [lit ''-m'', msg]" "\<not> sp_dynamic (span_at c 3)"
    "removed = problems (mc_letters m) (trim_newlines msg)" "removed = [] \<or> \<not> blank (drop_lines msg removed)"
  shows "\<exists>f. git_commit m c 2 ([], no_findings) = Some (message_edits (sp_start (span_at c 3), sp_end (span_at c 3)) msg removed @
      (if adds_sign_off m msg (cl_dir c) then [((sp_end (span_at c 1), sp_end (span_at c 1)), lit '' -s'')] else []), f) \<and>
    fn_notes f = message_notes removed \<and> (fn_signed_off f \<longleftrightarrow> adds_sign_off m msg (cl_dir c))"
proof -
  define opt where "opt = \<lparr>ot_name = lit ''m'', ot_value = Some msg, ot_word = 0, ot_value_word = 1, ot_inline_at = None\<rparr>"
  let ?rg = "(sp_start (span_at c 3), sp_end (span_at c 3))"
  let ?s = "message_source ?rg (sp_start (span_at c 2), sp_end (span_at c 3)) msg"
  have rest: "rest_words c 2 = [lit ''-m'', msg]" by (simp add: rest_words_def assms(1))
  have "value_span c 3 None = Some ?rg" by (simp add: value_span_def raw_at_def Let_def)
  then have "from_word m c 3 None l f = ([\<lparr>sr_label = l, sr_text = msg, sr_target = Word ?rg None\<rparr>], f)" for l f
    using assms(1,2) by (simp add: from_word_def Let_def)
  moreover have "kept_letters opt (lit ''-m'') = []" by (simp add: opt_def kept_letters_def strip_prefix_def starts_with_def lit_def)
  ultimately have sources: "message_sources m c 2 [opt] (lit ''the commit message'') f = Some ([?s], True, f)" for f
    using assms(1) by (simp add: opt_def Let_def with_option_def message_source_def numeral_2_eq_2 numeral_3_eq_3)
  obtain f' where f': "apply_sources m [?s] Commit_Rule True ([], no_findings) = (message_edits ?rg msg removed, f')"
    "fn_notes f' = message_notes removed" "\<not> fn_signed_off f'"
    using apply_one_message[OF assms(3,4), of no_findings ?rg] by (auto simp: no_findings_def)
  have other: "drop_ai_options m c 2 [opt] st = st" for st
    by (simp add: opt_def drop_ai_options_def Let_def lit_def)
  have known: "joined [?s] = trim_newlines msg" by (simp add: joined_def joined_text_def message_source_def)
  have "git_commit m c 2 ([], no_findings) =
      Some (sign_off m c 2 [opt] (Some (trim_newlines msg)) (message_edits ?rg msg removed, f'))"
    unfolding git_commit_def rest commit_message_options Let_def opt_def[symmetric]
    by (simp add: sources f'(1) other known del: message_sources.simps)
  moreover have "\<not> has_opt [opt] (map lit [''s'', ''signoff'', ''no-signoff'', ''dry-run''])" by (simp add: opt_def has_opt_def lit_def)
  ultimately show ?thesis
    using f'(2,3) by (auto simp: sign_off_def adds_sign_off_def Let_def after_subcommand_def)
qed

section \<open>The rewritten line\<close>

definition commit_line :: "spelled_line \<Rightarrow> bool \<Rightarrow> str option \<Rightarrow> spelled_line" where
  "commit_line line signs new = (case line of
     [w0, w1, w2, (gap, w3)] \<Rightarrow> [w0, w1] @ (if signs then [([32], [Bare 45, Bare 115])] else []) @
       [w2, (gap, case new of None \<Rightarrow> w3 | Some t \<Rightarrow> quote_pieces [] t)]
   | _ \<Rightarrow> line)"

lemma quoted_pieces_ok: "word_ok (quote_pieces [] t)" "meaning (quote_pieces [] t) = t" "spell (quote_pieces [] t) = quote t"
  using quote_pieces[of "[]" t] by (simp_all add: word_ok_def quote_def)

lemma commit_line_ok:
  assumes "line_ok line" "length line = 4"
  shows "line_ok (commit_line line signs new)"
proof -
  obtain w0 w1 w2 gap w3 where line: "line = [w0, w1, w2, (gap, w3)]"
    using assms(2) by (auto simp: length_Suc_conv eval_nat_numeral)
  have "word_ok [Bare 45, Bare 115]" by (simp add: word_ok_def is_bare_def is_whitespace_def)
  then show ?thesis
    using assms(1) quoted_pieces_ok(1)
    by (auto simp: line commit_line_def line_ok_def is_blank_def is_whitespace_def split: option.splits)
qed

lemma commit_line_words:
  "line_words line = [g, cm, o', msg] \<Longrightarrow>
   line_words (commit_line line signs new) = [g, cm] @ (if signs then [lit ''-s''] else []) @ [o', case new of None \<Rightarrow> msg | Some t \<Rightarrow> t]"
  by (auto simp: line_words_def commit_line_def meaning_def[of "[_, _]"] quoted_pieces_ok(2) lit_def split: option.splits)

lemma commit_line_text:
  assumes "line_ok line" "length line = 4" "ss = line_spans 0 line"
  shows "apply_edits (line_text line) ((case new of None \<Rightarrow> [] | Some t \<Rightarrow> [((sp_start (ss ! 3), sp_end (ss ! 3)), quote t)]) @
      (if signs then [((sp_end (ss ! 1), sp_end (ss ! 1)), lit '' -s'')] else [])) = line_text (commit_line line signs new)"
proof -
  obtain g0 w0 g1 w1 g2 w2 g3 w3 where line: "line = [(g0, w0), (g1, w1), (g2, w2), (g3, w3)]"
    using assms(2) by (auto simp: length_Suc_conv eval_nat_numeral)
  have "spell w2 \<noteq> []" using assms(1) by (cases w2; cases "hd w2") (auto simp: line line_ok_def word_ok_def spell_def)
  then have pos: "0 < length (spell w2)" by simp
  let ?a = "g0 @ spell w0 @ g1 @ spell w1" and ?b = "g2 @ spell w2 @ g3"
  have whole: "line_text line = ?a @ ?b @ spell w3" by (simp add: line line_text_def)
  have ss: "sp_end (ss ! 1) = length ?a" "sp_start (ss ! 3) = length ?a + length ?b" "sp_end (ss ! 3) = length ?a + length ?b + length (spell w3)"
    by (simp_all add: assms(3) line eval_nat_numeral)
  show ?thesis
    unfolding whole ss using pos
    by (cases new; cases signs) (simp_all add: apply_edits_def line commit_line_def line_text_def spell_def[of "[_, _]"] quoted_pieces_ok(3) lit_def)
qed

section \<open>The whole command\<close>

lemma commit_rewritten:
  assumes "lowers_ascii (mc_lc m)" "line_ok line" "line_words line = map lit [''git'', ''commit'', ''-m''] @ [msg]"
    "\<not> list_ex dynamic (snd (line ! 3))" "removed = problems (mc_letters m) (trim_newlines msg)"
    "removed = [] \<or> \<not> blank (drop_lines msg removed)" "signs = adds_sign_off m msg dir"
  shows "\<exists>f. rewrite_command m (line_text line) dir =
      Some (line_text (commit_line line signs (if removed = [] then None else Some (drop_lines msg removed))), f) \<and>
    fn_notes f = message_notes removed \<and> fn_signed_off f = signs"
proof -
  let ?ws = "lit ''git'' # lit ''commit'' # [lit ''-m'', msg]"
  let ?ss = "line_spans 0 line"
  define c where "c = line_call (line_text line) (plain_command ?ws ?ss) (follow_cd m ?ws dir)"
  have "length (line_words line) = 4" by (simp add: assms(3))
  then have len: "length line = 4" by (simp add: line_words_def)
  have cmds: "commands (line_text line) = [plain_command ?ws ?ss]" using line_commands[OF assms(2)] assms(3) by simp
  have span: "span_at c k = ?ss ! k" for k by (simp add: span_at_def c_def line_call_def cmd_of_def plain_command_def)
  have words: "cm_words (cmd_of c) = ?ws" by (simp add: c_def line_call_def cmd_of_def plain_command_def)
  have dir: "cl_dir c = dir" by (simp add: c_def line_call_def follow_cd_def lit_def)
  obtain g0 w0 g1 w1 g2 w2 g3 w3 where line: "line = [(g0, w0), (g1, w1), (g2, w2), (g3, w3)]"
    using len by (auto simp: length_Suc_conv eval_nat_numeral)
  have static: "\<not> sp_dynamic (span_at c 3)" using assms(4) by (simp add: span line eval_nat_numeral)
  obtain f where f: "git_commit m c 2 ([], no_findings) = Some (message_edits (sp_start (?ss ! 3), sp_end (?ss ! 3)) msg removed @
      (if signs then [((sp_end (?ss ! 1), sp_end (?ss ! 1)), lit '' -s'')] else []), f)"
    "fn_notes f = message_notes removed" "fn_signed_off f = signs"
    using git_commit_message[OF words static assms(5,6)] by (auto simp: span dir assms(7))
  have "message_edits r msg removed = (case if removed = [] then None else Some (drop_lines msg removed) of
      None \<Rightarrow> [] | Some t \<Rightarrow> [(r, quote t)])" for r by (simp add: message_edits_def)
  note edits = commit_line_text[OF assms(2) len refl, of "if removed = [] then None else Some (drop_lines msg removed)" signs, folded this]
  show ?thesis
    using f edits unfolding rewrite_commit[OF cmds starts_git[OF assms(1)]] c_def[symmetric] by simp
qed

text \<open>
  C12. From the text of the command to the words of the rewritten one: whatever the spelling of
  git commit -m with a message the shell does not expand, the rewritten line is read as the same
  command with the message less exactly the lines the check of the message reports, each reported in
  its turn, and with -s in front of the message exactly when the settings ask for it and neither the
  cleaned message nor a hook of the repository signs off.
\<close>

theorem commit_message_is_rewritten:
  assumes "lowers_ascii (mc_lc m)" "line_ok line" "line_words line = map lit [''git'', ''commit'', ''-m''] @ [msg]"
    and "\<not> list_ex dynamic (snd (line ! 3))" "removed = problems (mc_letters m) (trim_newlines msg)"
    and "removed = [] \<or> \<not> blank (drop_lines msg removed)"
    and "signs = (mc_sign_off m \<and> \<not> hook_signs_off m dir \<and>
      \<not> has_sign_off (sn_text (sanitize (mc_letters m) (trim_newlines msg))))"
  shows "\<exists>rewritten f. rewrite_command m (line_text line) dir = Some (rewritten, f) \<and>
    simple_commands rewritten = [map lit [''git'', ''commit''] @ (if signs then [lit ''-s''] else []) @
      [lit ''-m'', drop_lines msg removed]] \<and>
    fn_notes f = map (\<lambda>(n, sh). Removed_Line (lit ''the commit message'') n sh) removed \<and> fn_signed_off f = signs"
proof -
  let ?new = "if removed = [] then None else Some (drop_lines msg removed)"
  have signs: "signs = adds_sign_off m msg dir" by (simp add: assms(7) adds_sign_off_def)
  have "length (line_words line) = 4" by (simp add: assms(3))
  then have "line_ok (commit_line line signs ?new)" using commit_line_ok[OF assms(2)] by (simp add: line_words_def)
  then have "simple_commands (line_text (commit_line line signs ?new)) = [line_words (commit_line line signs ?new)]"
    by (simp add: line_commands simple_commands_def plain_command_def)
  moreover have "line_words (commit_line line signs ?new) =
      map lit [''git'', ''commit''] @ (if signs then [lit ''-s''] else []) @ [lit ''-m'', drop_lines msg removed]"
    using commit_line_words[of line "lit ''git''" "lit ''commit''" "lit ''-m''" msg signs ?new] assms(3)
    by (simp add: drop_lines_def)
  ultimately show ?thesis
    using commit_rewritten[OF assms(1-6) signs] by (auto simp: message_notes_def)
qed

lemma two_blocks_removed: "problems sample_letters (trim_newlines two_blocks) = [(5, SessionTrailer)]"
    "\<not> has_sign_off (sn_text (sanitize sample_letters (trim_newlines two_blocks)))" "\<not> blank one_block"
proof -
  have trimmed: "trim_newlines two_blocks = lit ''a'' @ [10, 10] @ lit ''M: Claude'' @ [10, 10] @ lit ''Claude-Session: x''"
    by (simp add: trim_newlines_def two_blocks_def lit_def)
  have lines: "map trim_breaks (pieces (trim_newlines two_blocks)) = [lit ''a'', [], lit ''M: Claude'', [], lit ''Claude-Session: x'']"
    unfolding trimmed by (simp add: lit_def trim_breaks_def is_break_def)
  have s: "sanitize sample_letters (trim_newlines two_blocks) =
      \<lparr>sn_text = drop_lines (trim_newlines two_blocks) [(5, SessionTrailer)], sn_removed = [(5, SessionTrailer)]\<rparr>"
    by (simp add: sanitize_def scan_def lines block_of_lines removed_of_lines Let_def)
  then show "problems sample_letters (trim_newlines two_blocks) = [(5, SessionTrailer)]" by (simp add: problems_def)
  have "drop_lines (trim_newlines two_blocks) [(5, SessionTrailer)] = lit ''a'' @ [10, 10] @ lit ''M: Claude''"
    unfolding trimmed
    by (simp add: drop_lines_def lit_def drop_step_def tidy_def blank_def trim_def trim_start_def trim_end_def is_whitespace_def
        trim_breaks_def is_break_def)
  then show "\<not> has_sign_off (sn_text (sanitize sample_letters (trim_newlines two_blocks)))"
    by (simp add: s has_sign_off_def text_lines_def line_of_def starts_with_def lit_def)
  show "\<not> blank one_block" by (simp add: one_block_def blank_def trim_def trim_start_def trim_end_def is_whitespace_def lit_def)
qed

theorem commit_message_is_rewritten_witness:
  "\<exists>rewritten f. rewrite_command sample_machine (lit ''git commit -m '' @ quote two_blocks) (lit ''/w'') = Some (rewritten, f) \<and>
    simple_commands rewritten = [map lit [''git'', ''commit'', ''-s'', ''-m''] @ [one_block]] \<and>
    fn_notes f = [Removed_Line (lit ''the commit message'') 5 SessionTrailer] \<and> fn_signed_off f"
proof -
  let ?line = "quoted_line (map lit [''git'', ''commit'', ''-m''] @ [two_blocks])"
  have t: "line_text ?line = lit ''git commit -m '' @ quote two_blocks"
    by (subst quoted_line(2)) (simp_all add: quoted_word_def is_plain_char_def is_ascii_alnum_def is_ascii_digit_def is_ascii_lower_def is_ascii_upper_def lit_def two_blocks_def)
  have static: "\<not> list_ex dynamic (snd (?line ! 3))"
    using word_pieces_static by (simp add: quoted_line_def eval_nat_numeral)
  have signs: "True = (mc_sign_off sample_machine \<and> \<not> hook_signs_off sample_machine (lit ''/w'') \<and>
      \<not> has_sign_off (sn_text (sanitize (mc_letters sample_machine) (trim_newlines two_blocks))))"
    by (simp add: sample_machine two_blocks_removed)
  have removed: "[(5, SessionTrailer)] = problems (mc_letters sample_machine) (trim_newlines two_blocks)"
    by (simp add: sample_machine two_blocks_removed)
  have words: "line_words ?line = map lit [''git'', ''commit'', ''-m''] @ [two_blocks]" by (rule quoted_line(3)) simp
  have "line_ok ?line" by (rule quoted_line(1)) simp
  from commit_message_is_rewritten[OF sample_machine(1) this words static removed _ signs, unfolded t dropped_line] show ?thesis
    by (simp add: two_blocks_removed)
qed

text \<open>
  C13. No command is changed in silence: whatever the words, the scripts inside them, the files and the
  repository, when the rewritten command differs from the one the agent gave, the hook reports a line
  or an option it removed or the sign-off it added.
\<close>

theorem changes_are_reported:
  assumes "rewrite_command m command dir = Some (rewritten, f)" "rewritten \<noteq> command"
  shows "fn_notes f \<noteq> [] \<or> fn_signed_off f"
  using walk_reports[of MAX_NESTING m] assms
  unfolding walker_reports_def rewrite_command_def reported_def by blast

theorem changes_are_reported_witness:
  "\<exists>rewritten f. rewrite_command sample_machine (lit ''git commit -m a'') (lit ''/w'') = Some (rewritten, f) \<and>
    rewritten \<noteq> lit ''git commit -m a'' \<and> (fn_notes f \<noteq> [] \<or> fn_signed_off f)"
proof -  let ?line = "quoted_line (map lit [''git'', ''commit'', ''-m'', ''a''])"
  have t: "line_text ?line = lit ''git commit -m a''"
    by (subst quoted_line(2)) (simp_all add: quoted_word_def is_plain_char_def is_ascii_alnum_def is_ascii_digit_def
      is_ascii_lower_def is_ascii_upper_def lit_def)
  have "line_ok ?line" "line_words ?line = map lit [''git'', ''commit'', ''-m''] @ [lit ''a'']"
    by (simp_all add: quoted_line(1,3))
  moreover have "\<not> list_ex dynamic (snd (?line ! 3))" using word_pieces_static by (simp add: quoted_line_def eval_nat_numeral)
  moreover have a: "trim_newlines (lit ''a'') = lit ''a''" "sanitize sample_letters (lit ''a'') = \<lparr>sn_text = lit ''a'', sn_removed = []\<rparr>"
    using classify_samples(1)
    by (simp_all add: trim_newlines_def sanitize_def scan_def removed_lines_def continuations_def Let_def drop_lines_def
        trailer_block_def first_blank_def blank_def trim_def trim_start_def trim_end_def is_whitespace_def trim_breaks_def is_break_def
        starts_with_def lit_def)
  then have "[] = problems (mc_letters sample_machine) (trim_newlines (lit ''a''))" "adds_sign_off sample_machine (lit ''a'') (lit ''/w'')"
    by (simp_all add: problems_def adds_sign_off_def sample_machine) (simp add: has_sign_off_def text_lines_def line_of_def starts_with_def lit_def)
  ultimately obtain f where f: "rewrite_command sample_machine (lit ''git commit -m a'') (lit ''/w'') = Some (line_text (commit_line ?line True None), f)"
    using commit_rewritten[OF sample_machine(1), of ?line "lit ''a''" "[]" True "lit ''/w''", unfolded t] by auto
  have "line_text (commit_line ?line True None) \<noteq> lit ''git commit -m a''" unfolding t[symmetric]
    by (simp add: commit_line_def quoted_line_def line_text_def spell_def lit_def)
  with f changes_are_reported[OF f] show ?thesis by blast
qed

end
