(* ===== verification/Spec2Isabelle.thy ===== *)
theory Spec2Isabelle
  imports Watch_Items Watch_Poll Watch_Cycle Watch_Reach Watch_Safety Editor Shell_Edits Rm_Guard Store_Writes Closing_Push Budget_Spend Budget_Caller Policy_Writes Sanitizer_Clean
begin

text \<open>
  Playbook is a command line program that runs beside a coding agent. This development models
  its parts that decide something, as definitions that follow the Rust code one function at a
  time, and proves what they promise. Paths below are under \<^verbatim>\<open>src/crates\<close>.

  \<^bold>\<open>Shared vocabulary.\<close> \<open>Prelude\<close>: text as lists of code points, the operations of the standard
  library on it, results as sums, and \<open>prog\<close>, a computation over an explicit state that may fail
  and keeps what it did before it failed. \<open>Calendar\<close> (\<^verbatim>\<open>cli/src/common/time.rs\<close>,
  \<^verbatim>\<open>common/src/time.rs\<close>, the dates of \<^verbatim>\<open>telemetry/src/aggregate.rs\<close>): civil dates, the time stamp
  writer and reader, which are inverse to each other.

  \<^bold>\<open>The watcher\<close> (\<^verbatim>\<open>cli/src/watch\<close>) polls pull requests and issues, matches them against rules and
  acts on them, unattended where a rule allows it.
    \<^item> \<open>Watch_Rule\<close> (\<^verbatim>\<open>rule.rs\<close>, \<^verbatim>\<open>settings.rs\<close>): rules, their checks, the autonomy ceiling.
    \<^item> \<open>Watch_Limits\<close> (\<^verbatim>\<open>limits.rs\<close>, \<^verbatim>\<open>backoff.rs\<close>, \<^verbatim>\<open>action.rs\<close>): caps, the approval ladder, backoff at its
      64 bit width.
    \<^item> \<open>Watch_Trust\<close> (\<^verbatim>\<open>trust.rs\<close>): sealing untrusted text in a block it cannot close.
    \<^item> \<open>Watch_Store\<close> (\<^verbatim>\<open>store.rs\<close>): the tables as a record, a statement per operation.
    \<^item> \<open>Watch_World\<close>: the engine's state, a trace of calls to the outside and the world that
      answers them. \<open>Watch_Claude\<close> (\<^verbatim>\<open>claude.rs\<close>): the model calls and the vote of three.
    \<^item> \<open>Watch_Engine\<close> (\<^verbatim>\<open>engine.rs\<close>, \<^verbatim>\<open>address.rs\<close>, \<^verbatim>\<open>review.rs\<close>, \<^verbatim>\<open>merge.rs\<close>, \<^verbatim>\<open>event.rs\<close>): every
      operation on an item. \<open>Watch_Poll\<close> (\<^verbatim>\<open>github.rs\<close>, \<^verbatim>\<open>source.rs\<close>): the poller.
      \<open>Watch_Cycle\<close> (\<^verbatim>\<open>journal.rs\<close>, \<^verbatim>\<open>cycle.rs\<close>, \<^verbatim>\<open>mod.rs\<close>): recovery, one cycle and the loop.
    \<^item> \<open>Watch_Laws\<close> states the locales of the store and of the engine operations; \<open>Watch_Reach\<close>
      interprets them and shows what every run of operations keeps in the tables;
      \<open>Watch_Safety\<close> shows that every effect on a repository is justified by what was read before
      it; \<open>Watch_Items\<close> shows the promises on single items: permission, pause, cleaning up, bounded
      retries.
  The engine's trait objects (git host, model, file system, clock) are fields of a record of
  functions, so every theorem holds for whatever they answer.

  \<^bold>\<open>The telemetry screen\<close> (\<^verbatim>\<open>telemetry/src/tui\<close>): \<open>Layout\<close> (\<^verbatim>\<open>layout.rs\<close>, the text format and its
  round trip), \<open>Arrange\<close> (\<^verbatim>\<open>arrange.rs\<close>, moving panels; an index out of range is the value
  \<open>Panic\<close>), \<open>Editor\<close> (\<^verbatim>\<open>editor.rs\<close>, the key handler as a state machine, its invariant and its
  refinement to a history of layouts).

  \<^bold>\<open>Command lines.\<close> \<open>Shell_Words\<close>, \<open>Shell_Scan\<close> and \<open>Shell_Lexer\<close> model
  \<^verbatim>\<open>cli/src/common/shell.rs\<close>: the options and wrappers in front of a program, the scans over
  quotes, substitutions and heredocs, and the lexer, whose record has the fields of the struct.
  \<open>Shell_Reads\<close> shows that it reads every text to its end without an index out of range and keeps
  words, spans and heredocs in order. \<open>Shell_Spelling\<close> describes the ways to spell a word and
  shows that each is read as what it means, so that quoting round-trips; \<open>Shell_Edits\<close> shows that
  words can be rewritten at their spans. \<open>Rm_Guard\<close> (\<^verbatim>\<open>cli/src/hooks/rm_workspace_guard.rs\<close>) is the
  hook that denies deleting the root or the home folder, with its own reader.

  \<^bold>\<open>The budget guard\<close> (\<^verbatim>\<open>cli/src/hooks/auto_cost.rs\<close>) prices what an unattended agent does and
  parks it at its cap. \<open>Pricing\<close> (\<^verbatim>\<open>telemetry/src/pricing.rs\<close>) is the price table; \<open>Transcript\<close> the
  counting of a file that grows while it is read, with the proof that no read order undercounts;
  \<open>Budget\<close> the run mode, the limits, the stored state and the verdict on a tool call. \<open>Closing\<close>
  (\<^verbatim>\<open>auto_cost/closing.rs\<close>) lists what a parked caller may still do, on top of \<open>Paths\<close>;
  \<open>Store_Writes\<close> (\<^verbatim>\<open>policy_guard/store_writes.rs\<close>) tells writes to the config store from reads.
  \<open>Closing_Push\<close> shows that no parked push writes a protected branch, \<open>Budget_Guard\<close> that the guard's
  settings stay locked and a warning comes once, \<open>Budget_Spend\<close> that a caller that spent its cap is
  parked, \<open>Budget_Caller\<close> that a subagent is charged to its own transcript. What git and the disk
  answer are records of functions.

  \<^bold>\<open>The policy guard\<close> (\<^verbatim>\<open>cli/src/hooks/policy_guard.rs\<close>) denies skipping git hooks and signing,
  hand-made pull requests and changes to protected settings. \<open>Policy_Settings\<close>
  (\<^verbatim>\<open>policy_guard/settings_writes.rs\<close>) tells the commands that write a settings file of Claude Code;
  \<open>Policy_Guard\<close> is the guard itself, from a command line or a path to the reason of the denial.
  \<open>Policy_Hooks\<close> shows that no spelling of a line skips hooks or signing by the options the guard
  knows, and names three it misreads; \<open>Policy_Writes\<close> that no redirect reaches a settings file.
  Where a path leads through links is an argument.

  \<^bold>\<open>Attribution\<close> (\<^verbatim>\<open>cli/src/common/attribution.rs\<close>, \<^verbatim>\<open>cli/src/sanitize.rs\<close>) finds and removes the
  lines that credit an AI. \<open>Attribution\<close> holds the shapes of a line, git's trailer block and the removal;
  \<open>Attribution_Laws\<close> shows that nothing but the reported lines goes, that free text is clean after one
  pass and a commit message need not be, and that the part of an editor file kept unread is git's own.

  \<^bold>\<open>The commit message sanitizer\<close> (\<^verbatim>\<open>cli/src/hooks/commit_message_sanitizer.rs\<close> and its folder) takes
  attribution out of the messages a shell command hands to git and gh, by editing the command.
  \<open>Cli_Opts\<close> (\<^verbatim>\<open>cli/src/common/cli_opts.rs\<close>) scans the options of a subcommand. \<open>Sanitizer_Sources\<close>
  (\<^verbatim>\<open>sources.rs\<close>) is where a message is read from and how it is written back, \<open>Sanitizer_Git\<close> (\<^verbatim>\<open>git.rs\<close>) the
  calls of git, \<open>Sanitizer_Engine\<close> (\<^verbatim>\<open>engine.rs\<close>, \<^verbatim>\<open>gh.rs\<close>) the calls of gh and the walk through nested scripts.
  Files, the environment, git, the prose lint and the settings are the record \<open>machine\<close>. A function
  that may read standard input returns nothing when the code would not return; \<open>Sanitizer_Lines\<close> shows a command
  for which it does not. \<open>Sanitizer_Laws\<close> and \<open>Sanitizer_Clean\<close> show that no command is changed in
  silence and follow git commit -m from the text of the command to the words of the rewritten one.

  \<^bold>\<open>Bounds and fuel.\<close> All functions are total and terminate on a measure, but for \<open>from_stdin\<close>,
  which is partial as the code is. The loop of the watcher runs for ever; it takes a bound on its passes.
  Scripts of the sanitizer nest as deep as the code lets them, three. Counts and lengths are natural numbers;
  where the code saturates, wraps or shifts (\<open>Watch_Limits\<close>, \<open>Calendar\<close>, \<open>Pricing\<close>, \<open>Budget\<close>) the
  width is written out.
  Amounts of money are rationals, so the rounding of floats is not modelled.

  \<^bold>\<open>Not modelled.\<close> Input and output behind the traits and parameters above (HTTP, git, the file
  system, processes, SQLite itself), drawing, the code index (tree-sitter and SQLite),
  installation, and the other commands of the program, which are listed with the reason in the
  manifest; of the sanitizer, the check of the commits after a command. The depth of the call stack is not modelled.
\<close>

end
